theory Spec2Isabelle
  imports Main "HOL-Library.Char_ord" "HOL-Library.List_Lexorder"
begin

section \<open>JavaScript values and their string conversion\<close>

text \<open>
  The cache key of \<^verbatim>\<open>BaseLLM.generate\<close> is the template string
  \<^verbatim>\<open>`${Object.entries(params).sort()}`\<close>, so the model needs the values a parameter
  object holds and the string JavaScript makes of them.  A Number that the code only
  passes on (temperature, top\_p, the penalties, whatever \<^verbatim>\<open>modelKwargs\<close> holds) is
  carried as JavaScript prints it: \<^verbatim>\<open>0.7\<close> is \<open>JNum ''0.7''\<close>.  An object is the
  list of its own enumerable properties in insertion order.
\<close>

datatype jsval =
    JUndefined
  | JNull
  | JBool bool
  | JNum string
  | JStr string
  | JArr "jsval list"
  | JObj "(string \<times> jsval) list"

type_synonym obj = "(string \<times> jsval) list"

text \<open>\<^verbatim>\<open>Array.prototype.join\<close> with the separator \<^verbatim>\<open>","\<close>.\<close>

fun joinComma :: "string list \<Rightarrow> string" where
  "joinComma [] = []"
| "joinComma [x] = x"
| "joinComma (x # y # ys) = x @ '','' @ joinComma (y # ys)"

text \<open>
  \<^verbatim>\<open>String(v)\<close>.  An array is the join of its elements, where \<^verbatim>\<open>undefined\<close> and
  \<^verbatim>\<open>null\<close> elements give the empty string; a plain object is \<^verbatim>\<open>[object Object]\<close>.
\<close>

fun toString :: "jsval \<Rightarrow> string" where
  "toString JUndefined = ''undefined''"
| "toString JNull = ''null''"
| "toString (JBool b) = (if b then ''true'' else ''false'')"
| "toString (JNum s) = s"
| "toString (JStr s) = s"
| "toString (JArr xs) =
     joinComma (map (\<lambda>x. if x = JUndefined \<or> x = JNull then [] else toString x) xs)"
| "toString (JObj ps) = ''[object Object]''"

text \<open>An element of an array as \<^verbatim>\<open>join\<close> prints it.\<close>

definition element :: "jsval \<Rightarrow> string" where
  "element x = (if x = JUndefined \<or> x = JNull then [] else toString x)"

text \<open>Truthiness, as \<^verbatim>\<open>if (v)\<close> and \<^verbatim>\<open>a && b\<close> read a value.\<close>

fun truthy :: "jsval \<Rightarrow> bool" where
  "truthy JUndefined = False"
| "truthy JNull = False"
| "truthy (JBool b) = b"
| "truthy (JNum s) = (s \<noteq> ''0'' \<and> s \<noteq> ''NaN'')"
| "truthy (JStr s) = (s \<noteq> [])"
| "truthy (JArr xs) = True"
| "truthy (JObj ps) = True"

text \<open>
  A non-negative integer as JavaScript prints it: its decimal digits.  This is the
  print of a Number below \<open>10\<^sup>2\<^sup>1\<close> only (from there on JavaScript prints an exponent),
  and \<open>maxTokens\<close>, \<open>n\<close> and \<open>bestOf\<close> are taken to be integers in that range.
\<close>

definition digit :: "nat \<Rightarrow> char" where
  "digit d = ''0123456789'' ! d"

function decimal :: "nat \<Rightarrow> string" where
  "decimal k = (if k < 10 then [digit k] else decimal (k div 10) @ [digit (k mod 10)])"
  by pat_completeness auto
termination
  by (relation "measure id") auto

declare decimal.simps [simp del]

definition decimalInt :: "int \<Rightarrow> string" where
  "decimalInt i = (if i < 0 then ''-'' @ decimal (nat (- i)) else decimal (nat i))"

text \<open>
  Property access and assignment.  \<open>getProp\<close> is \<^verbatim>\<open>o[k]\<close> (\<^verbatim>\<open>undefined\<close> when the
  object has no such property); \<open>setProp\<close> is \<^verbatim>\<open>o[k] = v\<close>, which keeps the place of a
  property the object already has and appends a new one; \<open>spread\<close> is
  \<^verbatim>\<open>{...a, ...b}\<close>.
\<close>

fun getProp :: "obj \<Rightarrow> string \<Rightarrow> jsval" where
  "getProp [] k = JUndefined"
| "getProp ((k', v) # ps) k = (if k' = k then v else getProp ps k)"

fun setProp :: "obj \<Rightarrow> string \<Rightarrow> jsval \<Rightarrow> obj" where
  "setProp [] k v = [(k, v)]"
| "setProp ((k', v') # ps) k v = (if k' = k then (k, v) # ps else (k', v') # setProp ps k v)"

definition spread :: "obj \<Rightarrow> obj \<Rightarrow> obj" where
  "spread a b = fold (\<lambda>(k, v) acc. setProp acc k v) b a"

text \<open>
  \<^verbatim>\<open>`${Object.entries(o).sort()}`\<close>: every entry is the two-element array
  \<^verbatim>\<open>[key, value]\<close>; \<^verbatim>\<open>sort()\<close> without a comparator orders the entries by their
  strings (stable, by code unit; \<open>char\<close> is a byte, which is the same order on ASCII);
  the template string joins the sorted entries.  Entries that the sort leaves in
  insertion order print alike, so the string does not depend on the order in which the
  properties were added.
\<close>

definition entryString :: "string \<times> jsval \<Rightarrow> string" where
  "entryString e = joinComma [fst e, element (snd e)]"

definition entriesSortedString :: "obj \<Rightarrow> string" where
  "entriesSortedString ob = joinComma (map entryString (sort_key entryString ob))"

section \<open>Data model\<close>

text \<open>
  A thrown value is an \<^verbatim>\<open>Error\<close> with its message, or the \<^verbatim>\<open>TypeError\<close> that the
  runtime throws.  An awaited promise is fulfilled, rejected, or never settles.
\<close>

datatype error = Error string | TypeError string

datatype 'a outcome = Fulfilled 'a | Rejected error | Pending

text \<open>\<^verbatim>\<open>`${err}`\<close>: the name of the error, a colon and the message.\<close>

fun errorString :: "error \<Rightarrow> string" where
  "errorString (Error msg) = ''Error: '' @ msg"
| "errorString (TypeError msg) = ''TypeError: '' @ msg"

text \<open>
  \<^verbatim>\<open>CreateCompletionResponseChoicesInner\<close>, \<^verbatim>\<open>CreateCompletionResponseUsage\<close> and the
  adapter's \<^verbatim>\<open>TokenUsage\<close>; every field may be absent.  Log-probabilities are a JSON
  payload that the code only passes on.
\<close>

record choice =
  choice_text :: "string option"
  choice_index :: "nat option"
  choice_logprobs :: jsval
  finish_reason :: "string option"

record usage =
  completion_tokens :: "nat option"
  prompt_tokens :: "nat option"
  total_tokens :: "nat option"

record tokenUsage =
  completionTokens :: "nat option"
  promptTokens :: "nat option"
  totalTokens :: "nat option"

text \<open>
  What a response's \<^verbatim>\<open>data\<close> is: the parsed body of a plain request, or the stream of a
  streamed one.  A stream is the sequence of what reaches the listeners of
  \<^verbatim>\<open>_generate\<close>: a server-sent event whose data is the literal \<^verbatim>\<open>[DONE]\<close>, a
  server-sent event whose data is JSON (carried as its \<^verbatim>\<open>choices[0]\<close>, \<open>None\<close> when
  that is null or missing), or the stream's \<^verbatim>\<open>error\<close> event.
\<close>

datatype stream_event = Sentinel | Delta "choice option" | Failure error

datatype data = Body "choice list" "usage option" | Stream "stream_event list"

text \<open>
  The request \<^verbatim>\<open>{...params, prompt: subPrompts[i]}\<close>: the invocation parameters and the
  prompts of one sub-batch.
\<close>

record request =
  params :: obj
  prompt :: "string list"

text \<open>\<^verbatim>\<open>Generation\<close> with its \<^verbatim>\<open>generationInfo\<close>, and \<^verbatim>\<open>LLMResult\<close>.  An entry of
  \<open>generations\<close> is \<open>None\<close> where the array holds \<^verbatim>\<open>null\<close>: \<^verbatim>\<open>generate\<close> starts from
  the cache lookups, which are \<^verbatim>\<open>null\<close> at a miss.  \<open>llmOutput\<close> is \<open>None\<close> for the
  empty object \<^verbatim>\<open>{}\<close> and \<open>Some u\<close> for \<^verbatim>\<open>{ tokenUsage: u }\<close>.\<close>

record generation =
  generation_text :: string
  finishReason :: "string option"
  generation_logprobs :: jsval

record llmResult =
  generations :: "generation list option list"
  llmOutput :: "tokenUsage option"

text \<open>
  \<^verbatim>\<open>LLMCallbackManager\<close>.  A hook is optional (\<^verbatim>\<open>handleStart?.(...)\<close>); called, it
  returns (\<open>None\<close>) or throws (\<open>Some e\<close>).  The per-token hook \<^verbatim>\<open>handleNewToken\<close> runs
  inside the stream's data listener, outside every promise of \<^verbatim>\<open>generate\<close>, and is
  left out.
\<close>

record callbackManager =
  handleStart :: "(string option \<Rightarrow> string list \<Rightarrow> bool \<Rightarrow> error option) option"
  handleEnd :: "(llmResult \<Rightarrow> bool \<Rightarrow> error option) option"
  handleError :: "(string \<Rightarrow> bool \<Rightarrow> error option) option"

text \<open>\<^verbatim>\<open>getCallbackManager()\<close>: three hooks that do nothing.\<close>

definition getCallbackManager :: callbackManager where
  "getCallbackManager =
     \<lparr>handleStart = Some (\<lambda>llm prompts verbose. None),
      handleEnd = Some (\<lambda>output verbose. None),
      handleError = Some (\<lambda>err verbose. None)\<rparr>"

definition getVerbosity :: bool where
  "getVerbosity = True"

text \<open>
  An \<^verbatim>\<open>OpenAI\<close> instance: the fields of \<^verbatim>\<open>BaseLLM\<close> and \<^verbatim>\<open>OpenAI\<close>.  \<open>name\<close> is never
  assigned by either constructor.  \<open>concurrency\<close> is \<open>None\<close> for \<^verbatim>\<open>Infinity\<close>.  An
  instance of the subclass \<^verbatim>\<open>PromptLayerOpenAI\<close> has \<open>plTags = Some tags\<close>.
\<close>

record openai =
  name :: "string option"
  cache :: "bool option"
  callbackManager :: callbackManager
  concurrency :: "nat option"
  verbose :: bool
  temperature :: string
  maxTokens :: int
  topP :: string
  frequencyPenalty :: string
  presencePenalty :: string
  n :: nat
  bestOf :: nat
  logitBias :: "obj option"
  modelName :: string
  modelKwargs :: obj
  batchSize :: nat
  maxRetries :: nat
  stop :: "string list option"
  streaming :: bool
  clientConfig :: obj
  plTags :: "string list option"

text \<open>The constructor's \<^verbatim>\<open>fields\<close>: every one optional.\<close>

record openAIInput =
  f_callbackManager :: "callbackManager option"
  f_verbose :: "bool option"
  f_concurrency :: "nat option"
  f_cache :: "bool option"
  f_openAIApiKey :: "string option"
  f_temperature :: "string option"
  f_maxTokens :: "int option"
  f_topP :: "string option"
  f_frequencyPenalty :: "string option"
  f_presencePenalty :: "string option"
  f_n :: "nat option"
  f_bestOf :: "nat option"
  f_logitBias :: "obj option"
  f_modelName :: "string option"
  f_modelKwargs :: "obj option"
  f_batchSize :: "nat option"
  f_maxRetries :: "nat option"
  f_stop :: "string list option"
  f_streaming :: "bool option"

text \<open>\<^verbatim>\<open>a ?? b\<close>.\<close>

fun orElse :: "'a option \<Rightarrow> 'a \<Rightarrow> 'a" where
  "orElse None d = d"
| "orElse (Some x) d = x"

text \<open>
  \<^verbatim>\<open>new OpenAI(fields, configuration)\<close>, with the environment's
  \<^verbatim>\<open>OPENAI_API_KEY\<close>.  The queue of \<^verbatim>\<open>BaseLLM\<close> is not part of the instance: see
  \<open>generateUncached\<close>; its construction, which \<^verbatim>\<open>p-queue\<close> refuses for a concurrency
  below 1, is not modelled, so \<open>concurrency\<close> is taken to be at least 1 where it is
  given.  \<open>cache\<close> is the option as \<^verbatim>\<open>generate\<close> reads it, which compares it with
  \<^verbatim>\<open>true\<close> and \<^verbatim>\<open>false\<close> only: a \<^verbatim>\<open>BaseCache\<close> object given as \<^verbatim>\<open>cache\<close> is
  neither, and the instance then behaves as one with \<open>cache\<close> undefined.
\<close>

definition newOpenAI :: "openAIInput \<Rightarrow> obj option \<Rightarrow> string option \<Rightarrow> error + openai" where
  "newOpenAI input configuration OPENAI_API_KEY =
     (let apiKey = (case f_openAIApiKey input of Some k \<Rightarrow> Some k | None \<Rightarrow> OPENAI_API_KEY) in
      if apiKey = None \<or> apiKey = Some [] then Inl (Error ''OpenAI API key not found'')
      else
        let this =
          \<lparr>name = None,
           cache = f_cache input,
           callbackManager = orElse (f_callbackManager input) getCallbackManager,
           concurrency = f_concurrency input,
           verbose = orElse (f_verbose input) getVerbosity,
           temperature = orElse (f_temperature input) ''0.7'',
           maxTokens = orElse (f_maxTokens input) 256,
           topP = orElse (f_topP input) ''1'',
           frequencyPenalty = orElse (f_frequencyPenalty input) ''0'',
           presencePenalty = orElse (f_presencePenalty input) ''0'',
           n = orElse (f_n input) 1,
           bestOf = orElse (f_bestOf input) 1,
           logitBias = f_logitBias input,
           modelName = orElse (f_modelName input) ''text-davinci-003'',
           modelKwargs = orElse (f_modelKwargs input) [],
           batchSize = orElse (f_batchSize input) 20,
           maxRetries = orElse (f_maxRetries input) 6,
           stop = f_stop input,
           streaming = orElse (f_streaming input) False,
           clientConfig =
             spread [(''apiKey'', JStr (orElse apiKey []))] (orElse configuration []),
           plTags = None\<rparr>
        in
          if streaming this \<and> n this > 1 then Inl (Error ''Cannot stream results when n > 1'')
          else if streaming this \<and> bestOf this > 1
            then Inl (Error ''Cannot stream results when bestOf > 1'')
          else Inr this)"

text \<open>
  \<^verbatim>\<open>new PromptLayerOpenAI(fields)\<close>, with the fields \<^verbatim>\<open>plTags\<close> and
  \<^verbatim>\<open>promptLayerApiKey\<close> and the environment's \<^verbatim>\<open>PROMPTLAYER_API_KEY\<close>.
\<close>

definition newPromptLayerOpenAI ::
  "openAIInput \<Rightarrow> string list option \<Rightarrow> string option \<Rightarrow> string option \<Rightarrow> string option
     \<Rightarrow> error + openai" where
  "newPromptLayerOpenAI input tags promptLayerApiKey OPENAI_API_KEY PROMPTLAYER_API_KEY =
     (case newOpenAI input None OPENAI_API_KEY of
        Inl e \<Rightarrow> Inl e
      | Inr this \<Rightarrow>
          let key = (case promptLayerApiKey of Some k \<Rightarrow> Some k | None \<Rightarrow> PROMPTLAYER_API_KEY) in
          if key = None \<or> key = Some [] then Inl (Error ''Missing PromptLayer API key'')
          else Inr (this\<lparr>plTags := Some (orElse tags [])\<rparr>))"

section \<open>Collaborators that are not in the sources\<close>

text \<open>
  Modelled from the spec: \<^verbatim>\<open>chunkArray\<close> of \<^verbatim>\<open>util/index.js\<close>, which the sources
  import and do not contain.  The spec: the list is split "into fixed-size sub-batches
  (batchSize ...) preserving order", and "group boundaries are exactly n items wide".
  The spec says nothing of a chunk size of zero; no chunk is produced then.
\<close>

function chunkArray :: "'a list \<Rightarrow> nat \<Rightarrow> 'a list list" where
  "chunkArray arr chunkSize =
     (if chunkSize = 0 \<or> arr = [] then []
      else take chunkSize arr # chunkArray (drop chunkSize arr) chunkSize)"
  by pat_completeness auto
termination
  by (relation "measure (\<lambda>(arr, chunkSize). length arr)") auto

declare chunkArray.simps [simp del]

text \<open>
  Modelled from the spec: the cache of \<^verbatim>\<open>cache.js\<close> (\<^verbatim>\<open>BaseCache\<close>,
  \<^verbatim>\<open>InMemoryCache\<close>), which the sources import and do not contain.  The spec:
  "lookup(prompt, signature) -> optional<generation-list>, update(prompt, signature,
  generation-list) -> void", and "lookup after update with the same (prompt, signature)
  must return the stored value until overwritten".  The prompt is \<open>None\<close> when the caller
  passes \<^verbatim>\<open>undefined\<close>, as \<^verbatim>\<open>generate\<close> does for a result without a prompt; a stored
  \<^verbatim>\<open>null\<close> reads back as a miss.
\<close>

type_synonym cacheStore = "string option \<times> string \<Rightarrow> generation list option"

definition InMemoryCache :: cacheStore where
  "InMemoryCache = (\<lambda>key. None)"

definition cacheLookup :: "cacheStore \<Rightarrow> string option \<Rightarrow> string \<Rightarrow> generation list option" where
  "cacheLookup c p llmKey = c (p, llmKey)"

definition cacheUpdate ::
  "cacheStore \<Rightarrow> string option \<Rightarrow> string \<Rightarrow> generation list option \<Rightarrow> cacheStore" where
  "cacheUpdate c p llmKey v = c((p, llmKey) := v)"

text \<open>
  What a call can see and change: the module-level \<^verbatim>\<open>cache\<close> of \<^verbatim>\<open>base.ts\<close> (one
  \<^verbatim>\<open>InMemoryCache\<close> for the process, never \<^verbatim>\<open>null\<close>), and the requests handed to
  \<^verbatim>\<open>client.createCompletion\<close> so far, oldest first.
\<close>

record state =
  store :: cacheStore
  sent :: "request list"

type_synonym 'a io = "state \<Rightarrow> 'a outcome \<times> state"

text \<open>
  The body that \<^verbatim>\<open>PromptLayerOpenAI\<close> posts to \<^verbatim>\<open>track-request\<close>, without its
  timestamps and API key (the clock and the environment).
\<close>

record trackRequest =
  function_name :: string
  kwargs_engine :: jsval
  kwargs_prompt :: "string list"
  tags :: "string list"
  request_response :: data

text \<open>
  The world outside the program: the provider behind \<^verbatim>\<open>client.createCompletion\<close>,
  whose answer to a request may depend on the requests it has seen, and the
  \<^verbatim>\<open>fetch\<close> of the tracking call.
\<close>

record env =
  createCompletion :: "request list \<Rightarrow> request \<Rightarrow> data outcome"
  fetch :: "trackRequest \<Rightarrow> unit outcome"

text \<open>
  Modelled from the spec: \<^verbatim>\<open>backOff\<close> of the package \<^verbatim>\<open>exponential-backoff\<close>.  The
  spec (4.4): "On failure, waits the current delay ... and retries ... until either
  success or attempts exhausted.  On exhaustion, the last error is surfaced unchanged."
  \<open>attempt req k\<close> runs the request with \<open>k\<close> further attempts allowed; the first attempt
  is always made.  The delays are not modelled.
\<close>

fun attempt :: "'a io \<Rightarrow> nat \<Rightarrow> 'a io" where
  "attempt req 0 s = req s"
| "attempt req (Suc k) s =
     (case req s of
        (Rejected e, s1) \<Rightarrow> attempt req k s1
      | (Fulfilled a, s1) \<Rightarrow> (Fulfilled a, s1)
      | (Pending, s1) \<Rightarrow> (Pending, s1))"

definition backOff :: "'a io \<Rightarrow> nat \<Rightarrow> 'a io" where
  "backOff req numOfAttempts = attempt req (numOfAttempts - 1)"

section \<open>The provider adapter: \<^verbatim>\<open>OpenAI\<close>\<close>

text \<open>
  The definitions keep the names of the source.  A name cannot start with an underscore
  here, so \<^verbatim>\<open>_identifyingParams\<close> is \<open>identifyingParams\<close>, \<^verbatim>\<open>_llmType\<close> is \<open>llmType\<close>,
  \<^verbatim>\<open>OpenAI._generate\<close> is \<open>OpenAI_generate\<close> and \<^verbatim>\<open>_generateUncached\<close> is
  \<open>generateUncached\<close>; a method that a subclass overrides carries the name of its class.
\<close>

fun stopValue :: "string list option \<Rightarrow> jsval" where
  "stopValue None = JUndefined"
| "stopValue (Some xs) = JArr (map JStr xs)"

definition invocationParams :: "openai \<Rightarrow> obj" where
  "invocationParams this =
     spread
       [(''model'', JStr (modelName this)),
        (''temperature'', JNum (temperature this)),
        (''max_tokens'', JNum (decimalInt (maxTokens this))),
        (''top_p'', JNum (topP this)),
        (''frequency_penalty'', JNum (frequencyPenalty this)),
        (''presence_penalty'', JNum (presencePenalty this)),
        (''n'', JNum (decimal (n this))),
        (''best_of'', JNum (decimal (bestOf this))),
        (''logit_bias'', (case logitBias this of None \<Rightarrow> JUndefined | Some b \<Rightarrow> JObj b)),
        (''stop'', stopValue (stop this)),
        (''stream'', JBool (streaming this))]
       (modelKwargs this)"

definition identifyingParams :: "openai \<Rightarrow> obj" where
  "identifyingParams this =
     spread (spread [(''model_name'', JStr (modelName this))] (invocationParams this))
       (clientConfig this)"

definition llmType :: "openai \<Rightarrow> string" where
  "llmType this = ''openai''"

definition serialize :: "openai \<Rightarrow> obj" where
  "serialize this = setProp (identifyingParams this) ''_type'' (JStr (llmType this))"

text \<open>
  The promise of the streaming branch: the listener appends every delta to
  \<^verbatim>\<open>choice\<close>; the sentinel resolves the promise, the stream's error rejects it, and a
  stream that ends with neither leaves it pending.  The sentinel is taken to be the last
  event that reaches the listener: the promise resolves with the \<^verbatim>\<open>choice\<close> object
  itself, to which the listener would still append a delta that arrives after the
  sentinel, and such a stream is not modelled.
\<close>

definition emptyChoice :: choice where
  "emptyChoice =
     \<lparr>choice_text = None, choice_index = None, choice_logprobs = JUndefined,
      finish_reason = None\<rparr>"

fun readStream :: "stream_event list \<Rightarrow> choice \<Rightarrow> choice outcome" where
  "readStream [] choice = Pending"
| "readStream (Sentinel # events) choice = Fulfilled choice"
| "readStream (Failure e # events) choice = Rejected e"
| "readStream (Delta None # events) choice = readStream events choice"
| "readStream (Delta (Some part) # events) choice =
     readStream events
       (choice\<lparr>choice_text := Some (orElse (choice_text choice) [] @ orElse (choice_text part) []),
               finish_reason := finish_reason part,
               choice_logprobs := choice_logprobs part\<rparr>)"

text \<open>
  \<^verbatim>\<open>OpenAI.completionWithRetry\<close>: one \<^verbatim>\<open>createCompletion\<close> per attempt, at most
  \<^verbatim>\<open>maxRetries\<close> attempts.  The lazily created client and its dynamic import are not
  modelled.
\<close>

definition makeCompletionRequest :: "env \<Rightarrow> request \<Rightarrow> data io" where
  "makeCompletionRequest E request s =
     (createCompletion E (sent s) request, s\<lparr>sent := sent s @ [request]\<rparr>)"

definition OpenAI_completionWithRetry :: "openai \<Rightarrow> env \<Rightarrow> request \<Rightarrow> data io" where
  "OpenAI_completionWithRetry this E request =
     backOff (makeCompletionRequest E request) (maxRetries this)"

text \<open>
  \<^verbatim>\<open>PromptLayerOpenAI.completionWithRetry\<close> overrides it: a streamed request goes
  straight to the superclass; any other is followed by the awaited tracking call.
\<close>

definition PromptLayerOpenAI_completionWithRetry ::
  "openai \<Rightarrow> string list \<Rightarrow> env \<Rightarrow> request \<Rightarrow> data io" where
  "PromptLayerOpenAI_completionWithRetry this tgs E request s =
     (if truthy (getProp (params request) ''stream'') then OpenAI_completionWithRetry this E request s
      else
        (case OpenAI_completionWithRetry this E request s of
           (Rejected e, s1) \<Rightarrow> (Rejected e, s1)
         | (Pending, s1) \<Rightarrow> (Pending, s1)
         | (Fulfilled response, s1) \<Rightarrow>
             (case fetch E
                 \<lparr>function_name = ''openai.Completion.create'',
                  kwargs_engine = getProp (params request) ''model'',
                  kwargs_prompt = prompt request,
                  tags = tgs,
                  request_response = response\<rparr> of
                Rejected e \<Rightarrow> (Rejected e, s1)
              | Pending \<Rightarrow> (Pending, s1)
              | Fulfilled u \<Rightarrow> (Fulfilled response, s1))))"

text \<open>\<^verbatim>\<open>this.completionWithRetry\<close>, dispatched on the class of the instance.\<close>

definition completionWithRetry :: "openai \<Rightarrow> env \<Rightarrow> request \<Rightarrow> data io" where
  "completionWithRetry this E request =
     (case plTags this of
        None \<Rightarrow> OpenAI_completionWithRetry this E request
      | Some tgs \<Rightarrow> PromptLayerOpenAI_completionWithRetry this tgs E request)"

text \<open>
  The body of the loop of \<^verbatim>\<open>_generate\<close> after the response has arrived: the choices it
  pushes, and the usage it adds.  A body where a stream is expected has no \<^verbatim>\<open>on\<close>, and
  a stream where a body is expected has no \<^verbatim>\<open>choices\<close> to spread: both throw a
  \<^verbatim>\<open>TypeError\<close>.
\<close>

definition newChoices :: "obj \<Rightarrow> data \<Rightarrow> choice list outcome" where
  "newChoices ps d =
     (if truthy (getProp ps ''stream'') then
        (case d of
           Stream events \<Rightarrow>
             (case readStream events emptyChoice of
                Fulfilled choice \<Rightarrow> Fulfilled [choice]
              | Rejected e \<Rightarrow> Rejected e
              | Pending \<Rightarrow> Pending)
         | Body cs u \<Rightarrow> Rejected (TypeError ''stream.on is not a function''))
      else
        (case d of
           Body cs u \<Rightarrow> Fulfilled cs
         | Stream events \<Rightarrow> Rejected (TypeError ''data.choices is not iterable'')))"

definition usageOf :: "data \<Rightarrow> usage option" where
  "usageOf d = (case d of Body cs u \<Rightarrow> u | Stream events \<Rightarrow> None)"

text \<open>\<^verbatim>\<open>if (k) { acc = (acc ?? 0) + k }\<close>: an absent or zero count adds nothing.\<close>

definition addTokens :: "nat option \<Rightarrow> nat option \<Rightarrow> nat option" where
  "addTokens acc reported =
     (case reported of
        None \<Rightarrow> acc
      | Some k \<Rightarrow> if k = 0 then acc else Some (orElse acc 0 + k))"

definition addUsage :: "tokenUsage \<Rightarrow> usage option \<Rightarrow> tokenUsage" where
  "addUsage t u =
     \<lparr>completionTokens = addTokens (completionTokens t) (Option.bind u completion_tokens),
      promptTokens = addTokens (promptTokens t) (Option.bind u prompt_tokens),
      totalTokens = addTokens (totalTokens t) (Option.bind u total_tokens)\<rparr>"

definition emptyUsage :: tokenUsage where
  "emptyUsage = \<lparr>completionTokens = None, promptTokens = None, totalTokens = None\<rparr>"

text \<open>The loop of \<^verbatim>\<open>_generate\<close> over the sub-batches, one after the other.\<close>

fun subBatches ::
  "openai \<Rightarrow> env \<Rightarrow> obj \<Rightarrow> string list list \<Rightarrow> choice list \<Rightarrow> tokenUsage
     \<Rightarrow> (choice list \<times> tokenUsage) io" where
  "subBatches this E ps [] choices tokens s = (Fulfilled (choices, tokens), s)"
| "subBatches this E ps (sub # rest) choices tokens s =
     (case completionWithRetry this E \<lparr>params = ps, prompt = sub\<rparr> s of
        (Rejected e, s1) \<Rightarrow> (Rejected e, s1)
      | (Pending, s1) \<Rightarrow> (Pending, s1)
      | (Fulfilled d, s1) \<Rightarrow>
          (case newChoices ps d of
             Rejected e \<Rightarrow> (Rejected e, s1)
           | Pending \<Rightarrow> (Pending, s1)
           | Fulfilled cs \<Rightarrow>
               subBatches this E ps rest (choices @ cs) (addUsage tokens (usageOf d)) s1))"

definition toGeneration :: "choice \<Rightarrow> generation" where
  "toGeneration c =
     \<lparr>generation_text = orElse (choice_text c) [],
      finishReason = finish_reason c,
      generation_logprobs = choice_logprobs c\<rparr>"

text \<open>
  The parameters of the requests of one call of \<^verbatim>\<open>_generate\<close>:
  \<^verbatim>\<open>params = this.invocationParams(); params.stop = stop ?? params.stop\<close>.
\<close>

definition effectiveParams :: "openai \<Rightarrow> string list option \<Rightarrow> obj" where
  "effectiveParams this stopArg =
     (let ps = invocationParams this in
      setProp ps ''stop''
        (case stopArg of Some xs \<Rightarrow> stopValue (Some xs) | None \<Rightarrow> getProp ps ''stop''))"

text \<open>\<^verbatim>\<open>OpenAI._generate\<close>.\<close>

definition OpenAI_generate :: "openai \<Rightarrow> env \<Rightarrow> string list \<Rightarrow> string list option \<Rightarrow> llmResult io" where
  "OpenAI_generate this E prompts stopArg s =
     (let subPrompts = chunkArray prompts (batchSize this) in
      if stop this \<noteq> None \<and> stopArg \<noteq> None
        then (Rejected (Error ''Stop found in input and default params''), s)
      else
        (case subBatches this E (effectiveParams this stopArg) subPrompts [] emptyUsage s of
           (Rejected e, s1) \<Rightarrow> (Rejected e, s1)
         | (Pending, s1) \<Rightarrow> (Pending, s1)
         | (Fulfilled (choices, tokens), s1) \<Rightarrow>
             (Fulfilled
                \<lparr>generations =
                   map (\<lambda>promptChoices. Some (map toGeneration promptChoices))
                     (chunkArray choices (n this)),
                 llmOutput = Some tokens\<rparr>,
              s1)))"

section \<open>The invocation facade: \<^verbatim>\<open>BaseLLM\<close>\<close>

text \<open>\<^verbatim>\<open>hook?.(...)\<close>: an absent hook is skipped.\<close>

fun callHook :: "('h \<Rightarrow> error option) \<Rightarrow> 'h option \<Rightarrow> error option" where
  "callHook run None = None"
| "callHook run (Some h) = run h"

text \<open>
  \<^verbatim>\<open>BaseLLM._generateUncached\<close>.  The queue is \<^verbatim>\<open>p-queue\<close>; a call that runs alone
  finds a free slot, and the queue then runs the task at once and settles as the task
  does (no timeout is configured).  The interleaving of several calls is not modelled.
\<close>

definition generateUncached :: "openai \<Rightarrow> env \<Rightarrow> string list \<Rightarrow> string list option \<Rightarrow> llmResult io" where
  "generateUncached this E prompts stopArg s =
     (case callHook (\<lambda>h. h (name this) prompts (verbose this)) (handleStart (callbackManager this)) of
        Some thrown \<Rightarrow> (Rejected thrown, s)
      | None \<Rightarrow>
          (case OpenAI_generate this E prompts stopArg s of
             (Rejected err, s1) \<Rightarrow>
               (case callHook (\<lambda>h. h (errorString err) (verbose this))
                       (handleError (callbackManager this)) of
                  Some thrown \<Rightarrow> (Rejected thrown, s1)
                | None \<Rightarrow> (Rejected err, s1))
           | (Pending, s1) \<Rightarrow> (Pending, s1)
           | (Fulfilled output, s1) \<Rightarrow>
               (case callHook (\<lambda>h. h output (verbose this)) (handleEnd (callbackManager this)) of
                  Some thrown \<Rightarrow> (Rejected thrown, s1)
                | None \<Rightarrow> (Fulfilled output, s1))))"

text \<open>
  The cache key of \<^verbatim>\<open>generate\<close>: \<^verbatim>\<open>params = this.serialize(); params.stop = stop;\<close>
  then the sorted entries as one string.
\<close>

definition llmStringKey :: "openai \<Rightarrow> string list option \<Rightarrow> string" where
  "llmStringKey this stopArg =
     entriesSortedString (setProp (serialize this) ''stop'' (stopValue stopArg))"

text \<open>\<^verbatim>\<open>xs[i]\<close>, which is \<^verbatim>\<open>undefined\<close> out of range.\<close>

definition nth_opt :: "'a list \<Rightarrow> nat \<Rightarrow> 'a option" where
  "nth_opt xs i = (if i < length xs then Some (xs ! i) else None)"

text \<open>
  The callback that \<^verbatim>\<open>generate\<close> maps over \<^verbatim>\<open>results.generations\<close>, entry by entry.
  Where \<^verbatim>\<open>missingPromptIndices[index]\<close> is \<^verbatim>\<open>undefined\<close> (more results than missing
  prompts) the assignment \<^verbatim>\<open>generations[undefined] = generation\<close> changes no element of
  the array, and the cache is updated for the prompt \<^verbatim>\<open>prompts[undefined]\<close>, which is
  \<^verbatim>\<open>undefined\<close>.
\<close>

fun cacheFill ::
  "string list \<Rightarrow> nat list \<Rightarrow> string \<Rightarrow> generation list option list \<Rightarrow> nat
     \<Rightarrow> generation list option list \<times> cacheStore \<Rightarrow> generation list option list \<times> cacheStore" where
  "cacheFill prompts missing llmKey [] index (gens, c) = (gens, c)"
| "cacheFill prompts missing llmKey (generation # rest) index (gens, c) =
     (case nth_opt missing index of
        Some promptIndex \<Rightarrow>
          cacheFill prompts missing llmKey rest (Suc index)
            (gens[promptIndex := generation],
             cacheUpdate c (nth_opt prompts promptIndex) llmKey generation)
      | None \<Rightarrow>
          cacheFill prompts missing llmKey rest (Suc index)
            (gens, cacheUpdate c None llmKey generation))"

text \<open>
  \<^verbatim>\<open>BaseLLM.generate\<close>.  \<^verbatim>\<open>prompts\<close> is a list by its type, and the module-level cache
  is never \<^verbatim>\<open>null\<close>, so of the three guards only \<^verbatim>\<open>this.cache === false\<close> can hold.
  The lookups of the in-memory cache settle in the order of the prompts, so
  \<^verbatim>\<open>missingPromptIndices\<close> is ascending.
\<close>

definition generate :: "openai \<Rightarrow> env \<Rightarrow> string list \<Rightarrow> string list option \<Rightarrow> llmResult io" where
  "generate this E prompts stopArg s =
     (if cache this = Some False then generateUncached this E prompts stopArg s
      else
        let llmKey = llmStringKey this stopArg;
            found = map (\<lambda>prompt. cacheLookup (store s) (Some prompt) llmKey) prompts;
            missingPromptIndices = filter (\<lambda>index. found ! index = None) [0..<length prompts]
        in
          if missingPromptIndices = []
            then (Fulfilled \<lparr>generations = found, llmOutput = None\<rparr>, s)
          else
            (case generateUncached this E (map (\<lambda>i. prompts ! i) missingPromptIndices) stopArg s of
               (Rejected e, s1) \<Rightarrow> (Rejected e, s1)
             | (Pending, s1) \<Rightarrow> (Pending, s1)
             | (Fulfilled results, s1) \<Rightarrow>
                 (case cacheFill prompts missingPromptIndices llmKey (generations results) 0
                         (found, store s1) of
                    (filled, c) \<Rightarrow>
                      (Fulfilled \<lparr>generations = filled, llmOutput = llmOutput results\<rparr>,
                       s1\<lparr>store := c\<rparr>))))"

text \<open>\<^verbatim>\<open>BaseLLM.call\<close>: \<^verbatim>\<open>generations[0][0].text\<close>, a \<^verbatim>\<open>TypeError\<close> when there is none.\<close>

definition call :: "openai \<Rightarrow> env \<Rightarrow> string \<Rightarrow> string list option \<Rightarrow> string io" where
  "call this E p stopArg s =
     (case generate this E [p] stopArg s of
        (Rejected e, s1) \<Rightarrow> (Rejected e, s1)
      | (Pending, s1) \<Rightarrow> (Pending, s1)
      | (Fulfilled result, s1) \<Rightarrow>
          (case generations result of
             Some (g # gs) # rest \<Rightarrow> (Fulfilled (generation_text g), s1)
           | _ \<Rightarrow> (Rejected (TypeError ''Cannot read properties of undefined''), s1)))"

section \<open>Notions, instances and providers for the theorems and their examples\<close>

text \<open>\<^verbatim>\<open>new OpenAI({ openAIApiKey: "sk" })\<close>: no field but the key, and the instance
  the constructor builds from it.\<close>

definition noFields :: openAIInput where
  "noFields =
     \<lparr>f_callbackManager = None, f_verbose = None, f_concurrency = None, f_cache = None,
      f_openAIApiKey = None, f_temperature = None, f_maxTokens = None, f_topP = None,
      f_frequencyPenalty = None, f_presencePenalty = None, f_n = None, f_bestOf = None,
      f_logitBias = None, f_modelName = None, f_modelKwargs = None, f_batchSize = None,
      f_maxRetries = None, f_stop = None, f_streaming = None\<rparr>"

definition defaultOpenAI :: openai where
  "defaultOpenAI =
     \<lparr>name = None, cache = None, callbackManager = getCallbackManager, concurrency = None,
      verbose = True, temperature = ''0.7'', maxTokens = 256, topP = ''1'',
      frequencyPenalty = ''0'', presencePenalty = ''0'', n = 1, bestOf = 1, logitBias = None,
      modelName = ''text-davinci-003'', modelKwargs = [], batchSize = 20, maxRetries = 6,
      stop = None, streaming = False, clientConfig = [(''apiKey'', JStr ''sk'')],
      plTags = None\<rparr>"

text \<open>The state of a fresh process: an empty cache, nothing sent.\<close>

definition initial :: state where
  "initial = \<lparr>store = InMemoryCache, sent = []\<rparr>"

text \<open>A provider that answers every prompt with one choice, the prompt itself, and
  reports no usage; and one that rejects every request.\<close>

definition echoChoice :: "string \<Rightarrow> choice" where
  "echoChoice p =
     \<lparr>choice_text = Some p, choice_index = None, choice_logprobs = JNull,
      finish_reason = Some ''stop''\<rparr>"

definition echo :: env where
  "echo =
     \<lparr>createCompletion = (\<lambda>h r. Fulfilled (Body (concat (map (\<lambda>p. [echoChoice p]) (prompt r))) None)),
      fetch = (\<lambda>t. Fulfilled ())\<rparr>"

definition down :: env where
  "down =
     \<lparr>createCompletion = (\<lambda>h r. Rejected (Error (''503 after '' @ decimal (length h)))),
      fetch = (\<lambda>t. Fulfilled ())\<rparr>"

text \<open>The texts of a result, prompt by prompt.\<close>

definition textsOf :: "llmResult \<Rightarrow> string list option list" where
  "textsOf r = map (map_option (map generation_text)) (generations r)"

text \<open>A streamed delta with the text \<open>f\<close>.\<close>

definition fragment :: "string \<Rightarrow> choice" where
  "fragment f =
     \<lparr>choice_text = Some f, choice_index = Some 0, choice_logprobs = JNull,
      finish_reason = None\<rparr>"

text \<open>A provider that streams \<^verbatim>\<open>Hel\<close>, \<^verbatim>\<open>lo\<close> and the sentinel, and answers a plain
  request with \<^verbatim>\<open>Hello\<close>.\<close>

definition hello :: env where
  "hello =
     \<lparr>createCompletion =
        (\<lambda>h r. if truthy (getProp (params r) ''stream'')
               then Fulfilled (Stream [Delta (Some (fragment ''Hel'')), Delta (Some (fragment ''lo'')), Sentinel])
               else Fulfilled (Body [echoChoice ''Hello''] None)),
      fetch = (\<lambda>t. Fulfilled ())\<rparr>"

text \<open>An object with the value of one property blanked: what is left of it once that
  property is assigned.\<close>

definition blank :: "string \<Rightarrow> obj \<Rightarrow> obj" where
  "blank k ob = map (\<lambda>e. if fst e = k then (k, JUndefined) else e) ob"

text \<open>A computation that neither reads nor writes the cache.\<close>

definition storeBlind :: "'a io \<Rightarrow> bool" where
  "storeBlind f = (\<forall>s c. f (s\<lparr>store := c\<rparr>) = (fst (f s), (snd (f s))\<lparr>store := c\<rparr>))"

text \<open>Callback managers with one hook that throws, and a tracking call that is rejected.\<close>

definition failingStart :: callbackManager where
  "failingStart =
     getCallbackManager\<lparr>handleStart := Some (\<lambda>llm prompts verbose. Some (Error ''start hook''))\<rparr>"

definition failingEnd :: callbackManager where
  "failingEnd =
     getCallbackManager\<lparr>handleEnd := Some (\<lambda>output verbose. Some (Error ''end hook''))\<rparr>"

definition failingError :: callbackManager where
  "failingError =
     getCallbackManager\<lparr>handleError := Some (\<lambda>err verbose. Some (Error ''error hook''))\<rparr>"

definition untracked :: env where
  "untracked = echo\<lparr>fetch := (\<lambda>t. Rejected (Error ''track-request''))\<rparr>"

definition silent :: callbackManager where
  "silent = \<lparr>handleStart = None, handleEnd = None, handleError = None\<rparr>"

text \<open>No hook of the callback manager throws, whatever it is called with.\<close>

definition quiet :: "callbackManager \<Rightarrow> bool" where
  "quiet cm =
     ((case handleStart cm of None \<Rightarrow> True | Some h \<Rightarrow> (\<forall>llm ps v. h llm ps v = None))
      \<and> (case handleEnd cm of None \<Rightarrow> True | Some h \<Rightarrow> (\<forall>out v. h out v = None))
      \<and> (case handleError cm of None \<Rightarrow> True | Some h \<Rightarrow> (\<forall>err v. h err v = None)))"

text \<open>A provider that streams one delta per prompt of the request, each with the index
  of its prompt and the prompt itself as text, and then the sentinel.\<close>

definition streamingEcho :: env where
  "streamingEcho =
     \<lparr>createCompletion =
        (\<lambda>h r. Fulfilled
                 (Stream
                    (map (\<lambda>i. Delta (Some \<lparr>choice_text = Some (prompt r ! i), choice_index = Some i,
                                           choice_logprobs = JNull, finish_reason = Some ''stop''\<rparr>))
                       [0..<length (prompt r)]
                     @ [Sentinel]))),
      fetch = (\<lambda>t. Fulfilled ())\<rparr>"

text \<open>The prompts of a call that the cache does not hold, in the order of the call.\<close>

definition missed :: "openai \<Rightarrow> string list \<Rightarrow> string list option \<Rightarrow> state \<Rightarrow> string list" where
  "missed this prompts stopArg s =
     filter (\<lambda>p. cacheLookup (store s) (Some p) (llmStringKey this stopArg) = None) prompts"

text \<open>The prompts that \<open>generate\<close> hands to \<open>_generateUncached\<close>: all of them with
  caching off, otherwise those that the cache does not hold.\<close>

definition dispatched :: "openai \<Rightarrow> string list \<Rightarrow> string list option \<Rightarrow> state \<Rightarrow> string list" where
  "dispatched this prompts stopArg s =
     (if cache this = Some False then prompts else missed this prompts stopArg s)"

section \<open>Batching: properties of \<open>chunkArray\<close>\<close>

lemma chunkArray_Nil [simp]: "chunkArray [] k = []"
  by (simp add: chunkArray.simps)

lemma chunkArray_zero [simp]: "chunkArray xs 0 = []"
  by (simp add: chunkArray.simps)

lemma chunkArray_step:
  "0 < k \<Longrightarrow> xs \<noteq> [] \<Longrightarrow> chunkArray xs k = take k xs # chunkArray (drop k xs) k"
  by (subst chunkArray.simps) simp

lemma concat_chunkArray: "0 < k \<Longrightarrow> concat (chunkArray xs k) = xs"
proof (induction xs k rule: chunkArray.induct)
  case (1 arr chunkSize)
  show ?case
  proof (cases "arr = []")
    case True
    then show ?thesis by simp
  next
    case False
    with 1 show ?thesis by (simp add: chunkArray_step)
  qed
qed

lemma ceil_div_step:
  fixes m k :: nat
  assumes "0 < k" "0 < m"
  shows "(m + k - 1) div k = Suc ((m - k + k - 1) div k)"
proof (cases "m \<le> k")
  case True
  with assms have "k * 1 \<le> m + k - 1" "m + k - 1 < k * Suc 1" by simp_all
  then have "(m + k - 1) div k = 1" by (rule div_nat_eqI)
  moreover from True assms have "(m - k + k - 1) div k = 0" by simp
  ultimately show ?thesis by simp
next
  case False
  then have "m + k - 1 = (m - k + k - 1) + k" by simp
  then have "(m + k - 1) div k = (m - k + k - 1) div k + 1"
    using assms(1) by (metis div_add_self2 less_numeral_extra(3))
  then show ?thesis by simp
qed

lemma length_chunkArray: "0 < k \<Longrightarrow> length (chunkArray xs k) = (length xs + k - 1) div k"
proof (induction xs k rule: chunkArray.induct)
  case (1 arr chunkSize)
  show ?case
  proof (cases "arr = []")
    case True
    with 1(2) show ?thesis by simp
  next
    case False
    have "length (chunkArray (drop chunkSize arr) chunkSize)
                = (length arr - chunkSize + chunkSize - 1) div chunkSize"
      using 1 False by simp
    moreover have "(length arr + chunkSize - 1) div chunkSize
        = Suc ((length arr - chunkSize + chunkSize - 1) div chunkSize)"
      using False 1(2) by (intro ceil_div_step) simp_all
    ultimately show ?thesis
      using False 1(2) by (simp add: chunkArray_step)
  qed
qed

lemma nth_chunkArray:
  "0 < k \<Longrightarrow> i < length (chunkArray xs k) \<Longrightarrow> chunkArray xs k ! i = take k (drop (i * k) xs)"
proof (induction xs k arbitrary: i rule: chunkArray.induct)
  case (1 arr chunkSize)
  show ?case
  proof (cases "arr = []")
    case True
    with 1(3) show ?thesis by simp
  next
    case False
    show ?thesis
    proof (cases i)
      case 0
      with False 1(2) show ?thesis by (simp add: chunkArray_step)
    next
      case (Suc j)
      with False 1 show ?thesis by (simp add: chunkArray_step add.commute)
    qed
  qed
qed

lemma chunkArray_concat_uniform:
  "0 < k \<Longrightarrow> \<forall>x \<in> set xss. length x = k \<Longrightarrow> chunkArray (concat xss) k = xss"
proof (induction xss)
  case Nil
  then show ?case by simp
next
  case (Cons x xss)
  then have "x \<noteq> []" by auto
  with Cons show ?case by (simp add: chunkArray_step)
qed

section \<open>Construction\<close>

lemma newOpenAI_default:
  "newOpenAI (noFields\<lparr>f_openAIApiKey := Some ''sk''\<rparr>) None None = Inr defaultOpenAI"
  by (simp add: newOpenAI_def noFields_def defaultOpenAI_def getVerbosity_def spread_def)

section \<open>The retry executor\<close>

lemma attempt_Fulfilled:
  "req s = (Fulfilled a, s1) \<Longrightarrow> attempt req k s = (Fulfilled a, s1)"
  by (cases k) simp_all

lemma attempt_all_rejected:
  assumes "\<forall>h. createCompletion E h request = Rejected (failure h)"
  shows "attempt (makeCompletionRequest E request) k s =
           (Rejected (failure (sent s @ replicate k request)),
            s\<lparr>sent := sent s @ replicate (Suc k) request\<rparr>)"
proof (induction k arbitrary: s)
  case 0
  show ?case using assms by (simp add: makeCompletionRequest_def)
next
  case (Suc k)
  have "makeCompletionRequest E request s =
          (Rejected (failure (sent s)), s\<lparr>sent := sent s @ [request]\<rparr>)"
    using assms by (simp add: makeCompletionRequest_def)
  then show ?case
    by (simp add: Suc.IH replicate_app_Cons_same)
qed

lemma completionWithRetry_rejected:
  assumes "OpenAI_completionWithRetry this E request s = (Rejected e, s1)"
  shows "completionWithRetry this E request s = (Rejected e, s1)"
  using assms
  by (simp add: completionWithRetry_def PromptLayerOpenAI_completionWithRetry_def
      split: option.splits)

text \<open>
  C6.  A request that the provider rejects on every attempt is handed to
  \<open>createCompletion\<close> exactly \<open>maxRetries\<close> times (6 for an instance built without
  \<open>maxRetries\<close>), and \<open>completionWithRetry\<close>, of either class, is rejected with the error
  of the last attempt itself.  (The executor is the model of \<open>backOff\<close> written from the
  spec.)
\<close>

theorem retry_bound:
  assumes "0 < maxRetries this"
    and "\<forall>h. createCompletion E h request = Rejected (failure h)"
  shows "completionWithRetry this E request s =
           (Rejected (failure (sent s @ replicate (maxRetries this - 1) request)),
            s\<lparr>sent := sent s @ replicate (maxRetries this) request\<rparr>)
         \<and> (\<forall>input configuration key.
               newOpenAI input configuration key = Inr this \<and> f_maxRetries input = None
                 \<longrightarrow> maxRetries this = 6)"
proof -
  obtain k where k: "maxRetries this = Suc k"
    using assms(1) by (cases "maxRetries this") simp_all
  have "OpenAI_completionWithRetry this E request s =
           (Rejected (failure (sent s @ replicate k request)),
            s\<lparr>sent := sent s @ replicate (Suc k) request\<rparr>)"
    unfolding OpenAI_completionWithRetry_def backOff_def k
    using attempt_all_rejected [OF assms(2)] by simp
  then have "completionWithRetry this E request s =
           (Rejected (failure (sent s @ replicate k request)),
            s\<lparr>sent := sent s @ replicate (Suc k) request\<rparr>)"
    by (rule completionWithRetry_rejected)
  moreover have "\<forall>input configuration key.
               newOpenAI input configuration key = Inr this \<and> f_maxRetries input = None
                 \<longrightarrow> maxRetries this = 6"
    by (auto simp: newOpenAI_def Let_def split: if_splits)
  ultimately show ?thesis by (simp add: k)
qed

theorem retry_bound_witness:
  "completionWithRetry defaultOpenAI down \<lparr>params = [], prompt = [''p'']\<rparr> initial =
     (Rejected (Error ''503 after 5''),
      initial\<lparr>sent := replicate 6 \<lparr>params = [], prompt = [''p'']\<rparr>\<rparr>)
   \<and> maxRetries defaultOpenAI = 6"
proof -
  have a: "0 < maxRetries defaultOpenAI" by (simp add: defaultOpenAI_def)
  have b: "\<forall>h. createCompletion down h \<lparr>params = [], prompt = [''p'']\<rparr>
              = Rejected (Error (''503 after '' @ decimal (length h)))"
    by (simp add: down_def)
  have c: "decimal 5 = ''5''" by (simp add: decimal.simps digit_def)
  have d: "maxRetries defaultOpenAI = 6" by (simp add: defaultOpenAI_def)
  have e: "sent initial = []" by (simp add: initial_def)
  show ?thesis
    using retry_bound [OF a b, of initial] unfolding d e by (simp add: c)
qed

section \<open>Parameter objects\<close>

lemma getProp_setProp: "getProp (setProp ob k v) k' = (if k' = k then v else getProp ob k')"
  by (induction ob) auto

lemma getProp_spread_other:
  "k \<notin> fst ` set b \<Longrightarrow> getProp (spread a b) k = getProp a k"
  unfolding spread_def
  by (induction b arbitrary: a) (auto simp: getProp_setProp)

lemma stream_of_invocationParams:
  "''stream'' \<notin> fst ` set (modelKwargs this)
     \<Longrightarrow> getProp (invocationParams this) ''stream'' = JBool (streaming this)"
  by (simp add: invocationParams_def getProp_spread_other)

lemma stream_of_effectiveParams:
  "''stream'' \<notin> fst ` set (modelKwargs this)
     \<Longrightarrow> getProp (effectiveParams this stopArg) ''stream'' = JBool (streaming this)"
  by (simp add: effectiveParams_def Let_def getProp_setProp stream_of_invocationParams)

section \<open>A provider that answers at the first attempt\<close>

lemma completionWithRetry_answered:
  assumes "createCompletion E (sent s) request = Fulfilled d"
    and "plTags this = None \<or> truthy (getProp (params request) ''stream'')
           \<or> (\<forall>t. fetch E t = Fulfilled ())"
  shows "completionWithRetry this E request s = (Fulfilled d, s\<lparr>sent := sent s @ [request]\<rparr>)"
proof -
  have "makeCompletionRequest E request s = (Fulfilled d, s\<lparr>sent := sent s @ [request]\<rparr>)"
    using assms(1) by (simp add: makeCompletionRequest_def)
  then have super: "OpenAI_completionWithRetry this E request s
                      = (Fulfilled d, s\<lparr>sent := sent s @ [request]\<rparr>)"
    by (simp add: OpenAI_completionWithRetry_def backOff_def attempt_Fulfilled)
  show ?thesis
  proof (cases "plTags this")
    case None
    with super show ?thesis by (simp add: completionWithRetry_def)
  next
    case (Some tgs)
    with assms(2) super show ?thesis
      by (auto simp: completionWithRetry_def PromptLayerOpenAI_completionWithRetry_def)
  qed
qed

lemma subBatches_answered:
  assumes "\<forall>h sub. createCompletion E h \<lparr>params = ps, prompt = sub\<rparr>
              = Fulfilled (Body (concat (map reply sub)) (reported sub))"
    and "\<not> truthy (getProp ps ''stream'')"
    and "plTags this = None \<or> (\<forall>t. fetch E t = Fulfilled ())"
  shows "subBatches this E ps subs choices tokens s =
           (Fulfilled (choices @ concat (map reply (concat subs)),
                       foldl addUsage tokens (map reported subs)),
            s\<lparr>sent := sent s @ map (\<lambda>sub. \<lparr>params = ps, prompt = sub\<rparr>) subs\<rparr>)"
proof (induction subs arbitrary: choices tokens s)
  case Nil
  show ?case by simp
next
  case (Cons sub rest)
  have "completionWithRetry this E \<lparr>params = ps, prompt = sub\<rparr> s
          = (Fulfilled (Body (concat (map reply sub)) (reported sub)),
             s\<lparr>sent := sent s @ [\<lparr>params = ps, prompt = sub\<rparr>]\<rparr>)"
    using assms by (intro completionWithRetry_answered) auto
  then show ?case
    using assms(2) by (simp add: Cons.IH newChoices_def usageOf_def)
qed

lemma length_nth_chunkArray:
  "0 < k \<Longrightarrow> Suc i < length (chunkArray xs k) \<Longrightarrow> length (chunkArray xs k ! i) = k"
proof (induction xs k arbitrary: i rule: chunkArray.induct)
  case (1 arr chunkSize)
  from 1(3) have ne: "arr \<noteq> []" by auto
  then have step: "chunkArray arr chunkSize = take chunkSize arr # chunkArray (drop chunkSize arr) chunkSize"
    using 1(2) by (simp add: chunkArray_step)
  show ?case
  proof (cases i)
    case 0
    with 1(3) step have "chunkArray (drop chunkSize arr) chunkSize \<noteq> []" by auto
    then have "drop chunkSize arr \<noteq> []" by auto
    with 0 step show ?thesis by simp
  next
    case (Suc j)
    with 1 ne step show ?thesis by simp
  qed
qed

lemma chunkArray_sizes:
  "0 < k \<Longrightarrow> \<forall>c \<in> set (chunkArray xs k). 0 < length c \<and> length c \<le> k"
proof (induction xs k rule: chunkArray.induct)
  case (1 arr chunkSize)
  show ?case
  proof (cases "arr = []")
    case True
    then show ?thesis by simp
  next
    case False
    have step: "chunkArray arr chunkSize
                  = take chunkSize arr # chunkArray (drop chunkSize arr) chunkSize"
      using 1(2) False by (rule chunkArray_step)
    have ih: "\<forall>c \<in> set (chunkArray (drop chunkSize arr) chunkSize).
                0 < length c \<and> length c \<le> chunkSize"
      using 1 False by simp
    have "0 < length (take chunkSize arr) \<and> length (take chunkSize arr) \<le> chunkSize"
      using False 1(2) by simp
    with ih show ?thesis unfolding step by simp
  qed
qed

lemma OpenAI_generate_answered:
  assumes "0 < batchSize this" and "0 < n this"
    and "stop this = None \<or> stopArg = None"
    and "\<not> truthy (getProp (effectiveParams this stopArg) ''stream'')"
    and "plTags this = None \<or> (\<forall>t. fetch E t = Fulfilled ())"
    and "\<forall>h sub. createCompletion E h \<lparr>params = effectiveParams this stopArg, prompt = sub\<rparr>
              = Fulfilled (Body (concat (map reply sub)) (reported sub))"
    and "\<forall>p. length (reply p) = n this"
  shows "OpenAI_generate this E prompts stopArg s =
           (Fulfilled
              \<lparr>generations = map (\<lambda>p. Some (map toGeneration (reply p))) prompts,
               llmOutput = Some (foldl addUsage emptyUsage
                                  (map reported (chunkArray prompts (batchSize this))))\<rparr>,
            s\<lparr>sent := sent s @ map (\<lambda>sub. \<lparr>params = effectiveParams this stopArg, prompt = sub\<rparr>)
                                  (chunkArray prompts (batchSize this))\<rparr>)"
proof -
  let ?subs = "chunkArray prompts (batchSize this)"
  have loop: "subBatches this E (effectiveParams this stopArg) ?subs [] emptyUsage s =
           (Fulfilled (concat (map reply prompts), foldl addUsage emptyUsage (map reported ?subs)),
            s\<lparr>sent := sent s @ map (\<lambda>sub. \<lparr>params = effectiveParams this stopArg, prompt = sub\<rparr>) ?subs\<rparr>)"
    using subBatches_answered [OF assms(6) assms(4) assms(5), of ?subs "[]" emptyUsage s]
    by (simp add: concat_chunkArray [OF assms(1)])
  have regroup: "chunkArray (concat (map reply prompts)) (n this) = map reply prompts"
    using assms(2) assms(7) by (intro chunkArray_concat_uniform) auto
  show ?thesis
    using assms(3) by (auto simp: OpenAI_generate_def Let_def loop regroup comp_def)
qed

text \<open>
  Batching on the plain path.  \<open>_generate\<close> splits the prompts into
  \<open>\<lceil>length prompts / batchSize\<rceil>\<close> sub-batches that concatenate to the prompt list, each
  of \<open>batchSize\<close> prompts except a last one that may be smaller (and is not empty); it
  hands one request per sub-batch to the provider, in order; and when the request is not
  streamed and the provider answers every prompt with \<open>n\<close> choices, the flat list of
  choices is regrouped into one list of \<open>n\<close> generations per prompt, in the order of the
  prompts.  (\<open>chunkArray\<close> is the model written from the spec.)
\<close>

lemma batching_plain:
  assumes "0 < batchSize this" and "0 < n this"
    and "stop this = None \<or> stopArg = None"
    and "\<not> truthy (getProp (effectiveParams this stopArg) ''stream'')"
    and "plTags this = None \<or> (\<forall>t. fetch E t = Fulfilled ())"
    and "\<forall>h sub. createCompletion E h \<lparr>params = effectiveParams this stopArg, prompt = sub\<rparr>
              = Fulfilled (Body (concat (map reply sub)) (reported sub))"
    and "\<forall>p. length (reply p) = n this"
  shows "OpenAI_generate this E prompts stopArg s =
           (Fulfilled
              \<lparr>generations = map (\<lambda>p. Some (map toGeneration (reply p))) prompts,
               llmOutput = Some (foldl addUsage emptyUsage
                                  (map reported (chunkArray prompts (batchSize this))))\<rparr>,
            s\<lparr>sent := sent s @ map (\<lambda>sub. \<lparr>params = effectiveParams this stopArg, prompt = sub\<rparr>)
                                  (chunkArray prompts (batchSize this))\<rparr>)
         \<and> length (chunkArray prompts (batchSize this))
             = (length prompts + batchSize this - 1) div batchSize this
         \<and> concat (chunkArray prompts (batchSize this)) = prompts
         \<and> (\<forall>i. Suc i < length (chunkArray prompts (batchSize this))
                \<longrightarrow> length (chunkArray prompts (batchSize this) ! i) = batchSize this)
         \<and> (\<forall>c \<in> set (chunkArray prompts (batchSize this)).
                0 < length c \<and> length c \<le> batchSize this)
         \<and> (\<forall>p. length (map toGeneration (reply p)) = n this)"
proof -
  let ?subs = "chunkArray prompts (batchSize this)"
  have "OpenAI_generate this E prompts stopArg s =
           (Fulfilled
              \<lparr>generations = map (\<lambda>p. Some (map toGeneration (reply p))) prompts,
               llmOutput = Some (foldl addUsage emptyUsage (map reported ?subs))\<rparr>,
            s\<lparr>sent := sent s @ map (\<lambda>sub. \<lparr>params = effectiveParams this stopArg, prompt = sub\<rparr>) ?subs\<rparr>)"
    using assms by (rule OpenAI_generate_answered)
  moreover have "\<forall>c \<in> set ?subs. 0 < length c \<and> length c \<le> batchSize this"
    using assms(1) by (rule chunkArray_sizes)
  moreover have "length ?subs = (length prompts + batchSize this - 1) div batchSize this"
    using assms(1) by (rule length_chunkArray)
  moreover have "concat ?subs = prompts"
    using assms(1) by (rule concat_chunkArray)
  moreover have "\<forall>i. Suc i < length ?subs \<longrightarrow> length (?subs ! i) = batchSize this"
  proof (intro allI impI)
    fix i
    assume "Suc i < length ?subs"
    with assms(1) show "length (?subs ! i) = batchSize this"
      by (rule length_nth_chunkArray)
  qed
  moreover have "\<forall>p. length (map toGeneration (reply p)) = n this"
    using assms(7) by simp
  ultimately show ?thesis
    apply -
    apply (intro conjI)
         apply assumption+
    done
qed

lemma batching_plain_example:
  "OpenAI_generate (defaultOpenAI\<lparr>batchSize := 2\<rparr>) echo [''a'', ''b'', ''c'', ''d'', ''e''] None initial =
     (Fulfilled
        \<lparr>generations =
           [Some [toGeneration (echoChoice ''a'')], Some [toGeneration (echoChoice ''b'')],
            Some [toGeneration (echoChoice ''c'')], Some [toGeneration (echoChoice ''d'')],
            Some [toGeneration (echoChoice ''e'')]],
         llmOutput = Some emptyUsage\<rparr>,
      initial\<lparr>sent :=
        [\<lparr>params = effectiveParams (defaultOpenAI\<lparr>batchSize := 2\<rparr>) None, prompt = [''a'', ''b'']\<rparr>,
         \<lparr>params = effectiveParams (defaultOpenAI\<lparr>batchSize := 2\<rparr>) None, prompt = [''c'', ''d'']\<rparr>,
         \<lparr>params = effectiveParams (defaultOpenAI\<lparr>batchSize := 2\<rparr>) None, prompt = [''e'']\<rparr>]\<rparr>)
   \<and> chunkArray [''a'', ''b'', ''c'', ''d'', ''e''] 2 = [[''a'', ''b''], [''c'', ''d''], [''e'']]
   \<and> length (chunkArray [''a'', ''b'', ''c'', ''d'', ''e''] 2) = 3"
proof -
  let ?I = "defaultOpenAI\<lparr>batchSize := 2\<rparr>"
  have chunks: "chunkArray [''a'', ''b'', ''c'', ''d'', ''e''] (2::nat) = [[''a'', ''b''], [''c'', ''d''], [''e'']]"
    by (simp add: chunkArray.simps)
  have a: "0 < batchSize ?I" and b: "0 < n ?I" and c: "stop ?I = None \<or> None = (None :: string list option)"
    and e: "plTags ?I = None \<or> (\<forall>t. fetch echo t = Fulfilled ())"
    by (simp_all add: defaultOpenAI_def)
  have d: "\<not> truthy (getProp (effectiveParams ?I None) ''stream'')"
    by (simp add: stream_of_effectiveParams defaultOpenAI_def)
  have f: "\<forall>h sub. createCompletion echo h \<lparr>params = effectiveParams ?I None, prompt = sub\<rparr>
              = Fulfilled (Body (concat (map (\<lambda>p. [echoChoice p]) sub)) ((\<lambda>sub. None) sub))"
    by (simp add: echo_def)
  have g: "\<forall>p. length ((\<lambda>p. [echoChoice p]) p) = n ?I"
    by (simp add: defaultOpenAI_def)
  have u: "addUsage emptyUsage None = emptyUsage"
    by (simp add: addUsage_def emptyUsage_def addTokens_def)
  have k: "batchSize ?I = 2" by simp
  have i: "sent initial = []" by (simp add: initial_def)
  have main: "OpenAI_generate ?I echo [''a'', ''b'', ''c'', ''d'', ''e''] None initial =
           (Fulfilled
              \<lparr>generations = map (\<lambda>p. Some (map toGeneration [echoChoice p])) [''a'', ''b'', ''c'', ''d'', ''e''],
               llmOutput = Some (foldl addUsage emptyUsage
                                  (map (\<lambda>sub. None) (chunkArray [''a'', ''b'', ''c'', ''d'', ''e''] (batchSize ?I))))\<rparr>,
            initial\<lparr>sent := sent initial @ map (\<lambda>sub. \<lparr>params = effectiveParams ?I None, prompt = sub\<rparr>)
                                  (chunkArray [''a'', ''b'', ''c'', ''d'', ''e''] (batchSize ?I))\<rparr>)"
    using batching_plain [OF a b c d e f g, of "[''a'', ''b'', ''c'', ''d'', ''e'']" initial]
    by (rule conjunct1)
  have len: "length (chunkArray [''a'', ''b'', ''c'', ''d'', ''e''] (2::nat)) = 3"
    unfolding chunks by simp
  have run: "OpenAI_generate ?I echo [''a'', ''b'', ''c'', ''d'', ''e''] None initial =
     (Fulfilled
        \<lparr>generations =
           [Some [toGeneration (echoChoice ''a'')], Some [toGeneration (echoChoice ''b'')],
            Some [toGeneration (echoChoice ''c'')], Some [toGeneration (echoChoice ''d'')],
            Some [toGeneration (echoChoice ''e'')]],
         llmOutput = Some emptyUsage\<rparr>,
      initial\<lparr>sent :=
        [\<lparr>params = effectiveParams ?I None, prompt = [''a'', ''b'']\<rparr>,
         \<lparr>params = effectiveParams ?I None, prompt = [''c'', ''d'']\<rparr>,
         \<lparr>params = effectiveParams ?I None, prompt = [''e'']\<rparr>]\<rparr>)"
    unfolding main k chunks i
    by (simp only: list.map foldl_Cons foldl_Nil u append_Nil)
  from run chunks len show ?thesis
    apply -
    apply (intro conjI)
      apply assumption+
    done
qed

section \<open>The streaming reconstruction\<close>

lemma readStream_deltas:
  "\<exists>c'. readStream (map (\<lambda>q. Delta (Some q)) parts @ [Sentinel]) c = Fulfilled c'
        \<and> orElse (choice_text c') []
            = orElse (choice_text c) [] @ concat (map (\<lambda>q. orElse (choice_text q) []) parts)"
proof (induction parts arbitrary: c)
  case Nil
  show ?case by simp
next
  case (Cons q parts)
  let ?c = "c\<lparr>choice_text := Some (orElse (choice_text c) [] @ orElse (choice_text q) []),
               finish_reason := finish_reason q, choice_logprobs := choice_logprobs q\<rparr>"
  from Cons.IH [of ?c] obtain c' where
    "readStream (map (\<lambda>q. Delta (Some q)) parts @ [Sentinel]) ?c = Fulfilled c'"
    "orElse (choice_text c') []
       = orElse (choice_text ?c) [] @ concat (map (\<lambda>q. orElse (choice_text q) []) parts)"
    by blast
  then show ?case by simp
qed

lemma chunkArray_single: "0 < k \<Longrightarrow> chunkArray [x] k = [[x]]"
  by (simp add: chunkArray_step)

lemma OpenAI_generate_streamed_single:
  assumes "n this = 1" and "0 < batchSize this" and "stop this = None \<or> stopArg = None"
    and "streaming this" and "''stream'' \<notin> fst ` set (modelKwargs this)"
    and "\<forall>h. createCompletion E h \<lparr>params = effectiveParams this stopArg, prompt = [p]\<rparr>
            = Fulfilled (Stream (map (\<lambda>q. Delta (Some q)) parts @ [Sentinel]))"
  shows "\<exists>r. OpenAI_generate this E [p] stopArg s
               = (Fulfilled r, s\<lparr>sent := sent s @ [\<lparr>params = effectiveParams this stopArg, prompt = [p]\<rparr>]\<rparr>)
            \<and> textsOf r = [Some [concat (map (\<lambda>q. orElse (choice_text q) []) parts)]]"
proof -
  let ?ps = "effectiveParams this stopArg"
  have stream: "truthy (getProp ?ps ''stream'')"
    using assms(4,5) by (simp add: stream_of_effectiveParams)
  obtain c' where c': "readStream (map (\<lambda>q. Delta (Some q)) parts @ [Sentinel]) emptyChoice = Fulfilled c'"
    "orElse (choice_text c') [] = concat (map (\<lambda>q. orElse (choice_text q) []) parts)"
    using readStream_deltas [of parts emptyChoice] by (auto simp: emptyChoice_def)
  have "completionWithRetry this E \<lparr>params = ?ps, prompt = [p]\<rparr> s
          = (Fulfilled (Stream (map (\<lambda>q. Delta (Some q)) parts @ [Sentinel])),
             s\<lparr>sent := sent s @ [\<lparr>params = ?ps, prompt = [p]\<rparr>]\<rparr>)"
    using assms(6) stream by (intro completionWithRetry_answered) auto
  then have "subBatches this E ?ps [[p]] [] emptyUsage s
          = (Fulfilled ([c'], addUsage emptyUsage None),
             s\<lparr>sent := sent s @ [\<lparr>params = ?ps, prompt = [p]\<rparr>]\<rparr>)"
    using stream c'(1) by (simp add: newChoices_def usageOf_def)
  then have "OpenAI_generate this E [p] stopArg s
          = (Fulfilled \<lparr>generations = [Some [toGeneration c']], llmOutput = Some (addUsage emptyUsage None)\<rparr>,
             s\<lparr>sent := sent s @ [\<lparr>params = ?ps, prompt = [p]\<rparr>]\<rparr>)"
    using assms(1,2,3) by (auto simp: OpenAI_generate_def chunkArray_single)
  then show ?thesis
    using c'(2) by (simp add: textsOf_def toGeneration_def)
qed

lemma OpenAI_generate_plain_single:
  assumes "n this = 1" and "0 < batchSize this" and "stop this = None \<or> stopArg = None"
    and "\<not> streaming this" and "''stream'' \<notin> fst ` set (modelKwargs this)"
    and "plTags this = None \<or> (\<forall>t. fetch E t = Fulfilled ())"
    and "\<forall>h. createCompletion E h \<lparr>params = effectiveParams this stopArg, prompt = [p]\<rparr>
            = Fulfilled (Body [c] u)"
  shows "\<exists>r. OpenAI_generate this E [p] stopArg s
               = (Fulfilled r, s\<lparr>sent := sent s @ [\<lparr>params = effectiveParams this stopArg, prompt = [p]\<rparr>]\<rparr>)
            \<and> textsOf r = [Some [orElse (choice_text c) []]]"
proof -
  let ?ps = "effectiveParams this stopArg"
  have stream: "\<not> truthy (getProp ?ps ''stream'')"
    using assms(4,5) by (simp add: stream_of_effectiveParams)
  have "completionWithRetry this E \<lparr>params = ?ps, prompt = [p]\<rparr> s
          = (Fulfilled (Body [c] u), s\<lparr>sent := sent s @ [\<lparr>params = ?ps, prompt = [p]\<rparr>]\<rparr>)"
    using assms(6,7) by (intro completionWithRetry_answered) auto
  then have "subBatches this E ?ps [[p]] [] emptyUsage s
          = (Fulfilled ([c], addUsage emptyUsage u),
             s\<lparr>sent := sent s @ [\<lparr>params = ?ps, prompt = [p]\<rparr>]\<rparr>)"
    using stream by (simp add: newChoices_def usageOf_def)
  then have "OpenAI_generate this E [p] stopArg s
          = (Fulfilled \<lparr>generations = [Some [toGeneration c]], llmOutput = Some (addUsage emptyUsage u)\<rparr>,
             s\<lparr>sent := sent s @ [\<lparr>params = ?ps, prompt = [p]\<rparr>]\<rparr>)"
    using assms(1,2,3) by (auto simp: OpenAI_generate_def chunkArray_single)
  then show ?thesis
    by (simp add: textsOf_def toGeneration_def)
qed

text \<open>
  C7.  For one prompt, when the provider streams the fragments \<open>parts\<close> followed by the
  sentinel and answers the plain request with one choice whose text is the
  concatenation of the fragments, \<open>_generate\<close> with \<open>streaming\<close> on and with \<open>streaming\<close>
  off both return one generation for the prompt, with that same text: the fragments in
  the order of arrival.
\<close>

theorem streaming_equivalence:
  assumes "n this = 1" and "0 < batchSize this" and "stop this = None \<or> stopArg = None"
    and "''stream'' \<notin> fst ` set (modelKwargs this)"
    and "plTags this = None \<or> (\<forall>t. fetch E t = Fulfilled ())"
    and "\<forall>h. createCompletion E h
               \<lparr>params = effectiveParams (this\<lparr>streaming := True\<rparr>) stopArg, prompt = [p]\<rparr>
            = Fulfilled (Stream (map (\<lambda>q. Delta (Some q)) parts @ [Sentinel]))"
    and "\<forall>h. createCompletion E h
               \<lparr>params = effectiveParams (this\<lparr>streaming := False\<rparr>) stopArg, prompt = [p]\<rparr>
            = Fulfilled (Body [c] u)"
    and "choice_text c = Some (concat (map (\<lambda>q. orElse (choice_text q) []) parts))"
  shows "\<exists>streamed plain s1 s2.
           OpenAI_generate (this\<lparr>streaming := True\<rparr>) E [p] stopArg s = (Fulfilled streamed, s1)
         \<and> OpenAI_generate (this\<lparr>streaming := False\<rparr>) E [p] stopArg s = (Fulfilled plain, s2)
         \<and> textsOf streamed = [Some [concat (map (\<lambda>q. orElse (choice_text q) []) parts)]]
         \<and> textsOf plain = textsOf streamed"
proof -
  obtain streamed s1 where
    a: "OpenAI_generate (this\<lparr>streaming := True\<rparr>) E [p] stopArg s = (Fulfilled streamed, s1)"
       "textsOf streamed = [Some [concat (map (\<lambda>q. orElse (choice_text q) []) parts)]]"
    using OpenAI_generate_streamed_single [of "this\<lparr>streaming := True\<rparr>" stopArg E p parts s] assms
    by auto
  obtain plain s2 where
    b: "OpenAI_generate (this\<lparr>streaming := False\<rparr>) E [p] stopArg s = (Fulfilled plain, s2)"
       "textsOf plain = [Some [orElse (choice_text c) []]]"
    using OpenAI_generate_plain_single [of "this\<lparr>streaming := False\<rparr>" stopArg E p c u s] assms
    by auto
  from a b assms(8) show ?thesis by simp
qed

theorem streaming_equivalence_witness:
  "\<exists>streamed plain s1 s2.
     OpenAI_generate (defaultOpenAI\<lparr>streaming := True\<rparr>) hello [''Greet me''] None initial
       = (Fulfilled streamed, s1)
   \<and> OpenAI_generate (defaultOpenAI\<lparr>streaming := False\<rparr>) hello [''Greet me''] None initial
       = (Fulfilled plain, s2)
   \<and> textsOf streamed = [Some [''Hello'']]
   \<and> textsOf plain = [Some [''Hello'']]"
proof -
  have a: "n defaultOpenAI = 1" and b: "0 < batchSize defaultOpenAI"
    and c: "stop defaultOpenAI = None \<or> None = (None :: string list option)"
    and d: "''stream'' \<notin> fst ` set (modelKwargs defaultOpenAI)"
    and e: "plTags defaultOpenAI = None \<or> (\<forall>t. fetch hello t = Fulfilled ())"
    by (simp_all add: defaultOpenAI_def)
  have f: "\<forall>h. createCompletion hello h
               \<lparr>params = effectiveParams (defaultOpenAI\<lparr>streaming := True\<rparr>) None, prompt = [''Greet me'']\<rparr>
            = Fulfilled (Stream (map (\<lambda>q. Delta (Some q)) [fragment ''Hel'', fragment ''lo''] @ [Sentinel]))"
    using d by (simp add: hello_def stream_of_effectiveParams)
  have g: "\<forall>h. createCompletion hello h
               \<lparr>params = effectiveParams (defaultOpenAI\<lparr>streaming := False\<rparr>) None, prompt = [''Greet me'']\<rparr>
            = Fulfilled (Body [echoChoice ''Hello''] None)"
    using d by (simp add: hello_def stream_of_effectiveParams)
  have h: "choice_text (echoChoice ''Hello'')
             = Some (concat (map (\<lambda>q. orElse (choice_text q) []) [fragment ''Hel'', fragment ''lo'']))"
    by (simp add: echoChoice_def fragment_def)
  have i: "concat (map (\<lambda>q. orElse (choice_text q) []) [fragment ''Hel'', fragment ''lo'']) = ''Hello''"
    by (simp add: fragment_def)
  show ?thesis
    using streaming_equivalence [OF a b c d e f g h, of initial] unfolding i by metis
qed

section \<open>The cache key\<close>

lemma blank_absent: "k \<notin> fst ` set ob \<Longrightarrow> blank k ob = ob"
  by (induction ob) (auto simp: blank_def)

lemma setProp_blank:
  "distinct (map fst ob) \<Longrightarrow> setProp (blank k ob) k v = setProp ob k v"
proof (induction ob)
  case Nil
  show ?case by (simp add: blank_def)
next
  case (Cons e ob)
  show ?case
  proof (cases "fst e = k")
    case True
    with Cons.prems have "k \<notin> fst ` set ob" by auto
    then have "blank k ob = ob" by (rule blank_absent)
    then have "blank k (e # ob) = (k, JUndefined) # ob"
      using True by (simp add: blank_def)
    with True show ?thesis by (cases e) simp
  next
    case False
    have "blank k (e # ob) = e # blank k ob"
      using False by (simp add: blank_def)
    with False Cons show ?thesis by (cases e) simp
  qed
qed

lemma keys_setProp: "fst ` set (setProp ob k v) = insert k (fst ` set ob)"
proof (induction ob)
  case Nil
  show ?case by simp
next
  case (Cons e ob)
  obtain k' v' where e: "e = (k', v')" by (cases e)
  show ?case
  proof (cases "k' = k")
    case True
    with e show ?thesis by simp
  next
    case False
    with e Cons show ?thesis by simp blast
  qed
qed

lemma distinct_setProp:
  "distinct (map fst ob) \<Longrightarrow> distinct (map fst (setProp ob k v))"
proof (induction ob)
  case Nil
  show ?case by simp
next
  case (Cons e ob)
  obtain k' v' where e: "e = (k', v')" by (cases e)
  show ?case
  proof (cases "k' = k")
    case True
    with Cons.prems e show ?thesis by simp
  next
    case False
    have "k' \<notin> fst ` set (setProp ob k v)"
      using Cons.prems False e unfolding keys_setProp by simp
    with Cons False e show ?thesis by simp
  qed
qed

lemma distinct_spread:
  "distinct (map fst a) \<Longrightarrow> distinct (map fst (spread a b))"
  unfolding spread_def
  by (induction b arbitrary: a) (auto simp: distinct_setProp)

lemma distinct_serialize: "distinct (map fst (serialize this))"
  by (simp add: serialize_def identifyingParams_def distinct_setProp distinct_spread)

lemma blank_setProp:
  "blank k (setProp ob k' v') = setProp (blank k ob) k' (if k' = k then JUndefined else v')"
  by (induction ob) (auto simp: blank_def)

lemma blank_spread: "blank k (spread a b) = spread (blank k a) (blank k b)"
proof (induction b arbitrary: a)
  case Nil
  show ?case by (simp add: spread_def blank_def)
next
  case (Cons e b)
  obtain k' v' where e: "e = (k', v')" by (cases e)
  have "blank k (spread a (e # b)) = blank k (spread (setProp a k' v') b)"
    by (simp add: spread_def e)
  also have "\<dots> = spread (setProp (blank k a) k' (if k' = k then JUndefined else v')) (blank k b)"
    by (simp add: Cons.IH blank_setProp)
  also have "\<dots> = spread (blank k a) (blank k (e # b))"
    by (simp add: spread_def e blank_def)
  finally show ?case .
qed

lemma blank_stop_invocationParams:
  "blank ''stop'' (invocationParams (this\<lparr>stop := x\<rparr>)) = blank ''stop'' (invocationParams this)"
  by (simp add: invocationParams_def blank_spread) (simp add: blank_def)

lemma blank_stop_serialize:
  "blank ''stop'' (serialize (this\<lparr>stop := x\<rparr>)) = blank ''stop'' (serialize this)"
  by (simp add: serialize_def identifyingParams_def llmType_def blank_setProp blank_spread
      blank_stop_invocationParams)

lemma llmStringKey_stop_update:
  "llmStringKey (this\<lparr>stop := x\<rparr>) stopArg = llmStringKey this stopArg"
proof -
  have "setProp (serialize (this\<lparr>stop := x\<rparr>)) ''stop'' (stopValue stopArg)
          = setProp (blank ''stop'' (serialize (this\<lparr>stop := x\<rparr>))) ''stop'' (stopValue stopArg)"
    by (simp add: setProp_blank distinct_serialize)
  also have "\<dots> = setProp (serialize this) ''stop'' (stopValue stopArg)"
    by (simp add: blank_stop_serialize setProp_blank distinct_serialize)
  finally show ?thesis by (simp add: llmStringKey_def)
qed

lemma stop_of_effectiveParams:
  "''stop'' \<notin> fst ` set (modelKwargs this)
     \<Longrightarrow> getProp (effectiveParams this stopArg) ''stop''
           = (case stopArg of Some xs \<Rightarrow> stopValue (Some xs) | None \<Rightarrow> stopValue (stop this))"
  by (simp add: effectiveParams_def Let_def getProp_setProp invocationParams_def
      getProp_spread_other split: option.split)

section \<open>The uncached path leaves the cache alone\<close>

lemma storeBlindI:
  "(\<And>s c. f (s\<lparr>store := c\<rparr>) = (fst (f s), (snd (f s))\<lparr>store := c\<rparr>)) \<Longrightarrow> storeBlind f"
  by (simp add: storeBlind_def)

lemma storeBlindD:
  "storeBlind f \<Longrightarrow> f (s\<lparr>store := c\<rparr>) = (fst (f s), (snd (f s))\<lparr>store := c\<rparr>)"
  by (simp add: storeBlind_def)

lemma storeBlind_store: 
  assumes "storeBlind f"
  shows "store (snd (f s)) = store s"
proof -
  have "f (s\<lparr>store := store s\<rparr>) = (fst (f s), (snd (f s))\<lparr>store := store s\<rparr>)"
    using assms by (rule storeBlindD)
  then have "snd (f s) = (snd (f s))\<lparr>store := store s\<rparr>"
    by (simp add: prod_eq_iff)
  then have "store (snd (f s)) = store ((snd (f s))\<lparr>store := store s\<rparr>)"
    by simp
  then show ?thesis by simp
qed

lemma storeBlind_makeCompletionRequest: "storeBlind (makeCompletionRequest E request)"
  by (rule storeBlindI) (simp add: makeCompletionRequest_def)

lemma storeBlind_attempt:
  assumes "storeBlind req"
  shows "storeBlind (attempt req k)"
proof (induction k)
  case 0
  have "attempt req 0 = req" by (rule ext) simp
  with assms show ?case by simp
next
  case (Suc k)
  show ?case
  proof (rule storeBlindI)
    fix s c
    obtain r s1 where r: "req s = (r, s1)" by (cases "req s")
    then have r': "req (s\<lparr>store := c\<rparr>) = (r, s1\<lparr>store := c\<rparr>)"
      using storeBlindD [OF assms, where s=s and c=c] by simp
    show "attempt req (Suc k) (s\<lparr>store := c\<rparr>)
            = (fst (attempt req (Suc k) s), (snd (attempt req (Suc k) s))\<lparr>store := c\<rparr>)"
      using r r' storeBlindD [OF Suc, where s=s1 and c=c] by (cases r) simp_all
  qed
qed

lemma storeBlind_OpenAI_completionWithRetry:
  "storeBlind (OpenAI_completionWithRetry this E request)"
  by (simp add: OpenAI_completionWithRetry_def backOff_def storeBlind_attempt
      storeBlind_makeCompletionRequest)

lemma storeBlind_completionWithRetry: "storeBlind (completionWithRetry this E request)"
proof (cases "plTags this")
  case None
  then have "completionWithRetry this E request = OpenAI_completionWithRetry this E request"
    by (simp add: completionWithRetry_def)
  then show ?thesis by (simp add: storeBlind_OpenAI_completionWithRetry)
next
  case (Some tgs)
  show ?thesis
  proof (rule storeBlindI)
    fix s c
    obtain r s1 where r: "OpenAI_completionWithRetry this E request s = (r, s1)"
      by (cases "OpenAI_completionWithRetry this E request s")
    then have r': "OpenAI_completionWithRetry this E request (s\<lparr>store := c\<rparr>) = (r, s1\<lparr>store := c\<rparr>)"
      using storeBlindD [OF storeBlind_OpenAI_completionWithRetry, where s=s and c=c] by simp
    show "completionWithRetry this E request (s\<lparr>store := c\<rparr>)
            = (fst (completionWithRetry this E request s),
               (snd (completionWithRetry this E request s))\<lparr>store := c\<rparr>)"
      using Some r r'
      by (cases r)
         (auto simp: completionWithRetry_def PromptLayerOpenAI_completionWithRetry_def
               split: outcome.splits)
  qed
qed

lemma storeBlind_subBatches: "storeBlind (subBatches this E ps subs choices tokens)"
proof (induction subs arbitrary: choices tokens)
  case Nil
  show ?case by (rule storeBlindI) simp
next
  case (Cons sub rest)
  show ?case
  proof (rule storeBlindI)
    fix s c
    let ?request = "\<lparr>params = ps, prompt = sub\<rparr>"
    obtain r s1 where r: "completionWithRetry this E ?request s = (r, s1)"
      by (cases "completionWithRetry this E ?request s")
    then have r': "completionWithRetry this E ?request (s\<lparr>store := c\<rparr>) = (r, s1\<lparr>store := c\<rparr>)"
      using storeBlindD [OF storeBlind_completionWithRetry, where s=s and c=c] by simp
    show "subBatches this E ps (sub # rest) choices tokens (s\<lparr>store := c\<rparr>)
            = (fst (subBatches this E ps (sub # rest) choices tokens s),
               (snd (subBatches this E ps (sub # rest) choices tokens s))\<lparr>store := c\<rparr>)"
      using r r' storeBlindD [OF Cons, where s=s1 and c=c]
      by (cases r) (simp_all split: outcome.splits)
  qed
qed

lemma storeBlind_OpenAI_generate: "storeBlind (OpenAI_generate this E prompts stopArg)"
proof (rule storeBlindI)
  fix s c
  let ?loop = "subBatches this E (effectiveParams this stopArg)
                 (chunkArray prompts (batchSize this)) [] emptyUsage"
  obtain r s1 where r: "?loop s = (r, s1)" by (cases "?loop s")
  then have r': "?loop (s\<lparr>store := c\<rparr>) = (r, s1\<lparr>store := c\<rparr>)"
    using storeBlindD [OF storeBlind_subBatches, where s=s and c=c] by simp
  show "OpenAI_generate this E prompts stopArg (s\<lparr>store := c\<rparr>)
          = (fst (OpenAI_generate this E prompts stopArg s),
             (snd (OpenAI_generate this E prompts stopArg s))\<lparr>store := c\<rparr>)"
  proof (cases "stop this \<noteq> None \<and> stopArg \<noteq> None")
    case True
    then show ?thesis by (simp add: OpenAI_generate_def)
  next
    case False
    then show ?thesis
      using r r' by (cases r) (auto simp: OpenAI_generate_def Let_def split: prod.splits)
  qed
qed

lemma storeBlind_generateUncached: "storeBlind (generateUncached this E prompts stopArg)"
proof (rule storeBlindI)
  fix s c
  obtain r s1 where r: "OpenAI_generate this E prompts stopArg s = (r, s1)"
    by (cases "OpenAI_generate this E prompts stopArg s")
  then have r': "OpenAI_generate this E prompts stopArg (s\<lparr>store := c\<rparr>) = (r, s1\<lparr>store := c\<rparr>)"
    using storeBlindD [OF storeBlind_OpenAI_generate, where s=s and c=c] by simp
  show "generateUncached this E prompts stopArg (s\<lparr>store := c\<rparr>)
          = (fst (generateUncached this E prompts stopArg s),
             (snd (generateUncached this E prompts stopArg s))\<lparr>store := c\<rparr>)"
    using r r' by (auto simp: generateUncached_def split: outcome.splits option.splits)
qed

lemma generateUncached_store:
  "generateUncached this E prompts stopArg s = (r, s1) \<Longrightarrow> store s1 = store s"
  using storeBlind_store [OF storeBlind_generateUncached, of this E prompts stopArg s] by simp

section \<open>The cached path\<close>

lemma missed_prompts:
  "map (\<lambda>i. prompts ! i) (filter (\<lambda>index. map f prompts ! index = None) [0..<length prompts])
     = filter (\<lambda>p. f p = None) prompts"
proof -
  have "filter (\<lambda>p. f p = None) prompts
          = filter (\<lambda>p. f p = None) (map ((!) prompts) [0..<length prompts])"
    by (simp add: map_nth)
  also have "\<dots> = map ((!) prompts) (filter ((\<lambda>p. f p = None) \<circ> (!) prompts) [0..<length prompts])"
    by (simp only: filter_map)
  also have "filter ((\<lambda>p. f p = None) \<circ> (!) prompts) [0..<length prompts]
               = filter (\<lambda>index. map f prompts ! index = None) [0..<length prompts]"
    by (rule filter_cong) auto
  finally show ?thesis by simp
qed

lemma generate_bypass:
  "cache this = Some False
     \<Longrightarrow> generate this E prompts stopArg s = generateUncached this E prompts stopArg s"
  by (simp add: generate_def)

lemma no_missing:
  assumes "\<forall>x \<in> set found. x \<noteq> None"
  shows "filter (\<lambda>index. found ! index = None) [0..<length found] = []"
  using assms by (auto simp: filter_empty_conv)

lemma generate_all_hits:
  assumes "cache this \<noteq> Some False"
    and "\<forall>p \<in> set prompts. cacheLookup (store s) (Some p) (llmStringKey this stopArg) \<noteq> None"
  shows "generate this E prompts stopArg s =
           (Fulfilled
              \<lparr>generations =
                 map (\<lambda>p. cacheLookup (store s) (Some p) (llmStringKey this stopArg)) prompts,
               llmOutput = None\<rparr>,
            s)"
proof -
  let ?found = "map (\<lambda>p. cacheLookup (store s) (Some p) (llmStringKey this stopArg)) prompts"
  have "\<forall>x \<in> set ?found. x \<noteq> None" using assms(2) by auto
  then have "filter (\<lambda>index. ?found ! index = None) [0..<length ?found] = []"
    by (rule no_missing)
  then have "filter (\<lambda>index. ?found ! index = None) [0..<length prompts] = []"
    by simp
  then show ?thesis
    using assms(1) unfolding generate_def Let_def by simp
qed


lemma cacheFill_written:
  assumes "\<forall>x \<in> set rs. x \<noteq> None"
  shows "length (fst (cacheFill prompts missing llmKey rs index (gens, c))) = length gens
       \<and> (\<forall>k. c k \<noteq> None \<longrightarrow> snd (cacheFill prompts missing llmKey rs index (gens, c)) k \<noteq> None)
       \<and> (\<forall>i < length gens.
             fst (cacheFill prompts missing llmKey rs index (gens, c)) ! i \<noteq> gens ! i
               \<longrightarrow> snd (cacheFill prompts missing llmKey rs index (gens, c)) (nth_opt prompts i, llmKey)
                     \<noteq> None)"
  using assms
proof (induction rs arbitrary: index gens c)
  case Nil
  show ?case by simp
next
  case (Cons r rs)
  from Cons.prems have r: "r \<noteq> None" and rest: "\<forall>x \<in> set rs. x \<noteq> None" by auto
  show ?case
  proof (cases "nth_opt missing index")
    case None
    let ?c1 = "cacheUpdate c None llmKey r"
    have step: "cacheFill prompts missing llmKey (r # rs) index (gens, c)
                  = cacheFill prompts missing llmKey rs (Suc index) (gens, ?c1)"
      using None by simp
    have grow: "\<forall>k. c k \<noteq> None \<longrightarrow> ?c1 k \<noteq> None"
      using r by (simp add: cacheUpdate_def)
    from Cons.IH [OF rest, of "Suc index" gens ?c1] grow show ?thesis
      unfolding step by blast
  next
    case (Some promptIndex)
    let ?g1 = "gens[promptIndex := r]"
    let ?c1 = "cacheUpdate c (nth_opt prompts promptIndex) llmKey r"
    have step: "cacheFill prompts missing llmKey (r # rs) index (gens, c)
                  = cacheFill prompts missing llmKey rs (Suc index) (?g1, ?c1)"
      using Some by simp
    have grow: "\<forall>k. c k \<noteq> None \<longrightarrow> ?c1 k \<noteq> None"
      using r by (simp add: cacheUpdate_def)
    have here: "?c1 (nth_opt prompts promptIndex, llmKey) \<noteq> None"
      using r by (simp add: cacheUpdate_def)
    have changed: "\<forall>i < length gens. ?g1 ! i \<noteq> gens ! i \<longrightarrow> i = promptIndex"
      by (metis nth_list_update_neq)
    let ?res = "cacheFill prompts missing llmKey rs (Suc index) (?g1, ?c1)"
    from Cons.IH [OF rest, of "Suc index" ?g1 ?c1]
    have ih: "length (fst ?res) = length gens"
      "\<forall>k. ?c1 k \<noteq> None \<longrightarrow> snd ?res k \<noteq> None"
      "\<forall>i < length gens. fst ?res ! i \<noteq> ?g1 ! i \<longrightarrow> snd ?res (nth_opt prompts i, llmKey) \<noteq> None"
      by simp_all
    have "\<forall>i < length gens. fst ?res ! i \<noteq> gens ! i \<longrightarrow> snd ?res (nth_opt prompts i, llmKey) \<noteq> None"
    proof (intro allI impI)
      fix i
      assume i: "i < length gens" and diff: "fst ?res ! i \<noteq> gens ! i"
      show "snd ?res (nth_opt prompts i, llmKey) \<noteq> None"
      proof (cases "fst ?res ! i = ?g1 ! i")
        case True
        with diff have "?g1 ! i \<noteq> gens ! i" by simp
        with changed i have "i = promptIndex" by blast
        with here ih(2) show ?thesis by blast
      next
        case False
        with ih(3) i show ?thesis by blast
      qed
    qed
    with ih(1) ih(2) grow show ?thesis
      unfolding step by blast
  qed
qed

lemma cacheFill_elsewhere:
  "i \<notin> set missing
     \<Longrightarrow> fst (cacheFill prompts missing llmKey rs index (gens, c)) ! i = gens ! i"
proof (induction rs arbitrary: index gens c)
  case Nil
  show ?case by simp
next
  case (Cons r rs)
  show ?case
  proof (cases "nth_opt missing index")
    case None
    with Cons show ?thesis by simp
  next
    case (Some promptIndex)
    then have "promptIndex \<in> set missing"
      by (auto simp: nth_opt_def split: if_splits)
    with Cons.prems have "promptIndex \<noteq> i" by auto
    then have "gens[promptIndex := r] ! i = gens ! i" by simp
    with Some Cons.IH [OF Cons.prems] show ?thesis by simp
  qed
qed

section \<open>Runs against the echoing provider\<close>

lemma generateUncached_quiet:
  "callbackManager this = getCallbackManager
     \<Longrightarrow> generateUncached this E prompts stopArg s = OpenAI_generate this E prompts stopArg s"
  by (cases "OpenAI_generate this E prompts stopArg s")
     (simp add: generateUncached_def getCallbackManager_def split: outcome.splits)

lemma addUsage_None: "addUsage t None = t"
  by (simp add: addUsage_def addTokens_def)

lemma foldl_addUsage_None: "foldl addUsage t (map (\<lambda>sub. None) subs) = t"
  by (induction subs) (simp_all add: addUsage_None)

lemma echo_generateUncached:
  assumes "callbackManager this = getCallbackManager"
    and "n this = 1" and "0 < batchSize this" and "stop this = None \<or> stopArg = None"
    and "\<not> streaming this" and "''stream'' \<notin> fst ` set (modelKwargs this)"
  shows "generateUncached this echo prompts stopArg s =
           (Fulfilled
              \<lparr>generations = map (\<lambda>p. Some [toGeneration (echoChoice p)]) prompts,
               llmOutput = Some emptyUsage\<rparr>,
            s\<lparr>sent := sent s @ map (\<lambda>sub. \<lparr>params = effectiveParams this stopArg, prompt = sub\<rparr>)
                                  (chunkArray prompts (batchSize this))\<rparr>)"
proof -
  have a: "0 < n this" using assms(2) by simp
  have b: "\<not> truthy (getProp (effectiveParams this stopArg) ''stream'')"
    using assms(5,6) by (simp add: stream_of_effectiveParams)
  have c: "plTags this = None \<or> (\<forall>t. fetch echo t = Fulfilled ())"
    by (simp add: echo_def)
  have d: "\<forall>h sub. createCompletion echo h \<lparr>params = effectiveParams this stopArg, prompt = sub\<rparr>
              = Fulfilled (Body (concat (map (\<lambda>p. [echoChoice p]) sub)) ((\<lambda>sub. None) sub))"
    by (simp add: echo_def)
  have e: "\<forall>p. length ((\<lambda>p. [echoChoice p]) p) = n this"
    using assms(2) by simp
  show ?thesis
    using OpenAI_generate_answered [OF assms(3) a assms(4) b c d e, of prompts s]
    by (simp add: generateUncached_quiet [OF assms(1)] foldl_addUsage_None)
qed

section \<open>One prompt through the cache\<close>

lemma generate_single_hit:
  assumes "cache this \<noteq> Some False"
    and "cacheLookup (store s) (Some p) (llmStringKey this stopArg) = Some g"
  shows "generate this E [p] stopArg s = (Fulfilled \<lparr>generations = [Some g], llmOutput = None\<rparr>, s)"
  using generate_all_hits [OF assms(1), of "[p]" s stopArg E] assms(2) by simp

lemma generate_single_miss:
  assumes "cache this \<noteq> Some False"
    and "cacheLookup (store s) (Some p) (llmStringKey this stopArg) = None"
  shows "generate this E [p] stopArg s =
           (case generateUncached this E [p] stopArg s of
              (Rejected e, s1) \<Rightarrow> (Rejected e, s1)
            | (Pending, s1) \<Rightarrow> (Pending, s1)
            | (Fulfilled results, s1) \<Rightarrow>
                (case cacheFill [p] [0] (llmStringKey this stopArg) (generations results) 0
                        ([None], store s1) of
                   (filled, c) \<Rightarrow>
                     (Fulfilled \<lparr>generations = filled, llmOutput = llmOutput results\<rparr>,
                      s1\<lparr>store := c\<rparr>)))"
  using assms by (auto simp: generate_def Let_def split: prod.splits outcome.splits)





section \<open>The stop list given twice\<close>

lemma OpenAI_generate_conflict:
  "stop this \<noteq> None \<Longrightarrow> stopArg \<noteq> None
     \<Longrightarrow> OpenAI_generate this E prompts stopArg s
           = (Rejected (Error ''Stop found in input and default params''), s)"
  by (simp add: OpenAI_generate_def)

lemma generateUncached_conflict:
  assumes "stop this \<noteq> None" and "stopArg \<noteq> None"
  shows "generateUncached this E prompts stopArg s =
           (Rejected
              (case callHook (\<lambda>h. h (name this) prompts (verbose this))
                      (handleStart (callbackManager this)) of
                 Some thrown \<Rightarrow> thrown
               | None \<Rightarrow>
                   (case callHook
                           (\<lambda>h. h (errorString (Error ''Stop found in input and default params''))
                                  (verbose this))
                           (handleError (callbackManager this)) of
                      Some thrown \<Rightarrow> thrown
                    | None \<Rightarrow> Error ''Stop found in input and default params'')),
            s)"
  using assms
  by (simp add: generateUncached_def OpenAI_generate_conflict split: option.splits)

lemma some_missing:
  assumes "\<exists>x \<in> set found. x = None"
  shows "filter (\<lambda>index. found ! index = None) [0..<length found] \<noteq> []"
proof -
  from assms obtain i where "i < length found" "found ! i = None"
    by (auto simp: in_set_conv_nth)
  then show ?thesis by (auto simp: filter_empty_conv)
qed

lemma generate_dispatches:
  assumes "cache this = Some False
           \<or> (\<exists>p \<in> set prompts. cacheLookup (store s) (Some p) (llmStringKey this stopArg) = None)"
    and "\<And>ps. generateUncached this E ps stopArg s = (Rejected (failure ps), s)"
  shows "\<exists>ps. generate this E prompts stopArg s = (Rejected (failure ps), s)"
proof (cases "cache this = Some False")
  case True
  with assms(2) show ?thesis by (auto simp: generate_bypass)
next
  case False
  let ?found = "map (\<lambda>p. cacheLookup (store s) (Some p) (llmStringKey this stopArg)) prompts"
  from False assms(1) have "\<exists>x \<in> set ?found. x = None" by (force simp: image_iff)
  then have "filter (\<lambda>index. ?found ! index = None) [0..<length ?found] \<noteq> []"
    by (rule some_missing)
  then have "filter (\<lambda>index. ?found ! index = None) [0..<length prompts] \<noteq> []"
    by simp
  with False show ?thesis
    unfolding generate_def Let_def by (simp add: assms(2)) blast
qed

lemma quiet_getCallbackManager: "quiet getCallbackManager"
  by (simp add: quiet_def getCallbackManager_def)

lemma quiet_failure:
  assumes "quiet (callbackManager this)"
  shows "(case callHook (\<lambda>h. h (name this) ps (verbose this)) (handleStart (callbackManager this)) of
        Some thrown \<Rightarrow> thrown
      | None \<Rightarrow>
          (case callHook (\<lambda>h. h msg (verbose this)) (handleError (callbackManager this)) of
             Some thrown \<Rightarrow> thrown
           | None \<Rightarrow> err)) = err"
proof -
  have "callHook (\<lambda>h. h (name this) ps (verbose this)) (handleStart (callbackManager this)) = None"
    using assms by (cases "handleStart (callbackManager this)") (simp_all add: quiet_def)
  moreover have "callHook (\<lambda>h. h msg (verbose this)) (handleError (callbackManager this)) = None"
    using assms by (cases "handleError (callbackManager this)") (simp_all add: quiet_def)
  ultimately show ?thesis by simp
qed

text \<open>
  C5, as amended.  When a stop list was given to the constructor and a stop argument is
  passed, \<open>generate\<close> is rejected whenever it calls \<open>_generate\<close>, that is when caching
  is off or some prompt misses the cache: nothing is sent to the provider
  and the cache is unchanged.  With callbacks that return normally, whatever they are
  (the default ones, absent ones, or any others that do not throw), the error is the
  configuration error \<^verbatim>\<open>Stop found in input and default params\<close>.
\<close>

theorem stop_conflict_rejected:
  assumes "stop this \<noteq> None" and "stopArg \<noteq> None"
    and "cache this = Some False
         \<or> (\<exists>p \<in> set prompts. cacheLookup (store s) (Some p) (llmStringKey this stopArg) = None)"
  shows "(\<exists>e. generate this E prompts stopArg s = (Rejected e, s))
       \<and> (quiet (callbackManager this)
            \<longrightarrow> generate this E prompts stopArg s
                  = (Rejected (Error ''Stop found in input and default params''), s))"
proof -
  let ?failure = "\<lambda>ps.
     (case callHook (\<lambda>h. h (name this) ps (verbose this)) (handleStart (callbackManager this)) of
        Some thrown \<Rightarrow> thrown
      | None \<Rightarrow>
          (case callHook
                  (\<lambda>h. h (errorString (Error ''Stop found in input and default params''))
                         (verbose this))
                  (handleError (callbackManager this)) of
             Some thrown \<Rightarrow> thrown
           | None \<Rightarrow> Error ''Stop found in input and default params''))"
  have u: "\<And>ps. generateUncached this E ps stopArg s = (Rejected (?failure ps), s)"
    using assms(1,2) by (rule generateUncached_conflict)
  from generate_dispatches [OF assms(3), of E ?failure, OF u]
  obtain ps where run: "generate this E prompts stopArg s = (Rejected (?failure ps), s)"
    by blast
  moreover have "quiet (callbackManager this)
      \<Longrightarrow> ?failure ps = Error ''Stop found in input and default params''"
    by (rule quiet_failure)
  ultimately show ?thesis by auto
qed

theorem stop_conflict_rejected_witness:
  "generate (defaultOpenAI\<lparr>stop := Some [''END'']\<rparr>) echo [''p''] (Some [''.'']) initial
     = (Rejected (Error ''Stop found in input and default params''), initial)
   \<and> generate (defaultOpenAI\<lparr>stop := Some [''END''], callbackManager := silent, cache := Some False\<rparr>)
        echo [''p'', ''q''] (Some []) initial
     = (Rejected (Error ''Stop found in input and default params''), initial)"
proof -
  let ?B = "defaultOpenAI\<lparr>stop := Some [''END'']\<rparr>"
  let ?C = "defaultOpenAI\<lparr>stop := Some [''END''], callbackManager := silent, cache := Some False\<rparr>"
  have a: "stop ?B \<noteq> None" and b: "Some [''.''] \<noteq> (None :: string list option)" by simp_all
  have c: "cache ?B = Some False
         \<or> (\<exists>p \<in> set [''p'']. cacheLookup (store initial) (Some p) (llmStringKey ?B (Some [''.''])) = None)"
    by (simp add: initial_def InMemoryCache_def cacheLookup_def)
  have d: "quiet (callbackManager ?B)" by (simp add: defaultOpenAI_def quiet_getCallbackManager)
  have w1: "generate ?B echo [''p''] (Some [''.'']) initial
     = (Rejected (Error ''Stop found in input and default params''), initial)"
    using stop_conflict_rejected [OF a b c, of echo] d by simp
  have a': "stop ?C \<noteq> None" and b': "Some [] \<noteq> (None :: string list option)" by simp_all
  have c': "cache ?C = Some False
         \<or> (\<exists>p \<in> set [''p'', ''q'']. cacheLookup (store initial) (Some p) (llmStringKey ?C (Some [])) = None)"
    by simp
  have d': "quiet (callbackManager ?C)" by (simp add: quiet_def silent_def)
  have w2: "generate ?C echo [''p'', ''q''] (Some []) initial
     = (Rejected (Error ''Stop found in input and default params''), initial)"
    using stop_conflict_rejected [OF a' b' c', of echo] d' by simp
  show ?thesis
    apply (intro conjI)
     apply (rule w1)
    apply (rule w2)
    done
qed

text \<open>
  C5 as stated fails: it does not hold regardless of the cache state.  After an instance
  without a constructor stop list has filled the cache for the prompt under the stop
  argument, an instance with a constructor stop list, called with the same prompt and
  the same stop argument, returns the cached generations: no error.  The same holds for
  the empty prompt list.
\<close>

theorem stop_conflict_cached_counterexample:
  "generate (defaultOpenAI\<lparr>stop := Some [''END'']\<rparr>) echo [''p''] (Some [''.''])
       (snd (generate defaultOpenAI echo [''p''] (Some [''.'']) initial))
     = (Fulfilled \<lparr>generations = [Some [toGeneration (echoChoice ''p'')]], llmOutput = None\<rparr>,
        snd (generate defaultOpenAI echo [''p''] (Some [''.'']) initial))
   \<and> generate (defaultOpenAI\<lparr>stop := Some [''END'']\<rparr>) echo [] (Some [''.'']) initial
     = (Fulfilled \<lparr>generations = [], llmOutput = None\<rparr>, initial)"
proof -
  let ?B = "defaultOpenAI\<lparr>stop := Some [''END'']\<rparr>"
  let ?k = "llmStringKey defaultOpenAI (Some [''.''])"
  have a: "cache defaultOpenAI \<noteq> Some False" and a': "cache ?B \<noteq> Some False"
    by (simp_all add: defaultOpenAI_def)
  have k: "llmStringKey ?B (Some [''.'']) = ?k" by (rule llmStringKey_stop_update)
  have miss: "cacheLookup (store initial) (Some ''p'') ?k = None"
    by (simp add: initial_def InMemoryCache_def cacheLookup_def)
  have u: "generateUncached defaultOpenAI echo [''p''] (Some [''.'']) initial =
           (Fulfilled
              \<lparr>generations = map (\<lambda>p. Some [toGeneration (echoChoice p)]) [''p''],
               llmOutput = Some emptyUsage\<rparr>,
            initial\<lparr>sent := sent initial @ map (\<lambda>sub. \<lparr>params = effectiveParams defaultOpenAI (Some [''.'']), prompt = sub\<rparr>)
                                  (chunkArray [''p''] (batchSize defaultOpenAI))\<rparr>)"
    by (rule echo_generateUncached) (simp_all add: defaultOpenAI_def)
  obtain r s1 where first: "generate defaultOpenAI echo [''p''] (Some [''.'']) initial = (r, s1)"
    and hit: "cacheLookup (store s1) (Some ''p'') ?k = Some [toGeneration (echoChoice ''p'')]"
    unfolding generate_single_miss [OF a miss] u
    by (simp add: nth_opt_def cacheLookup_def cacheUpdate_def split: prod.splits)
  have "generate ?B echo [''p''] (Some [''.'']) s1
      = (Fulfilled \<lparr>generations = [Some [toGeneration (echoChoice ''p'')]], llmOutput = None\<rparr>, s1)"
    using a' hit by (intro generate_single_hit) (simp_all add: k)
  moreover have "generate ?B echo [] (Some [''.'']) initial
     = (Fulfilled \<lparr>generations = [], llmOutput = None\<rparr>, initial)"
    using generate_all_hits [OF a', of "[]" initial "Some [''.'']" echo] by simp
  ultimately show ?thesis by (simp add: first)
qed

section \<open>Fields that the adapter does not read\<close>

lemma invocationParams_callbackManager [simp]:
  "invocationParams (this\<lparr>callbackManager := cm\<rparr>) = invocationParams this"
  by (simp add: invocationParams_def)

lemma effectiveParams_callbackManager [simp]:
  "effectiveParams (this\<lparr>callbackManager := cm\<rparr>) stopArg = effectiveParams this stopArg"
  by (simp add: effectiveParams_def)

lemma llmStringKey_callbackManager [simp]:
  "llmStringKey (this\<lparr>callbackManager := cm\<rparr>) stopArg = llmStringKey this stopArg"
  by (simp add: llmStringKey_def serialize_def identifyingParams_def llmType_def)

lemma completionWithRetry_callbackManager [simp]:
  "completionWithRetry (this\<lparr>callbackManager := cm\<rparr>) E request = completionWithRetry this E request"
  by (rule ext)
     (simp add: completionWithRetry_def PromptLayerOpenAI_completionWithRetry_def
        OpenAI_completionWithRetry_def split: option.splits)

lemma subBatches_callbackManager [simp]:
  "subBatches (this\<lparr>callbackManager := cm\<rparr>) E ps subs choices tokens s
     = subBatches this E ps subs choices tokens s"
  by (induction subs arbitrary: choices tokens s)
     (simp_all split: prod.splits outcome.splits)

lemma OpenAI_generate_callbackManager [simp]:
  "OpenAI_generate (this\<lparr>callbackManager := cm\<rparr>) E prompts stopArg s
     = OpenAI_generate this E prompts stopArg s"
  by (simp add: OpenAI_generate_def Let_def cong: prod.case_cong outcome.case_cong)

section \<open>Hooks and the tracking call\<close>

lemma generateUncached_quiet_hooks:
  assumes "quiet (callbackManager this)"
  shows "generateUncached this E prompts stopArg s = OpenAI_generate this E prompts stopArg s"
proof -
  have "callHook (\<lambda>h. h (name this) prompts (verbose this)) (handleStart (callbackManager this)) = None"
    using assms by (cases "handleStart (callbackManager this)") (simp_all add: quiet_def)
  moreover have "\<And>out. callHook (\<lambda>h. h out (verbose this)) (handleEnd (callbackManager this)) = None"
    using assms by (cases "handleEnd (callbackManager this)") (simp_all add: quiet_def)
  moreover have "\<And>err. callHook (\<lambda>h. h err (verbose this)) (handleError (callbackManager this)) = None"
    using assms by (cases "handleError (callbackManager this)") (simp_all add: quiet_def)
  ultimately show ?thesis
    by (cases "OpenAI_generate this E prompts stopArg s")
       (simp add: generateUncached_def split: outcome.splits)
qed

lemma generate_quiet_hooks:
  assumes "quiet (callbackManager this)"
  shows "generate this E prompts stopArg s
           = generate (this\<lparr>callbackManager := getCallbackManager\<rparr>) E prompts stopArg s"
proof -
  have "\<And>ps. generateUncached this E ps stopArg s
          = generateUncached (this\<lparr>callbackManager := getCallbackManager\<rparr>) E ps stopArg s"
    using assms by (simp add: generateUncached_quiet_hooks quiet_getCallbackManager)
  then show ?thesis by (simp add: generate_def Let_def)
qed

lemma OpenAI_completionWithRetry_answered:
  assumes "createCompletion E (sent s) request = Fulfilled d"
  shows "OpenAI_completionWithRetry this E request s = (Fulfilled d, s\<lparr>sent := sent s @ [request]\<rparr>)"
proof -
  have "makeCompletionRequest E request s = (Fulfilled d, s\<lparr>sent := sent s @ [request]\<rparr>)"
    using assms by (simp add: makeCompletionRequest_def)
  then show ?thesis
    by (simp add: OpenAI_completionWithRetry_def backOff_def attempt_Fulfilled)
qed

lemma OpenAI_generate_single_rejected:
  assumes "0 < batchSize this" and "stop this = None \<or> stopArg = None"
    and "completionWithRetry this E \<lparr>params = effectiveParams this stopArg, prompt = [p]\<rparr> s
           = (Rejected e, s1)"
  shows "OpenAI_generate this E [p] stopArg s = (Rejected e, s1)"
  using assms by (auto simp: OpenAI_generate_def chunkArray_single)

lemma tracking_rejected:
  assumes "plTags this = Some tgs" and "\<not> truthy (getProp (params request) ''stream'')"
    and "OpenAI_completionWithRetry this E request s = (Fulfilled response, s1)"
    and "fetch E \<lparr>function_name = ''openai.Completion.create'',
                   kwargs_engine = getProp (params request) ''model'',
                   kwargs_prompt = prompt request, tags = tgs,
                   request_response = response\<rparr> = Rejected e"
  shows "completionWithRetry this E request s = (Rejected e, s1)"
  using assms by (simp add: completionWithRetry_def PromptLayerOpenAI_completionWithRetry_def)

lemma generate_rejected_via:
  assumes "cache this = Some False \<or> missed this prompts stopArg s \<noteq> []"
    and "generateUncached this E (dispatched this prompts stopArg s) stopArg s = (Rejected e, s1)"
  shows "generate this E prompts stopArg s = (Rejected e, s1)"
proof (cases "cache this = Some False")
  case True
  with assms(2) show ?thesis by (simp add: generate_bypass dispatched_def)
next
  case False
  let ?k = "llmStringKey this stopArg"
  let ?found = "map (\<lambda>p. cacheLookup (store s) (Some p) ?k) prompts"
  let ?missing = "filter (\<lambda>index. ?found ! index = None) [0..<length prompts]"
  have sub: "map (\<lambda>i. prompts ! i) ?missing = missed this prompts stopArg s"
    unfolding missed_def by (rule missed_prompts)
  from False assms(1) have "missed this prompts stopArg s \<noteq> []" by simp
  with sub have ne: "?missing \<noteq> []" by (metis list.map_disc_iff)
  from False assms(2) have
    "generateUncached this E (missed this prompts stopArg s) stopArg s = (Rejected e, s1)"
    by (simp add: dispatched_def)
  with False ne show ?thesis
    by (simp add: generate_def Let_def sub)
qed

lemma OpenAI_generate_first_rejected:
  assumes "0 < batchSize this" and "stop this = None \<or> stopArg = None" and "ps \<noteq> []"
    and "completionWithRetry this E
           \<lparr>params = effectiveParams this stopArg, prompt = take (batchSize this) ps\<rparr> s
           = (Rejected e, s1)"
  shows "OpenAI_generate this E ps stopArg s = (Rejected e, s1)"
proof -
  have "chunkArray ps (batchSize this)
          = take (batchSize this) ps # chunkArray (drop (batchSize this) ps) (batchSize this)"
    using assms(1,3) by (rule chunkArray_step)
  then show ?thesis
    using assms(2,4) by (auto simp: OpenAI_generate_def)
qed

lemma completionWithRetry_tracked:
  assumes "plTags this = None \<or> (\<forall>t. fetch E t = Fulfilled ())"
  shows "completionWithRetry this E request s = OpenAI_completionWithRetry this E request s"
proof (cases "plTags this")
  case None
  then show ?thesis by (simp add: completionWithRetry_def)
next
  case (Some tgs)
  with assms have ok: "\<forall>t. fetch E t = Fulfilled ()" by simp
  obtain o1 s1 where r: "OpenAI_completionWithRetry this E request s = (o1, s1)"
    by (cases "OpenAI_completionWithRetry this E request s")
  show ?thesis
    using Some ok r
    by (cases o1) (simp_all add: completionWithRetry_def PromptLayerOpenAI_completionWithRetry_def)
qed

lemma OpenAI_completionWithRetry_plTags [simp]:
  "OpenAI_completionWithRetry (this\<lparr>plTags := x\<rparr>) E request = OpenAI_completionWithRetry this E request"
  by (simp add: OpenAI_completionWithRetry_def)

lemma invocationParams_plTags [simp]:
  "invocationParams (this\<lparr>plTags := x\<rparr>) = invocationParams this"
  by (simp add: invocationParams_def)

lemma effectiveParams_plTags [simp]:
  "effectiveParams (this\<lparr>plTags := x\<rparr>) stopArg = effectiveParams this stopArg"
  by (simp add: effectiveParams_def)

lemma llmStringKey_plTags [simp]:
  "llmStringKey (this\<lparr>plTags := x\<rparr>) stopArg = llmStringKey this stopArg"
  by (simp add: llmStringKey_def serialize_def identifyingParams_def llmType_def)

lemma subBatches_tracked:
  assumes "plTags this = None \<or> (\<forall>t. fetch E t = Fulfilled ())"
  shows "subBatches this E ps subs choices tokens s
           = subBatches (this\<lparr>plTags := None\<rparr>) E ps subs choices tokens s"
proof (induction subs arbitrary: choices tokens s)
  case Nil
  show ?case by simp
next
  case (Cons sub rest)
  have "completionWithRetry this E \<lparr>params = ps, prompt = sub\<rparr> s
          = completionWithRetry (this\<lparr>plTags := None\<rparr>) E \<lparr>params = ps, prompt = sub\<rparr> s"
    using completionWithRetry_tracked [OF assms]
      completionWithRetry_tracked [of "this\<lparr>plTags := None\<rparr>" E]
    by simp
  then show ?case
    by (simp add: Cons.IH split: prod.splits outcome.splits)
qed

lemma OpenAI_generate_tracked:
  assumes "plTags this = None \<or> (\<forall>t. fetch E t = Fulfilled ())"
  shows "OpenAI_generate this E prompts stopArg s
           = OpenAI_generate (this\<lparr>plTags := None\<rparr>) E prompts stopArg s"
  by (simp add: OpenAI_generate_def Let_def subBatches_tracked [OF assms]
      cong: prod.case_cong outcome.case_cong)

lemma generateUncached_tracked:
  assumes "plTags this = None \<or> (\<forall>t. fetch E t = Fulfilled ())"
  shows "generateUncached this E prompts stopArg s
           = generateUncached (this\<lparr>plTags := None\<rparr>) E prompts stopArg s"
  by (simp add: generateUncached_def OpenAI_generate_tracked [OF assms]
      cong: prod.case_cong outcome.case_cong option.case_cong)

lemma generate_tracked:
  assumes "plTags this = None \<or> (\<forall>t. fetch E t = Fulfilled ())"
  shows "generate this E prompts stopArg s
           = generate (this\<lparr>plTags := None\<rparr>) E prompts stopArg s"
  by (simp add: generate_def Let_def generateUncached_tracked [OF assms]
      cong: prod.case_cong outcome.case_cong)

lemma generate_quiet_tracked:
  assumes "quiet (callbackManager this)"
    and "plTags this = None \<or> (\<forall>t. fetch E t = Fulfilled ())"
  shows "generate this E prompts stopArg s
           = generate (this\<lparr>callbackManager := getCallbackManager, plTags := None\<rparr>) E prompts stopArg s"
proof -
  have "generate this E prompts stopArg s
          = generate (this\<lparr>callbackManager := getCallbackManager\<rparr>) E prompts stopArg s"
    using assms(1) by (rule generate_quiet_hooks)
  also have "\<dots> = generate (this\<lparr>callbackManager := getCallbackManager\<rparr>\<lparr>plTags := None\<rparr>) E prompts stopArg s"
    using assms(2) by (intro generate_tracked) simp
  finally show ?thesis by simp
qed

lemma tracking_rejects_generate:
  assumes "quiet (callbackManager this)" and "plTags this = Some tgs"
    and "0 < batchSize this" and "stop this = None \<or> stopArg = None"
    and "\<not> truthy (getProp (effectiveParams this stopArg) ''stream'')"
    and "dispatched this prompts stopArg s \<noteq> []"
    and "OpenAI_completionWithRetry this E
           \<lparr>params = effectiveParams this stopArg,
            prompt = take (batchSize this) (dispatched this prompts stopArg s)\<rparr> s
           = (Fulfilled response, s1)"
    and "fetch E \<lparr>function_name = ''openai.Completion.create'',
                   kwargs_engine = getProp (effectiveParams this stopArg) ''model'',
                   kwargs_prompt = take (batchSize this) (dispatched this prompts stopArg s),
                   tags = tgs, request_response = response\<rparr> = Rejected e"
  shows "generate this E prompts stopArg s = (Rejected e, s1)"
proof -
  let ?ps = "dispatched this prompts stopArg s"
  let ?r = "\<lparr>params = effectiveParams this stopArg, prompt = take (batchSize this) ?ps\<rparr>"
  have "completionWithRetry this E ?r s = (Rejected e, s1)"
    using assms(2,5,7,8) by (intro tracking_rejected) simp_all
  then have "OpenAI_generate this E ?ps stopArg s = (Rejected e, s1)"
    using assms(3,4,6) by (intro OpenAI_generate_first_rejected)
  then have u: "generateUncached this E ?ps stopArg s = (Rejected e, s1)"
    by (simp add: generateUncached_quiet_hooks [OF assms(1)])
  have "cache this = Some False \<or> missed this prompts stopArg s \<noteq> []"
    using assms(6) by (auto simp: dispatched_def)
  then show ?thesis using u by (rule generate_rejected_via)
qed

lemma echo_OpenAI_generate_single:
  assumes "n this = 1" and "0 < batchSize this" and "stop this = None \<or> stopArg = None"
    and "\<not> streaming this" and "''stream'' \<notin> fst ` set (modelKwargs this)"
  shows "OpenAI_generate this echo [p] stopArg s =
           (Fulfilled
              \<lparr>generations = [Some [toGeneration (echoChoice p)]], llmOutput = Some emptyUsage\<rparr>,
            s\<lparr>sent := sent s @ [\<lparr>params = effectiveParams this stopArg, prompt = [p]\<rparr>]\<rparr>)"
proof -
  let ?I = "this\<lparr>callbackManager := getCallbackManager\<rparr>"
  have "generateUncached ?I echo [p] stopArg s =
           (Fulfilled
              \<lparr>generations = map (\<lambda>p. Some [toGeneration (echoChoice p)]) [p],
               llmOutput = Some emptyUsage\<rparr>,
            s\<lparr>sent := sent s @ map (\<lambda>sub. \<lparr>params = effectiveParams ?I stopArg, prompt = sub\<rparr>)
                                  (chunkArray [p] (batchSize ?I))\<rparr>)"
    using assms by (intro echo_generateUncached) simp_all
  moreover have "generateUncached ?I echo [p] stopArg s = OpenAI_generate this echo [p] stopArg s"
    by (simp add: generateUncached_quiet)
  ultimately show ?thesis
    using assms(2) by (simp add: chunkArray_single)
qed

text \<open>
  C4, as amended.  A failure of a notification callback or of the tracking call is
  propagated.  Whenever \<open>generate\<close> hands prompts to \<open>_generateUncached\<close> (caching is off,
  or some prompt is not in the cache): when \<open>handleStart\<close> throws, \<open>generate\<close> is rejected
  with that error before anything is sent; when \<open>handleEnd\<close> throws after \<open>_generate\<close> has
  succeeded, \<open>generate\<close> is rejected with that error; when \<open>handleError\<close> throws,
  \<open>generate\<close> is rejected with the callback's error in place of the original one.  When
  the \<^verbatim>\<open>track-request\<close> call is rejected, \<open>completionWithRetry\<close> of a
  \<open>PromptLayerOpenAI\<close> is rejected with that error although the completion succeeded;
  and so is \<open>generate\<close>, when the completion of its first sub-batch succeeds and the
  tracking call that follows is rejected, the callbacks returning normally.  Callbacks that return normally leave the outcome of \<open>generate\<close> as
  it is with the default callbacks; with tracking calls that all succeed as well, the
  outcome is that of the plain \<open>OpenAI\<close> instance with the default callbacks.
\<close>

theorem hook_failures_surface:
  "((cache this = Some False \<or> missed this prompts stopArg s \<noteq> [])
      \<and> callHook (\<lambda>h. h (name this) (dispatched this prompts stopArg s) (verbose this))
            (handleStart (callbackManager this)) = Some e
      \<longrightarrow> generate this E prompts stopArg s = (Rejected e, s))
   \<and> ((cache this = Some False \<or> missed this prompts stopArg s \<noteq> [])
      \<and> callHook (\<lambda>h. h (name this) (dispatched this prompts stopArg s) (verbose this))
            (handleStart (callbackManager this)) = None
      \<and> OpenAI_generate this E (dispatched this prompts stopArg s) stopArg s = (Fulfilled out, s1)
      \<and> callHook (\<lambda>h. h out (verbose this)) (handleEnd (callbackManager this)) = Some e
      \<longrightarrow> generate this E prompts stopArg s = (Rejected e, s1))
   \<and> ((cache this = Some False \<or> missed this prompts stopArg s \<noteq> [])
      \<and> callHook (\<lambda>h. h (name this) (dispatched this prompts stopArg s) (verbose this))
            (handleStart (callbackManager this)) = None
      \<and> OpenAI_generate this E (dispatched this prompts stopArg s) stopArg s = (Rejected err, s1)
      \<and> callHook (\<lambda>h. h (errorString err) (verbose this)) (handleError (callbackManager this))
          = Some e
      \<longrightarrow> generate this E prompts stopArg s = (Rejected e, s1))
   \<and> (plTags this = Some tgs \<and> \<not> truthy (getProp (params request) ''stream'')
      \<and> OpenAI_completionWithRetry this E request s = (Fulfilled response, s1)
      \<and> fetch E \<lparr>function_name = ''openai.Completion.create'',
                   kwargs_engine = getProp (params request) ''model'',
                   kwargs_prompt = prompt request, tags = tgs,
                   request_response = response\<rparr> = Rejected e
      \<longrightarrow> completionWithRetry this E request s = (Rejected e, s1))
   \<and> (quiet (callbackManager this) \<and> plTags this = Some tgs
      \<and> 0 < batchSize this \<and> (stop this = None \<or> stopArg = None)
      \<and> \<not> truthy (getProp (effectiveParams this stopArg) ''stream'')
      \<and> dispatched this prompts stopArg s \<noteq> []
      \<and> OpenAI_completionWithRetry this E
            \<lparr>params = effectiveParams this stopArg,
             prompt = take (batchSize this) (dispatched this prompts stopArg s)\<rparr> s
          = (Fulfilled response, s1)
      \<and> fetch E \<lparr>function_name = ''openai.Completion.create'',
                   kwargs_engine = getProp (effectiveParams this stopArg) ''model'',
                   kwargs_prompt = take (batchSize this) (dispatched this prompts stopArg s),
                   tags = tgs, request_response = response\<rparr> = Rejected e
      \<longrightarrow> generate this E prompts stopArg s = (Rejected e, s1))
   \<and> (quiet (callbackManager this)
      \<longrightarrow> generate this E prompts stopArg s
            = generate (this\<lparr>callbackManager := getCallbackManager\<rparr>) E prompts stopArg s)
   \<and> (quiet (callbackManager this) \<and> (plTags this = None \<or> (\<forall>t. fetch E t = Fulfilled ()))
      \<longrightarrow> generate this E prompts stopArg s
            = generate (this\<lparr>callbackManager := getCallbackManager, plTags := None\<rparr>) E prompts
                stopArg s)"
proof (intro conjI impI)
  assume h: "(cache this = Some False \<or> missed this prompts stopArg s \<noteq> [])
      \<and> callHook (\<lambda>h. h (name this) (dispatched this prompts stopArg s) (verbose this))
            (handleStart (callbackManager this)) = Some e"
  then have "generateUncached this E (dispatched this prompts stopArg s) stopArg s = (Rejected e, s)"
    by (simp add: generateUncached_def)
  with h show "generate this E prompts stopArg s = (Rejected e, s)"
    by (intro generate_rejected_via) simp_all
next
  assume h: "(cache this = Some False \<or> missed this prompts stopArg s \<noteq> [])
      \<and> callHook (\<lambda>h. h (name this) (dispatched this prompts stopArg s) (verbose this))
            (handleStart (callbackManager this)) = None
      \<and> OpenAI_generate this E (dispatched this prompts stopArg s) stopArg s = (Fulfilled out, s1)
      \<and> callHook (\<lambda>h. h out (verbose this)) (handleEnd (callbackManager this)) = Some e"
  then have "generateUncached this E (dispatched this prompts stopArg s) stopArg s = (Rejected e, s1)"
    by (simp add: generateUncached_def)
  with h show "generate this E prompts stopArg s = (Rejected e, s1)"
    by (intro generate_rejected_via) simp_all
next
  assume h: "(cache this = Some False \<or> missed this prompts stopArg s \<noteq> [])
      \<and> callHook (\<lambda>h. h (name this) (dispatched this prompts stopArg s) (verbose this))
            (handleStart (callbackManager this)) = None
      \<and> OpenAI_generate this E (dispatched this prompts stopArg s) stopArg s = (Rejected err, s1)
      \<and> callHook (\<lambda>h. h (errorString err) (verbose this)) (handleError (callbackManager this))
          = Some e"
  then have "generateUncached this E (dispatched this prompts stopArg s) stopArg s = (Rejected e, s1)"
    by (simp add: generateUncached_def)
  with h show "generate this E prompts stopArg s = (Rejected e, s1)"
    by (intro generate_rejected_via) simp_all
next
  assume "plTags this = Some tgs \<and> \<not> truthy (getProp (params request) ''stream'')
      \<and> OpenAI_completionWithRetry this E request s = (Fulfilled response, s1)
      \<and> fetch E \<lparr>function_name = ''openai.Completion.create'',
                   kwargs_engine = getProp (params request) ''model'',
                   kwargs_prompt = prompt request, tags = tgs,
                   request_response = response\<rparr> = Rejected e"
  then show "completionWithRetry this E request s = (Rejected e, s1)"
    by (simp add: tracking_rejected)
next
  assume h: "quiet (callbackManager this) \<and> plTags this = Some tgs
      \<and> 0 < batchSize this \<and> (stop this = None \<or> stopArg = None)
      \<and> \<not> truthy (getProp (effectiveParams this stopArg) ''stream'')
      \<and> dispatched this prompts stopArg s \<noteq> []
      \<and> OpenAI_completionWithRetry this E
            \<lparr>params = effectiveParams this stopArg,
             prompt = take (batchSize this) (dispatched this prompts stopArg s)\<rparr> s
          = (Fulfilled response, s1)
      \<and> fetch E \<lparr>function_name = ''openai.Completion.create'',
                   kwargs_engine = getProp (effectiveParams this stopArg) ''model'',
                   kwargs_prompt = take (batchSize this) (dispatched this prompts stopArg s),
                   tags = tgs, request_response = response\<rparr> = Rejected e"
  then show "generate this E prompts stopArg s = (Rejected e, s1)"
    by (intro tracking_rejects_generate [where tgs = tgs and response = response]) blast+
next
  assume "quiet (callbackManager this)"
  then show "generate this E prompts stopArg s
            = generate (this\<lparr>callbackManager := getCallbackManager\<rparr>) E prompts stopArg s"
    by (rule generate_quiet_hooks)
next
  assume "quiet (callbackManager this) \<and> (plTags this = None \<or> (\<forall>t. fetch E t = Fulfilled ()))"
  then show "generate this E prompts stopArg s
            = generate (this\<lparr>callbackManager := getCallbackManager, plTags := None\<rparr>) E prompts
                stopArg s"
    by (intro generate_quiet_tracked) blast+
qed


theorem hook_failures_surface_witness:
  "generate (defaultOpenAI\<lparr>callbackManager := failingStart\<rparr>) echo [''p'', ''q''] None initial
     = (Rejected (Error ''start hook''), initial)
   \<and> generate (defaultOpenAI\<lparr>callbackManager := failingEnd\<rparr>) echo [''p''] None initial
     = (Rejected (Error ''end hook''),
        initial\<lparr>sent := [\<lparr>params = effectiveParams defaultOpenAI None, prompt = [''p'']\<rparr>]\<rparr>)
   \<and> fst (generate (defaultOpenAI\<lparr>cache := Some False, callbackManager := failingError\<rparr>) down
            [''p''] None initial)
     = Rejected (Error ''error hook'')
   \<and> completionWithRetry (defaultOpenAI\<lparr>plTags := Some []\<rparr>) untracked
         \<lparr>params = [], prompt = [''p'']\<rparr> initial
     = (Rejected (Error ''track-request''), initial\<lparr>sent := [\<lparr>params = [], prompt = [''p'']\<rparr>]\<rparr>)
   \<and> generate (defaultOpenAI\<lparr>plTags := Some []\<rparr>) untracked [''p''] None initial
     = (Rejected (Error ''track-request''),
        initial\<lparr>sent := [\<lparr>params = effectiveParams defaultOpenAI None, prompt = [''p'']\<rparr>]\<rparr>)
   \<and> generate (defaultOpenAI\<lparr>callbackManager := silent\<rparr>) echo [''p''] None initial
     = generate defaultOpenAI echo [''p''] None initial
   \<and> generate (defaultOpenAI\<lparr>callbackManager := silent, plTags := Some []\<rparr>) echo [''p''] None
         initial
     = generate defaultOpenAI echo [''p''] None initial"
proof -
  let ?S = "defaultOpenAI\<lparr>callbackManager := failingStart\<rparr>"
  let ?N = "defaultOpenAI\<lparr>callbackManager := failingEnd\<rparr>"
  let ?R = "defaultOpenAI\<lparr>cache := Some False, callbackManager := failingError\<rparr>"
  let ?P = "defaultOpenAI\<lparr>plTags := Some []\<rparr>"
  let ?Q = "defaultOpenAI\<lparr>callbackManager := silent\<rparr>"
  let ?T = "defaultOpenAI\<lparr>callbackManager := silent, plTags := Some []\<rparr>"
  let ?request = "\<lparr>params = [], prompt = [''p'']\<rparr>"
  let ?out = "\<lparr>generations = [Some [toGeneration (echoChoice ''p'')]], llmOutput = Some emptyUsage\<rparr>"
  have fresh: "missed I ps None initial = ps" for I ps
    by (simp add: missed_def initial_def InMemoryCache_def cacheLookup_def)
  have disp: "dispatched I ps None initial = ps" for I ps
    by (simp add: dispatched_def fresh)
  have w1: "generate ?S echo [''p'', ''q''] None initial = (Rejected (Error ''start hook''), initial)"
  proof -
    have "(cache ?S = Some False \<or> missed ?S [''p'', ''q''] None initial \<noteq> [])
      \<and> callHook (\<lambda>h. h (name ?S) (dispatched ?S [''p'', ''q''] None initial) (verbose ?S))
            (handleStart (callbackManager ?S)) = Some (Error ''start hook'')"
      by (simp add: failingStart_def fresh)
    with hook_failures_surface [where this = ?S and prompts = "[''p'', ''q'']"
        and e = "Error ''start hook''" and E = echo and stopArg = None and s = initial]
    show ?thesis by blast
  qed
  have w2: "generate ?N echo [''p''] None initial
     = (Rejected (Error ''end hook''),
        initial\<lparr>sent := [\<lparr>params = effectiveParams defaultOpenAI None, prompt = [''p'']\<rparr>]\<rparr>)"
  proof -
    let ?s1 = "initial\<lparr>sent := sent initial @ [\<lparr>params = effectiveParams ?N None, prompt = [''p'']\<rparr>]\<rparr>"
    have run: "OpenAI_generate ?N echo (dispatched ?N [''p''] None initial) None initial
                 = (Fulfilled ?out, ?s1)"
      unfolding disp by (rule echo_OpenAI_generate_single) (simp_all add: defaultOpenAI_def)
    have "(cache ?N = Some False \<or> missed ?N [''p''] None initial \<noteq> [])
      \<and> callHook (\<lambda>h. h (name ?N) (dispatched ?N [''p''] None initial) (verbose ?N))
            (handleStart (callbackManager ?N)) = None
      \<and> callHook (\<lambda>h. h ?out (verbose ?N)) (handleEnd (callbackManager ?N)) = Some (Error ''end hook'')"
      by (simp add: failingEnd_def getCallbackManager_def fresh)
    with run hook_failures_surface [where this = ?N and prompts = "[''p'']" and e = "Error ''end hook''"
        and E = echo and stopArg = None and s = initial and out = ?out and ?s1.0 = ?s1]
    have "generate ?N echo [''p''] None initial = (Rejected (Error ''end hook''), ?s1)"
      by blast
    then show ?thesis by (simp add: initial_def)
  qed
  have w3: "fst (generate ?R down [''p''] None initial) = Rejected (Error ''error hook'')"
  proof -
    let ?r = "\<lparr>params = effectiveParams ?R None, prompt = [''p'']\<rparr>"
    let ?err = "Error (''503 after '' @ decimal (length (sent initial @ replicate 5 ?r)))"
    let ?s1 = "initial\<lparr>sent := sent initial @ replicate (Suc 5) ?r\<rparr>"
    have "\<forall>h. createCompletion down h ?r = Rejected (Error (''503 after '' @ decimal (length h)))"
      by (simp add: down_def)
    then have "attempt (makeCompletionRequest down ?r) 5 initial = (Rejected ?err, ?s1)"
      by (rule attempt_all_rejected)
    then have "completionWithRetry ?R down ?r initial = (Rejected ?err, ?s1)"
      by (simp add: completionWithRetry_def OpenAI_completionWithRetry_def backOff_def
          defaultOpenAI_def)
    then have "OpenAI_generate ?R down [''p''] None initial = (Rejected ?err, ?s1)"
      by (intro OpenAI_generate_single_rejected) (simp_all add: defaultOpenAI_def)
    then have run: "OpenAI_generate ?R down (dispatched ?R [''p''] None initial) None initial
                      = (Rejected ?err, ?s1)"
      unfolding disp .
    have "(cache ?R = Some False \<or> missed ?R [''p''] None initial \<noteq> [])
      \<and> callHook (\<lambda>h. h (name ?R) (dispatched ?R [''p''] None initial) (verbose ?R))
            (handleStart (callbackManager ?R)) = None
      \<and> callHook (\<lambda>h. h (errorString ?err) (verbose ?R)) (handleError (callbackManager ?R))
          = Some (Error ''error hook'')"
      by (simp add: failingError_def getCallbackManager_def)
    with run hook_failures_surface [where this = ?R and prompts = "[''p'']" and e = "Error ''error hook''"
        and E = down and stopArg = None and s = initial and err = ?err and ?s1.0 = ?s1]
    have "generate ?R down [''p''] None initial = (Rejected (Error ''error hook''), ?s1)"
      by blast
    then show ?thesis by simp
  qed
  have w4: "completionWithRetry ?P untracked ?request initial
     = (Rejected (Error ''track-request''), initial\<lparr>sent := [?request]\<rparr>)"
  proof -
    have "createCompletion untracked (sent initial) ?request
            = Fulfilled (Body [echoChoice ''p''] None)"
      by (simp add: untracked_def echo_def)
    then have "OpenAI_completionWithRetry ?P untracked ?request initial
            = (Fulfilled (Body [echoChoice ''p''] None), initial\<lparr>sent := sent initial @ [?request]\<rparr>)"
      by (rule OpenAI_completionWithRetry_answered)
    moreover have "plTags ?P = Some [] \<and> \<not> truthy (getProp (params ?request) ''stream'')
      \<and> fetch untracked \<lparr>function_name = ''openai.Completion.create'',
                   kwargs_engine = getProp (params ?request) ''model'',
                   kwargs_prompt = prompt ?request, tags = [],
                   request_response = Body [echoChoice ''p''] None\<rparr> = Rejected (Error ''track-request'')"
      by (simp add: untracked_def)
    ultimately have "completionWithRetry ?P untracked ?request initial
            = (Rejected (Error ''track-request''), initial\<lparr>sent := sent initial @ [?request]\<rparr>)"
      using hook_failures_surface [where this = ?P and tgs = "[]" and request = ?request
        and E = untracked and s = initial and response = "Body [echoChoice ''p''] None"
        and e = "Error ''track-request''"
        and ?s1.0 = "initial\<lparr>sent := sent initial @ [?request]\<rparr>"]
      by blast
    then show ?thesis by (simp add: initial_def)
  qed
  have w5: "generate ?P untracked [''p''] None initial
     = (Rejected (Error ''track-request''),
        initial\<lparr>sent := [\<lparr>params = effectiveParams defaultOpenAI None, prompt = [''p'']\<rparr>]\<rparr>)"
  proof -
    let ?r = "\<lparr>params = effectiveParams ?P None,
               prompt = take (batchSize ?P) (dispatched ?P [''p''] None initial)\<rparr>"
    have "createCompletion untracked (sent initial) ?r = Fulfilled (Body [echoChoice ''p''] None)"
      unfolding disp by (simp add: untracked_def echo_def defaultOpenAI_def)
    then have sentOne: "OpenAI_completionWithRetry ?P untracked ?r initial
            = (Fulfilled (Body [echoChoice ''p''] None), initial\<lparr>sent := sent initial @ [?r]\<rparr>)"
      by (rule OpenAI_completionWithRetry_answered)
    have "quiet (callbackManager ?P) \<and> plTags ?P = Some []
      \<and> 0 < batchSize ?P \<and> (stop ?P = None \<or> None = (None :: string list option))
      \<and> \<not> truthy (getProp (effectiveParams ?P None) ''stream'')
      \<and> dispatched ?P [''p''] None initial \<noteq> []
      \<and> fetch untracked \<lparr>function_name = ''openai.Completion.create'',
                   kwargs_engine = getProp (effectiveParams ?P None) ''model'',
                   kwargs_prompt = take (batchSize ?P) (dispatched ?P [''p''] None initial),
                   tags = [], request_response = Body [echoChoice ''p''] None\<rparr>
          = Rejected (Error ''track-request'')"
      unfolding disp
      by (simp add: defaultOpenAI_def quiet_getCallbackManager stream_of_effectiveParams
          untracked_def echo_def)
    with sentOne hook_failures_surface [where this = ?P and tgs = "[]" and prompts = "[''p'']"
        and E = untracked and s = initial and stopArg = None
        and response = "Body [echoChoice ''p''] None" and e = "Error ''track-request''"
        and ?s1.0 = "initial\<lparr>sent := sent initial @ [?r]\<rparr>"]
    have "generate ?P untracked [''p''] None initial
            = (Rejected (Error ''track-request''), initial\<lparr>sent := sent initial @ [?r]\<rparr>)"
      by blast
    moreover have "take (batchSize ?P) [''p''] = [''p'']" by (simp add: defaultOpenAI_def)
    ultimately show ?thesis
      unfolding disp by (simp add: initial_def)
  qed
  have w6: "generate ?Q echo [''p''] None initial = generate defaultOpenAI echo [''p''] None initial"
  proof -
    have "quiet (callbackManager ?Q)" by (simp add: quiet_def silent_def)
    with hook_failures_surface [where this = ?Q and prompts = "[''p'']" and E = echo
        and stopArg = None and s = initial]
    have "generate ?Q echo [''p''] None initial
            = generate (?Q\<lparr>callbackManager := getCallbackManager\<rparr>) echo [''p''] None initial"
      by blast
    moreover have "?Q\<lparr>callbackManager := getCallbackManager\<rparr> = defaultOpenAI"
      by (simp add: defaultOpenAI_def)
    ultimately show ?thesis by simp
  qed
  have w7: "generate ?T echo [''p''] None initial = generate defaultOpenAI echo [''p''] None initial"
  proof -
    have "quiet (callbackManager ?T) \<and> (plTags ?T = None \<or> (\<forall>t. fetch echo t = Fulfilled ()))"
      by (simp add: quiet_def silent_def echo_def)
    with hook_failures_surface [where this = ?T and prompts = "[''p'']" and E = echo
        and stopArg = None and s = initial]
    have "generate ?T echo [''p''] None initial
            = generate (?T\<lparr>callbackManager := getCallbackManager, plTags := None\<rparr>) echo [''p''] None
                initial"
      by blast
    moreover have "?T\<lparr>callbackManager := getCallbackManager, plTags := None\<rparr> = defaultOpenAI"
      by (simp add: defaultOpenAI_def)
    ultimately show ?thesis by simp
  qed
  show ?thesis
    apply (intro conjI)
          apply (rule w1)
         apply (rule w2)
        apply (rule w3)
       apply (rule w4)
      apply (rule w5)
     apply (rule w6)
    apply (rule w7)
    done
qed

text \<open>
  C4 as stated fails.  With the same provider, the call whose \<open>handleStart\<close> throws is
  rejected with the callback's error while the call with the default callbacks returns
  its result; and the call of a \<open>PromptLayerOpenAI\<close> whose tracking call is rejected is
  rejected with that error while the same call with a tracking call that succeeds
  returns its result.
\<close>

theorem hook_failure_changes_outcome_counterexample:
  "fst (generate (defaultOpenAI\<lparr>callbackManager := failingStart\<rparr>) echo [''p''] None initial)
     = Rejected (Error ''start hook'')
   \<and> fst (generate defaultOpenAI echo [''p''] None initial)
     = Fulfilled \<lparr>generations = [Some [toGeneration (echoChoice ''p'')]],
                  llmOutput = Some emptyUsage\<rparr>
   \<and> fst (generate (defaultOpenAI\<lparr>plTags := Some []\<rparr>) untracked [''p''] None initial)
     = Rejected (Error ''track-request'')
   \<and> fst (generate (defaultOpenAI\<lparr>plTags := Some []\<rparr>) echo [''p''] None initial)
     = Fulfilled \<lparr>generations = [Some [toGeneration (echoChoice ''p'')]],
                  llmOutput = Some emptyUsage\<rparr>"
proof -
  let ?S = "defaultOpenAI\<lparr>callbackManager := failingStart\<rparr>"
  let ?P = "defaultOpenAI\<lparr>plTags := Some []\<rparr>"
  have miss: "cacheLookup (store initial) (Some ''p'') k = None" for k
    by (simp add: initial_def InMemoryCache_def cacheLookup_def)
  have c1: "generate ?S echo [''p''] None initial = (Rejected (Error ''start hook''), initial)"
  proof -
    have "cache ?S \<noteq> Some False" by (simp add: defaultOpenAI_def)
    from generate_single_miss [OF this miss, of echo] show ?thesis
      by (simp add: generateUncached_def failingStart_def)
  qed
  have c2: "fst (generate I echo [''p''] None initial)
     = Fulfilled \<lparr>generations = [Some [toGeneration (echoChoice ''p'')]],
                  llmOutput = Some emptyUsage\<rparr>"
    if "I = defaultOpenAI \<or> I = ?P" for I
  proof -
    have a: "cache I \<noteq> Some False" using that by (auto simp: defaultOpenAI_def)
    have u: "generateUncached I echo [''p''] None initial =
           (Fulfilled
              \<lparr>generations = map (\<lambda>p. Some [toGeneration (echoChoice p)]) [''p''],
               llmOutput = Some emptyUsage\<rparr>,
            initial\<lparr>sent := sent initial @ map (\<lambda>sub. \<lparr>params = effectiveParams I None, prompt = sub\<rparr>)
                                  (chunkArray [''p''] (batchSize I))\<rparr>)"
      using that by (intro echo_generateUncached) (auto simp: defaultOpenAI_def)
    show ?thesis
      unfolding generate_single_miss [OF a miss] u
      by (simp add: nth_opt_def split: prod.splits)
  qed
  have c3: "fst (generate ?P untracked [''p''] None initial) = Rejected (Error ''track-request'')"
  proof -
    let ?r = "\<lparr>params = effectiveParams ?P None, prompt = [''p'']\<rparr>"
    have a: "cache ?P \<noteq> Some False" by (simp add: defaultOpenAI_def)
    have stream: "\<not> truthy (getProp (params ?r) ''stream'')"
      by (simp add: stream_of_effectiveParams defaultOpenAI_def)
    have "createCompletion untracked (sent initial) ?r = Fulfilled (Body [echoChoice ''p''] None)"
      by (simp add: untracked_def echo_def)
    then have "OpenAI_completionWithRetry ?P untracked ?r initial
            = (Fulfilled (Body [echoChoice ''p''] None), initial\<lparr>sent := sent initial @ [?r]\<rparr>)"
      by (rule OpenAI_completionWithRetry_answered)
    moreover have "plTags ?P = Some []" by simp
    moreover have "fetch untracked t = Rejected (Error ''track-request'')" for t
      by (simp add: untracked_def)
    ultimately have "completionWithRetry ?P untracked ?r initial
            = (Rejected (Error ''track-request''), initial\<lparr>sent := sent initial @ [?r]\<rparr>)"
      using stream by (intro tracking_rejected)
    then have "OpenAI_generate ?P untracked [''p''] None initial
            = (Rejected (Error ''track-request''), initial\<lparr>sent := sent initial @ [?r]\<rparr>)"
      by (intro OpenAI_generate_single_rejected) (simp_all add: defaultOpenAI_def)
    moreover have "callbackManager ?P = getCallbackManager" by (simp add: defaultOpenAI_def)
    ultimately have "generateUncached ?P untracked [''p''] None initial
            = (Rejected (Error ''track-request''), initial\<lparr>sent := sent initial @ [?r]\<rparr>)"
      by (simp add: generateUncached_quiet)
    with generate_single_miss [OF a miss, of untracked] show ?thesis by simp
  qed
  from c1 c2 [of defaultOpenAI] c2 [of ?P] c3 show ?thesis by simp
qed

section \<open>The cache option\<close>

lemma invocationParams_cache [simp]:
  "invocationParams (this\<lparr>cache := x\<rparr>) = invocationParams this"
  by (simp add: invocationParams_def)

lemma effectiveParams_cache [simp]:
  "effectiveParams (this\<lparr>cache := x\<rparr>) stopArg = effectiveParams this stopArg"
  by (simp add: effectiveParams_def)

lemma llmStringKey_cache [simp]:
  "llmStringKey (this\<lparr>cache := x\<rparr>) stopArg = llmStringKey this stopArg"
  by (simp add: llmStringKey_def serialize_def identifyingParams_def llmType_def)

lemma completionWithRetry_cache [simp]:
  "completionWithRetry (this\<lparr>cache := x\<rparr>) E request = completionWithRetry this E request"
  by (rule ext)
     (simp add: completionWithRetry_def PromptLayerOpenAI_completionWithRetry_def
        OpenAI_completionWithRetry_def split: option.splits)

lemma subBatches_cache [simp]:
  "subBatches (this\<lparr>cache := x\<rparr>) E ps subs choices tokens s
     = subBatches this E ps subs choices tokens s"
  by (induction subs arbitrary: choices tokens s)
     (simp_all split: prod.splits outcome.splits)

lemma OpenAI_generate_cache [simp]:
  "OpenAI_generate (this\<lparr>cache := x\<rparr>) E prompts stopArg s
     = OpenAI_generate this E prompts stopArg s"
  by (simp add: OpenAI_generate_def Let_def cong: prod.case_cong outcome.case_cong)

lemma generateUncached_cache [simp]:
  "generateUncached (this\<lparr>cache := x\<rparr>) E prompts stopArg s
     = generateUncached this E prompts stopArg s"
  by (simp add: generateUncached_def cong: prod.case_cong outcome.case_cong option.case_cong)

lemma generate_cache_on:
  "cache this \<noteq> Some False
     \<Longrightarrow> generate this E prompts stopArg s
           = generate (this\<lparr>cache := Some True\<rparr>) E prompts stopArg s"
  by (simp add: generate_def Let_def)

lemma OpenAI_generate_Some:
  "OpenAI_generate this E prompts stopArg s = (Fulfilled r, s1)
     \<Longrightarrow> \<forall>x \<in> set (generations r). x \<noteq> None"
  by (auto simp: OpenAI_generate_def Let_def split: if_splits prod.splits outcome.splits)

lemma generateUncached_Fulfilled:
  "generateUncached this E prompts stopArg s = (Fulfilled r, s1)
     \<Longrightarrow> OpenAI_generate this E prompts stopArg s = (Fulfilled r, s1)"
  by (auto simp: generateUncached_def split: option.splits prod.splits outcome.splits)

lemma generate_cached_Fulfilled:
  assumes "cache this \<noteq> Some False"
    and "generate this E prompts stopArg s = (Fulfilled r, s1)"
  shows "length (generations r) = length prompts
       \<and> (\<forall>i < length prompts. \<forall>g.
             cacheLookup (store s) (Some (prompts ! i)) (llmStringKey this stopArg) = Some g
               \<longrightarrow> generations r ! i = Some g)
       \<and> (\<forall>i < length prompts.
             generations r ! i \<noteq> None
               \<longrightarrow> cacheLookup (store s1) (Some (prompts ! i)) (llmStringKey this stopArg) \<noteq> None)"
proof -
  let ?k = "llmStringKey this stopArg"
  let ?found = "map (\<lambda>p. cacheLookup (store s) (Some p) ?k) prompts"
  let ?missing = "filter (\<lambda>index. ?found ! index = None) [0..<length prompts]"
  show ?thesis
  proof (cases "?missing = []")
    case True
    with assms have "r = \<lparr>generations = ?found, llmOutput = None\<rparr>" "s1 = s"
      by (auto simp: generate_def Let_def)
    then show ?thesis by simp
  next
    case False
    let ?sub = "map (\<lambda>i. prompts ! i) ?missing"
    obtain o1 s' where u: "generateUncached this E ?sub stopArg s = (o1, s')"
      by (cases "generateUncached this E ?sub stopArg s")
    from assms False u obtain results where f: "o1 = Fulfilled results"
      by (cases o1) (auto simp: generate_def Let_def)
    obtain filled c where
      fill: "cacheFill prompts ?missing ?k (generations results) 0 (?found, store s') = (filled, c)"
      by (cases "cacheFill prompts ?missing ?k (generations results) 0 (?found, store s')")
    from assms False u f fill have r: "generations r = filled" and s1: "s1 = s'\<lparr>store := c\<rparr>"
      by (auto simp: generate_def Let_def)
    have same: "store s' = store s"
      using u by (rule generateUncached_store)
    have "\<forall>x \<in> set (generations results). x \<noteq> None"
      using u f by (intro OpenAI_generate_Some [of this E ?sub stopArg s results s']
          generateUncached_Fulfilled) simp
    from cacheFill_written [OF this, of prompts ?missing ?k 0 ?found "store s'"] fill
    have len: "length filled = length prompts"
      and grow: "\<forall>k. store s' k \<noteq> None \<longrightarrow> c k \<noteq> None"
      and written: "\<forall>i < length prompts. filled ! i \<noteq> ?found ! i \<longrightarrow> c (nth_opt prompts i, ?k) \<noteq> None"
      by simp_all
    have hits: "\<forall>i < length prompts. \<forall>g.
             cacheLookup (store s) (Some (prompts ! i)) ?k = Some g \<longrightarrow> filled ! i = Some g"
    proof (intro allI impI)
      fix i g
      assume i: "i < length prompts"
        and g: "cacheLookup (store s) (Some (prompts ! i)) ?k = Some g"
      then have "?found ! i = Some g" by simp
      then have "i \<notin> set ?missing" by simp
      from cacheFill_elsewhere [OF this, of prompts ?k "generations results" 0 ?found "store s'"] fill
      have "filled ! i = ?found ! i" by simp
      with \<open>?found ! i = Some g\<close> show "filled ! i = Some g" by simp
    qed
    have stored: "\<forall>i < length prompts. filled ! i \<noteq> None
                  \<longrightarrow> cacheLookup c (Some (prompts ! i)) ?k \<noteq> None"
    proof (intro allI impI)
      fix i
      assume i: "i < length prompts" and ne: "filled ! i \<noteq> None"
      show "cacheLookup c (Some (prompts ! i)) ?k \<noteq> None"
      proof (cases "filled ! i = ?found ! i")
        case True
        with ne i have "store s (Some (prompts ! i), ?k) \<noteq> None"
          by (simp add: cacheLookup_def)
        with same grow show ?thesis by (simp add: cacheLookup_def)
      next
        case False
        with written i have "c (nth_opt prompts i, ?k) \<noteq> None" by blast
        with i show ?thesis by (simp add: nth_opt_def cacheLookup_def)
      qed
    qed
    from len hits stored show ?thesis by (simp add: r s1)
  qed
qed

section \<open>A streamed sub-batch of two prompts\<close>

lemma streamed_pair:
  assumes "streaming this" and "''stream'' \<notin> fst ` set (modelKwargs this)"
    and "n this = 1" and "batchSize this = 20" and "stop this = None"
  shows "OpenAI_generate this streamingEcho [''a'', ''b''] None s =
           (Fulfilled
              \<lparr>generations =
                 [Some [\<lparr>generation_text = ''ab'', finishReason = Some ''stop'',
                         generation_logprobs = JNull\<rparr>]],
               llmOutput = Some emptyUsage\<rparr>,
            s\<lparr>sent := sent s @ [\<lparr>params = effectiveParams this None, prompt = [''a'', ''b'']\<rparr>]\<rparr>)"
proof -
  let ?ps = "effectiveParams this None"
  let ?r = "\<lparr>params = ?ps, prompt = [''a'', ''b'']\<rparr>"
  let ?events = "[Delta (Some \<lparr>choice_text = Some ''a'', choice_index = Some 0,
                                choice_logprobs = JNull, finish_reason = Some ''stop''\<rparr>),
                  Delta (Some \<lparr>choice_text = Some ''b'', choice_index = Some 1,
                                choice_logprobs = JNull, finish_reason = Some ''stop''\<rparr>),
                  Sentinel]"
  let ?c = "\<lparr>choice_text = Some ''ab'', choice_index = None, choice_logprobs = JNull,
             finish_reason = Some ''stop''\<rparr>"
  have stream: "truthy (getProp ?ps ''stream'')"
    using assms(1,2) by (simp add: stream_of_effectiveParams)
  have chunks: "chunkArray [''a'', ''b''] (batchSize this) = [[''a'', ''b'']]"
    by (simp add: assms(4) chunkArray.simps)
  have "[0..<length [''a'', ''b'']] = [0, 1]" by (simp add: upt_rec)
  then have "createCompletion streamingEcho (sent s) ?r = Fulfilled (Stream ?events)"
    by (simp add: streamingEcho_def)
  then have sentOne: "completionWithRetry this streamingEcho ?r s
                    = (Fulfilled (Stream ?events), s\<lparr>sent := sent s @ [?r]\<rparr>)"
    using stream by (intro completionWithRetry_answered) simp_all
  have "subBatches this streamingEcho ?ps [[''a'', ''b'']] [] emptyUsage s
          = (Fulfilled ([?c], emptyUsage), s\<lparr>sent := sent s @ [?r]\<rparr>)"
    using stream by (simp add: sentOne newChoices_def emptyChoice_def usageOf_def addUsage_None)
  then show ?thesis
    using assms(3,5)
    by (simp add: OpenAI_generate_def chunks chunkArray_single toGeneration_def)
qed

text \<open>
  C1, at a failing input.  The constructor accepts \<open>streaming\<close> with the default batch
  size of 20.  For the two prompts \<open>a\<close> and \<open>b\<close>, sent as one streamed sub-batch,
  \<open>generate\<close> returns one generation list (the two texts run together) with caching
  off, and a list followed by \<^verbatim>\<open>null\<close> with caching on: not one generation list per
  prompt.
\<close>

theorem streamed_batch_yields_one_list:
  "newOpenAI (noFields\<lparr>f_openAIApiKey := Some ''sk'', f_streaming := Some True\<rparr>) None None
     = Inr (defaultOpenAI\<lparr>streaming := True\<rparr>)
   \<and> fst (generate (defaultOpenAI\<lparr>streaming := True, cache := Some False\<rparr>) streamingEcho
            [''a'', ''b''] None initial)
     = Fulfilled
         \<lparr>generations =
            [Some [\<lparr>generation_text = ''ab'', finishReason = Some ''stop'',
                    generation_logprobs = JNull\<rparr>]],
          llmOutput = Some emptyUsage\<rparr>
   \<and> fst (generate (defaultOpenAI\<lparr>streaming := True\<rparr>) streamingEcho [''a'', ''b''] None initial)
     = Fulfilled
         \<lparr>generations =
            [Some [\<lparr>generation_text = ''ab'', finishReason = Some ''stop'',
                    generation_logprobs = JNull\<rparr>],
             None],
          llmOutput = Some emptyUsage\<rparr>"
proof -
  let ?off = "defaultOpenAI\<lparr>streaming := True, cache := Some False\<rparr>"
  let ?on = "defaultOpenAI\<lparr>streaming := True\<rparr>"
  let ?g = "\<lparr>generation_text = ''ab'', finishReason = Some ''stop'', generation_logprobs = JNull\<rparr>"
  have built: "newOpenAI (noFields\<lparr>f_openAIApiKey := Some ''sk'', f_streaming := Some True\<rparr>) None None
     = Inr ?on"
    by (simp add: newOpenAI_def noFields_def defaultOpenAI_def getVerbosity_def spread_def)
  have run: "generateUncached I streamingEcho [''a'', ''b''] None s =
           (Fulfilled \<lparr>generations = [Some [?g]], llmOutput = Some emptyUsage\<rparr>,
            s\<lparr>sent := sent s @ [\<lparr>params = effectiveParams I None, prompt = [''a'', ''b'']\<rparr>]\<rparr>)"
    if "I = ?off \<or> I = ?on" for I s
  proof -
    have "callbackManager I = getCallbackManager" using that by (auto simp: defaultOpenAI_def)
    moreover have "OpenAI_generate I streamingEcho [''a'', ''b''] None s =
           (Fulfilled \<lparr>generations = [Some [?g]], llmOutput = Some emptyUsage\<rparr>,
            s\<lparr>sent := sent s @ [\<lparr>params = effectiveParams I None, prompt = [''a'', ''b'']\<rparr>]\<rparr>)"
      using that by (intro streamed_pair) (auto simp: defaultOpenAI_def)
    ultimately show ?thesis by (simp add: generateUncached_quiet)
  qed
  have uncached: "fst (generate ?off streamingEcho [''a'', ''b''] None initial)
     = Fulfilled \<lparr>generations = [Some [?g]], llmOutput = Some emptyUsage\<rparr>"
    by (simp add: generate_bypass run)
  have "cache ?on \<noteq> Some False" by (simp add: defaultOpenAI_def)
  moreover have "[0..<length [''a'', ''b'']] = [0, 1]" by (simp add: upt_rec)
  ultimately have cached: "fst (generate ?on streamingEcho [''a'', ''b''] None initial)
     = Fulfilled \<lparr>generations = [Some [?g], None], llmOutput = Some emptyUsage\<rparr>"
    by (simp add: generate_def Let_def initial_def InMemoryCache_def cacheLookup_def run
        nth_opt_def split: prod.splits)
  from built uncached cached show ?thesis by (intro conjI)
qed

section \<open>Streamed sub-batches\<close>

lemma streamingEcho_answers:
  assumes "truthy (getProp ps ''stream'')"
  shows "completionWithRetry this streamingEcho \<lparr>params = ps, prompt = sub\<rparr> s
           = (Fulfilled
                (Stream
                    (map (\<lambda>i. Delta (Some \<lparr>choice_text = Some (sub ! i), choice_index = Some i,
                                           choice_logprobs = JNull, finish_reason = Some ''stop''\<rparr>))
                       [0..<length sub]
                     @ [Sentinel])),
              s\<lparr>sent := sent s @ [\<lparr>params = ps, prompt = sub\<rparr>]\<rparr>)"
  using assms by (intro completionWithRetry_answered) (simp_all add: streamingEcho_def)

text \<open>
  C8, at a failing input.  The constructor accepts \<open>streaming\<close> with a batch size of 2.
  The five prompts \<open>a\<close> to \<open>e\<close> are split into the three sub-batches of sizes 2, 2 and 1,
  and one request is sent for each, in order.  The streaming branch pushes one choice
  per sub-batch, so the flat list holds three choices, and the regrouping gives three
  generation lists (the texts of a sub-batch run together): not one list of \<open>n\<close>
  generations for each of the five prompts.
\<close>

theorem streamed_batches_yield_one_list_each:
  "newOpenAI (noFields\<lparr>f_openAIApiKey := Some ''sk'', f_streaming := Some True,
                        f_batchSize := Some 2\<rparr>) None None
     = Inr (defaultOpenAI\<lparr>streaming := True, batchSize := 2\<rparr>)
   \<and> chunkArray [''a'', ''b'', ''c'', ''d'', ''e'']
         (batchSize (defaultOpenAI\<lparr>streaming := True, batchSize := 2\<rparr>))
       = [[''a'', ''b''], [''c'', ''d''], [''e'']]
   \<and> OpenAI_generate (defaultOpenAI\<lparr>streaming := True, batchSize := 2\<rparr>) streamingEcho
         [''a'', ''b'', ''c'', ''d'', ''e''] None initial
       = (Fulfilled
            \<lparr>generations =
               [Some [\<lparr>generation_text = ''ab'', finishReason = Some ''stop'',
                       generation_logprobs = JNull\<rparr>],
                Some [\<lparr>generation_text = ''cd'', finishReason = Some ''stop'',
                       generation_logprobs = JNull\<rparr>],
                Some [\<lparr>generation_text = ''e'', finishReason = Some ''stop'',
                       generation_logprobs = JNull\<rparr>]],
             llmOutput = Some emptyUsage\<rparr>,
          initial\<lparr>sent :=
            [\<lparr>params = effectiveParams (defaultOpenAI\<lparr>streaming := True, batchSize := 2\<rparr>) None,
              prompt = [''a'', ''b'']\<rparr>,
             \<lparr>params = effectiveParams (defaultOpenAI\<lparr>streaming := True, batchSize := 2\<rparr>) None,
              prompt = [''c'', ''d'']\<rparr>,
             \<lparr>params = effectiveParams (defaultOpenAI\<lparr>streaming := True, batchSize := 2\<rparr>) None,
              prompt = [''e'']\<rparr>]\<rparr>)"
proof -
  let ?I = "defaultOpenAI\<lparr>streaming := True, batchSize := 2\<rparr>"
  let ?ps = "effectiveParams ?I None"
  let ?created = "\<lambda>sub. Stream
                    (map (\<lambda>i. Delta (Some \<lparr>choice_text = Some (sub ! i), choice_index = Some i,
                                           choice_logprobs = JNull, finish_reason = Some ''stop''\<rparr>))
                       [0..<length sub]
                     @ [Sentinel])"
  let ?c = "\<lambda>t. \<lparr>choice_text = Some t, choice_index = None, choice_logprobs = JNull,
                  finish_reason = Some ''stop''\<rparr>"
  have built: "newOpenAI (noFields\<lparr>f_openAIApiKey := Some ''sk'', f_streaming := Some True,
                        f_batchSize := Some 2\<rparr>) None None = Inr ?I"
    by (simp add: newOpenAI_def noFields_def defaultOpenAI_def getVerbosity_def spread_def)
  have k: "batchSize ?I = 2" by simp
  have chunks: "chunkArray [''a'', ''b'', ''c'', ''d'', ''e''] (2::nat) = [[''a'', ''b''], [''c'', ''d''], [''e'']]"
    by (simp add: chunkArray.simps)
  have stream: "truthy (getProp ?ps ''stream'')"
    by (simp add: stream_of_effectiveParams defaultOpenAI_def)
  have two: "[0..<length [x, y]] = [0, 1]" for x y :: string by (simp add: upt_rec)
  have one: "[0..<length [x]] = [0]" for x :: string by simp
  have answer: "completionWithRetry ?I streamingEcho \<lparr>params = ?ps, prompt = sub\<rparr> s
           = (Fulfilled (?created sub), s\<lparr>sent := sent s @ [\<lparr>params = ?ps, prompt = sub\<rparr>]\<rparr>)" for sub s
    using stream by (rule streamingEcho_answers)
  have pair: "newChoices ?ps (?created [x, y]) = Fulfilled [?c (x @ y)]" for x y
    using stream by (simp add: newChoices_def emptyChoice_def two)
  have single: "newChoices ?ps (?created [x]) = Fulfilled [?c x]" for x
    using stream by (simp add: newChoices_def emptyChoice_def)
  have usage: "usageOf (?created sub) = None" for sub
    by (simp add: usageOf_def)
  have loop: "subBatches ?I streamingEcho ?ps [[''a'', ''b''], [''c'', ''d''], [''e'']] [] emptyUsage initial
          = (Fulfilled ([?c ''ab'', ?c ''cd'', ?c ''e''], emptyUsage),
             initial\<lparr>sent := [\<lparr>params = ?ps, prompt = [''a'', ''b'']\<rparr>,
                               \<lparr>params = ?ps, prompt = [''c'', ''d'']\<rparr>,
                               \<lparr>params = ?ps, prompt = [''e'']\<rparr>]\<rparr>)"
    apply (simp only: subBatches.simps answer)
    apply (simp only: prod.case outcome.case pair single usage addUsage_None)
    apply (simp add: initial_def)
    done
  have regroup: "chunkArray [?c ''ab'', ?c ''cd'', ?c ''e''] (Suc 0)
                  = [[?c ''ab''], [?c ''cd''], [?c ''e'']]"
    by (simp add: chunkArray.simps)
  have run: "OpenAI_generate ?I streamingEcho [''a'', ''b'', ''c'', ''d'', ''e''] None initial
       = (Fulfilled
            \<lparr>generations =
               [Some [\<lparr>generation_text = ''ab'', finishReason = Some ''stop'',
                       generation_logprobs = JNull\<rparr>],
                Some [\<lparr>generation_text = ''cd'', finishReason = Some ''stop'',
                       generation_logprobs = JNull\<rparr>],
                Some [\<lparr>generation_text = ''e'', finishReason = Some ''stop'',
                       generation_logprobs = JNull\<rparr>]],
             llmOutput = Some emptyUsage\<rparr>,
          initial\<lparr>sent :=
            [\<lparr>params = ?ps, prompt = [''a'', ''b'']\<rparr>,
             \<lparr>params = ?ps, prompt = [''c'', ''d'']\<rparr>,
             \<lparr>params = ?ps, prompt = [''e'']\<rparr>]\<rparr>)"
    unfolding OpenAI_generate_def Let_def k chunks loop
    by (simp add: regroup toGeneration_def defaultOpenAI_def)
  from built chunks run show ?thesis
    unfolding k
    apply -
    apply (intro conjI)
      apply assumption+
    done
qed

section \<open>The plain path returns one list per prompt, in order\<close>

lemma cacheFill_exact:
  assumes "distinct missing" and "\<forall>i \<in> set missing. i < length gens"
  shows "length (fst (cacheFill prompts missing llmKey (map h (drop index missing)) index (gens, c)))
           = length gens
       \<and> (\<forall>i < length gens.
             fst (cacheFill prompts missing llmKey (map h (drop index missing)) index (gens, c)) ! i
               = (if i \<in> set (drop index missing) then h i else gens ! i))"
  using assms(2)
proof (induction "length missing - index" arbitrary: index gens c)
  case 0
  then have "drop index missing = []" by simp
  then show ?case by simp
next
  case (Suc k)
  then have idx: "index < length missing" by simp
  let ?pi = "missing ! index"
  let ?g1 = "gens[?pi := h ?pi]"
  let ?c1 = "cacheUpdate c (nth_opt prompts ?pi) llmKey (h ?pi)"
  let ?rest = "drop (Suc index) missing"
  have split: "drop index missing = ?pi # ?rest"
    using idx by (simp add: Cons_nth_drop_Suc)
  have step: "cacheFill prompts missing llmKey (map h (drop index missing)) index (gens, c)
                = cacheFill prompts missing llmKey (map h ?rest) (Suc index) (?g1, ?c1)"
    using idx by (simp add: split nth_opt_def)
  have k: "k = length missing - Suc index" using Suc.hyps(2) by simp
  have bound: "\<forall>i \<in> set missing. i < length ?g1" using Suc.prems by simp
  note ih = Suc.hyps(1) [OF k bound, of ?c1]
  have inrange: "?pi < length gens" using Suc.prems idx by simp
  have fresh: "?pi \<notin> set ?rest"
    using assms(1) idx split by (metis distinct.simps(2) distinct_drop)
  have "\<forall>i < length gens.
          fst (cacheFill prompts missing llmKey (map h ?rest) (Suc index) (?g1, ?c1)) ! i
            = (if i \<in> set (drop index missing) then h i else gens ! i)"
  proof (intro allI impI)
    fix i
    assume i: "i < length gens"
    with ih have r: "fst (cacheFill prompts missing llmKey (map h ?rest) (Suc index) (?g1, ?c1)) ! i
            = (if i \<in> set ?rest then h i else ?g1 ! i)"
      by simp
    show "fst (cacheFill prompts missing llmKey (map h ?rest) (Suc index) (?g1, ?c1)) ! i
            = (if i \<in> set (drop index missing) then h i else gens ! i)"
    proof (cases "i = ?pi")
      case True
      with r fresh inrange show ?thesis by (simp add: split)
    next
      case False
      with r show ?thesis by (simp add: split)
    qed
  qed
  with ih show ?case unfolding step by simp
qed

lemma missing_indices:
  "distinct (filter (\<lambda>index. found ! index = None) [0..<length found])
   \<and> (\<forall>i \<in> set (filter (\<lambda>index. found ! index = None) [0..<length found]). i < length found)
   \<and> (\<forall>i < length found.
         i \<in> set (filter (\<lambda>index. found ! index = None) [0..<length found])
           \<longleftrightarrow> found ! i = None)"
  by auto

lemma generate_plain_in_order:
  assumes "quiet (callbackManager this)"
    and "0 < batchSize this" and "0 < n this"
    and "stop this = None \<or> stopArg = None"
    and "\<not> truthy (getProp (effectiveParams this stopArg) ''stream'')"
    and "plTags this = None \<or> (\<forall>t. fetch E t = Fulfilled ())"
    and "\<forall>h sub. createCompletion E h \<lparr>params = effectiveParams this stopArg, prompt = sub\<rparr>
              = Fulfilled (Body (concat (map reply sub)) (reported sub))"
    and "\<forall>p. length (reply p) = n this"
  shows "\<exists>r s1. generate this E prompts stopArg s = (Fulfilled r, s1)
          \<and> generations r =
              map (\<lambda>p. if cache this = Some False then Some (map toGeneration (reply p))
                        else (case cacheLookup (store s) (Some p) (llmStringKey this stopArg) of
                                Some g \<Rightarrow> Some g
                              | None \<Rightarrow> Some (map toGeneration (reply p))))
                prompts"
proof -
  let ?k = "llmStringKey this stopArg"
  have run: "generateUncached this E ps stopArg s =
           (Fulfilled
              \<lparr>generations = map (\<lambda>p. Some (map toGeneration (reply p))) ps,
               llmOutput = Some (foldl addUsage emptyUsage
                                  (map reported (chunkArray ps (batchSize this))))\<rparr>,
            s\<lparr>sent := sent s @ map (\<lambda>sub. \<lparr>params = effectiveParams this stopArg, prompt = sub\<rparr>)
                                  (chunkArray ps (batchSize this))\<rparr>)" for ps
    using OpenAI_generate_answered [OF assms(2-8), of ps s]
    by (simp add: generateUncached_quiet_hooks [OF assms(1)])
  show ?thesis
  proof (cases "cache this = Some False")
    case True
    then show ?thesis by (simp add: generate_bypass run)
  next
    case False
    let ?found = "map (\<lambda>p. cacheLookup (store s) (Some p) ?k) prompts"
    let ?missing = "filter (\<lambda>index. ?found ! index = None) [0..<length ?found]"
    let ?h = "\<lambda>i. Some (map toGeneration (reply (prompts ! i)))"
    let ?s' = "s\<lparr>sent := sent s @ map (\<lambda>sub. \<lparr>params = effectiveParams this stopArg, prompt = sub\<rparr>)
                                  (chunkArray (map (\<lambda>i. prompts ! i) ?missing) (batchSize this))\<rparr>"
    let ?fill = "cacheFill prompts ?missing ?k (map ?h (drop 0 ?missing)) 0 (?found, store ?s')"
    have m: "distinct ?missing" "\<forall>i \<in> set ?missing. i < length ?found"
      "\<forall>i < length ?found. i \<in> set ?missing \<longleftrightarrow> ?found ! i = None"
      using missing_indices [of ?found] by blast+
    from cacheFill_exact [OF m(1) m(2), of prompts ?k ?h 0 "store ?s'"]
    have len: "length (fst ?fill) = length ?found"
      and nth: "\<forall>i < length ?found.
                  fst ?fill ! i = (if i \<in> set (drop 0 ?missing) then ?h i else ?found ! i)"
      by blast+
    have "fst ?fill =
            map (\<lambda>p. case cacheLookup (store s) (Some p) ?k of
                        Some g \<Rightarrow> Some g
                      | None \<Rightarrow> Some (map toGeneration (reply p))) prompts"
    proof (rule nth_equalityI)
      show "length (fst ?fill) = length (map (\<lambda>p. case cacheLookup (store s) (Some p) ?k of
                        Some g \<Rightarrow> Some g
                      | None \<Rightarrow> Some (map toGeneration (reply p))) prompts)"
        using len by simp
    next
      fix i
      assume "i < length (fst ?fill)"
      with len have i: "i < length prompts" by simp
      with nth m(3) show "fst ?fill ! i =
            map (\<lambda>p. case cacheLookup (store s) (Some p) ?k of
                        Some g \<Rightarrow> Some g
                      | None \<Rightarrow> Some (map toGeneration (reply p))) prompts ! i"
        by (cases "cacheLookup (store s) (Some (prompts ! i)) ?k") simp_all
    qed
    moreover have "generate this E prompts stopArg s =
        (if ?missing = [] then (Fulfilled \<lparr>generations = ?found, llmOutput = None\<rparr>, s)
         else (Fulfilled \<lparr>generations = fst ?fill,
                           llmOutput = Some (foldl addUsage emptyUsage
                                  (map reported (chunkArray (map (\<lambda>i. prompts ! i) ?missing) (batchSize this))))\<rparr>,
               ?s'\<lparr>store := snd ?fill\<rparr>))"
      using False by (simp add: generate_def Let_def run comp_def split: prod.splits)
    moreover have "?missing = [] \<Longrightarrow> fst ?fill = ?found"
      by simp
    ultimately show ?thesis
      by (cases "?missing = []") (simp_all add: False)
  qed
qed

section \<open>The cached path against a provider that answers\<close>

lemma cacheFill_store:
  assumes "\<forall>i \<in> set missing. i < length prompts"
  shows "snd (cacheFill prompts missing llmKey (map (\<lambda>i. v (prompts ! i)) (drop index missing)) index
                (gens, c)) (po, key')
           = (case po of
                Some p \<Rightarrow>
                  if key' = llmKey \<and> p \<in> (\<lambda>i. prompts ! i) ` set (drop index missing)
                    then v p else c (po, key')
              | None \<Rightarrow> c (po, key'))"
proof (induction "length missing - index" arbitrary: index gens c)
  case 0
  then have "drop index missing = []" by simp
  then show ?case by (simp split: option.split)
next
  case (Suc k)
  then have idx: "index < length missing" by simp
  let ?pi = "missing ! index"
  let ?g1 = "gens[?pi := v (prompts ! ?pi)]"
  let ?c1 = "cacheUpdate c (nth_opt prompts ?pi) llmKey (v (prompts ! ?pi))"
  let ?rest = "drop (Suc index) missing"
  have split: "drop index missing = ?pi # ?rest"
    using idx by (simp add: Cons_nth_drop_Suc)
  have step: "cacheFill prompts missing llmKey (map (\<lambda>i. v (prompts ! i)) (drop index missing)) index (gens, c)
                = cacheFill prompts missing llmKey (map (\<lambda>i. v (prompts ! i)) ?rest) (Suc index) (?g1, ?c1)"
    using idx by (simp add: split nth_opt_def)
  have k: "k = length missing - Suc index" using Suc.hyps(2) by simp
  note ih = Suc.hyps(1) [OF k, of ?g1 ?c1]
  have inrange: "?pi < length prompts" using assms idx by simp
  then have c1: "?c1 (po, key') = (if po = Some (prompts ! ?pi) \<and> key' = llmKey
                                    then v (prompts ! ?pi) else c (po, key'))"
    by (simp add: cacheUpdate_def nth_opt_def)
  have "snd (cacheFill prompts missing llmKey (map (\<lambda>i. v (prompts ! i)) (drop index missing)) index
                (gens, c)) (po, key')
          = (case po of
                Some p \<Rightarrow>
                  if key' = llmKey \<and> p \<in> (\<lambda>i. prompts ! i) ` set ?rest
                    then v p else ?c1 (po, key')
              | None \<Rightarrow> ?c1 (po, key'))"
    by (simp only: step ih)
  also have "\<dots> = (case po of
                Some p \<Rightarrow>
                  if key' = llmKey \<and> p \<in> (\<lambda>i. prompts ! i) ` set (?pi # ?rest)
                    then v p else c (po, key')
              | None \<Rightarrow> c (po, key'))"
    unfolding c1 by (cases po) auto
  finally show ?case unfolding split .
qed

lemma generate_plain_exact:
  assumes "quiet (callbackManager this)"
    and "0 < batchSize this" and "0 < n this"
    and "stop this = None \<or> stopArg = None"
    and "\<not> truthy (getProp (effectiveParams this stopArg) ''stream'')"
    and "plTags this = None \<or> (\<forall>t. fetch E t = Fulfilled ())"
    and "\<forall>h sub. createCompletion E h \<lparr>params = effectiveParams this stopArg, prompt = sub\<rparr>
              = Fulfilled (Body (concat (map reply sub)) (reported sub))"
    and "\<forall>p. length (reply p) = n this"
    and "cache this \<noteq> Some False"
  shows "generate this E prompts stopArg s =
           (Fulfilled
              \<lparr>generations =
                 map (\<lambda>p. case cacheLookup (store s) (Some p) (llmStringKey this stopArg) of
                             Some g \<Rightarrow> Some g
                           | None \<Rightarrow> Some (map toGeneration (reply p)))
                   prompts,
               llmOutput =
                 (if missed this prompts stopArg s = [] then None
                  else Some (foldl addUsage emptyUsage
                               (map reported
                                  (chunkArray (missed this prompts stopArg s) (batchSize this)))))\<rparr>,
            s\<lparr>sent := sent s @ map (\<lambda>sub. \<lparr>params = effectiveParams this stopArg, prompt = sub\<rparr>)
                                  (chunkArray (missed this prompts stopArg s) (batchSize this)),
              store := (\<lambda>(po, key').
                          case po of
                            Some p \<Rightarrow>
                              if key' = llmStringKey this stopArg
                                   \<and> p \<in> set (missed this prompts stopArg s)
                                then Some (map toGeneration (reply p))
                                else store s (po, key')
                          | None \<Rightarrow> store s (po, key'))\<rparr>)"
proof -
  let ?k = "llmStringKey this stopArg"
  let ?v = "\<lambda>p. Some (map toGeneration (reply p))"
  let ?found = "map (\<lambda>p. cacheLookup (store s) (Some p) ?k) prompts"
  let ?missing = "filter (\<lambda>index. ?found ! index = None) [0..<length prompts]"
  let ?missed = "missed this prompts stopArg s"
  let ?sent = "sent s @ map (\<lambda>sub. \<lparr>params = effectiveParams this stopArg, prompt = sub\<rparr>)
                                  (chunkArray ?missed (batchSize this))"
  let ?F = "\<lambda>(po, key').
              case po of
                Some p \<Rightarrow> if key' = ?k \<and> p \<in> set ?missed then ?v p else store s (po, key')
              | None \<Rightarrow> store s (po, key')"
  let ?gens = "map (\<lambda>p. case cacheLookup (store s) (Some p) ?k of
                             Some g \<Rightarrow> Some g | None \<Rightarrow> ?v p) prompts"
  have run: "generateUncached this E ps stopArg s =
           (Fulfilled
              \<lparr>generations = map ?v ps,
               llmOutput = Some (foldl addUsage emptyUsage
                                  (map reported (chunkArray ps (batchSize this))))\<rparr>,
            s\<lparr>sent := sent s @ map (\<lambda>sub. \<lparr>params = effectiveParams this stopArg, prompt = sub\<rparr>)
                                  (chunkArray ps (batchSize this))\<rparr>)" for ps
    using OpenAI_generate_answered [OF assms(2-8), of ps s]
    by (simp add: generateUncached_quiet_hooks [OF assms(1)])
  have sub: "map (\<lambda>i. prompts ! i) ?missing = ?missed"
    unfolding missed_def by (rule missed_prompts)
  have len: "length ?found = length prompts" by simp
  have m: "distinct ?missing" "\<forall>i \<in> set ?missing. i < length ?found"
      "\<forall>i < length ?found. i \<in> set ?missing \<longleftrightarrow> ?found ! i = None"
      "\<forall>i \<in> set ?missing. i < length prompts"
    using missing_indices [of ?found] unfolding len by blast+
  show ?thesis
  proof (cases "?missing = []")
    case True
    then have none: "?missed = []" using sub by simp
    have "\<forall>i < length prompts. ?found ! i \<noteq> None"
      using m(3) True by simp
    then have "?found = ?gens"
      by (intro nth_equalityI) (auto split: option.split)
    moreover have "?F = store s"
      by (rule ext) (simp add: none split: prod.split option.split)
    moreover have "generate this E prompts stopArg s = (Fulfilled \<lparr>generations = ?found, llmOutput = None\<rparr>, s)"
      using assms(9) True by (simp add: generate_def Let_def)
    ultimately show ?thesis by (simp add: none)
  next
    case False
    then have some: "?missed \<noteq> []" using sub by (metis map_is_Nil_conv)
    let ?s' = "s\<lparr>sent := ?sent\<rparr>"
    let ?fill = "cacheFill prompts ?missing ?k (map (\<lambda>i. ?v (prompts ! i)) (drop 0 ?missing)) 0
                   (?found, store ?s')"
    from cacheFill_exact [OF m(1) m(2), of prompts ?k "\<lambda>i. ?v (prompts ! i)" 0 "store ?s'"]
    have flen: "length (fst ?fill) = length ?found"
      and nth: "\<forall>i < length ?found.
                  fst ?fill ! i = (if i \<in> set (drop 0 ?missing) then ?v (prompts ! i) else ?found ! i)"
      by blast+
    have gens: "fst ?fill = ?gens"
    proof (rule nth_equalityI)
      show "length (fst ?fill) = length ?gens" using flen by simp
    next
      fix i
      assume "i < length (fst ?fill)"
      with flen have i: "i < length prompts" by simp
      with nth m(3) show "fst ?fill ! i = ?gens ! i"
        by (cases "cacheLookup (store s) (Some (prompts ! i)) ?k") simp_all
    qed
    have img: "(\<lambda>i. prompts ! i) ` set ?missing = set ?missed"
      using sub by (metis set_map)
    have stored: "snd ?fill = ?F"
    proof (rule ext)
      fix key :: "string option \<times> string"
      obtain po key' where key: "key = (po, key')" by (cases key)
      show "snd ?fill key = ?F key"
        unfolding key
        using cacheFill_store [OF m(4), of ?k ?v 0 ?found "store ?s'" po key'] img
        by (simp split: option.split)
    qed
    have "generate this E prompts stopArg s =
        (Fulfilled \<lparr>generations = fst ?fill,
                     llmOutput = Some (foldl addUsage emptyUsage
                                  (map reported (chunkArray ?missed (batchSize this))))\<rparr>,
         ?s'\<lparr>store := snd ?fill\<rparr>)"
    proof -
      have genfact: "map ?v ?missed = map (\<lambda>i. ?v (prompts ! i)) ?missing"
        unfolding sub [symmetric] by (simp add: comp_def)
      show ?thesis
        using assms(9) False
        by (simp add: generate_def Let_def run sub genfact case_prod_beta)
    qed
    then show ?thesis
      unfolding gens stored using some by simp
  qed
qed

section \<open>Caching by default\<close>

text \<open>
  C10.  The constructor stores the \<open>cache\<close> option as given, so an instance built
  without it has \<open>cache\<close> undefined.  Every instance whose \<open>cache\<close> is not \<open>false\<close>
  (undefined or \<open>true\<close>) takes the cached path, and behaves as with \<open>cache = true\<close>: the
  module-level cache is looked up first; when every prompt is found nothing is sent and
  the cached lists are returned; a prompt found in the cache is answered from it; and
  every prompt that gets a generation list is in the cache afterwards.  Against a
  provider that answers every prompt of a plain request, the call is determined: a
  prompt that the cache holds is answered from the cache and is not sent; the prompts
  that it does not hold, and only those, are sent, in sub-batches; each of them is
  answered with the generations made of the provider's choices, and exactly these lists
  are written to the cache under the prompt and the key of the call, every other entry
  of the cache staying as it was.  Only an instance with \<open>cache = false\<close> bypasses the
  cache: \<open>generate\<close> is then the uncached path, which neither reads nor writes the cache,
  and sends every prompt whatever the cache holds.
\<close>

theorem caching_by_default:
  "(newOpenAI input configuration key = Inr this \<longrightarrow> cache this = f_cache input)
   \<and> (cache this \<noteq> Some False
        \<longrightarrow> generate this E prompts stopArg s
              = generate (this\<lparr>cache := Some True\<rparr>) E prompts stopArg s)
   \<and> (cache this \<noteq> Some False
        \<and> (\<forall>p \<in> set prompts.
              cacheLookup (store s) (Some p) (llmStringKey this stopArg) \<noteq> None)
        \<longrightarrow> generate this E prompts stopArg s
              = (Fulfilled
                   \<lparr>generations =
                      map (\<lambda>p. cacheLookup (store s) (Some p) (llmStringKey this stopArg)) prompts,
                    llmOutput = None\<rparr>,
                 s))
   \<and> (cache this \<noteq> Some False \<and> generate this E prompts stopArg s = (Fulfilled r, s1)
        \<longrightarrow> length (generations r) = length prompts
            \<and> (\<forall>i < length prompts. \<forall>g.
                  cacheLookup (store s) (Some (prompts ! i)) (llmStringKey this stopArg) = Some g
                    \<longrightarrow> generations r ! i = Some g)
            \<and> (\<forall>i < length prompts.
                  generations r ! i \<noteq> None
                    \<longrightarrow> cacheLookup (store s1) (Some (prompts ! i)) (llmStringKey this stopArg)
                          \<noteq> None))
   \<and> (cache this \<noteq> Some False
        \<and> quiet (callbackManager this) \<and> 0 < batchSize this \<and> 0 < n this
        \<and> (stop this = None \<or> stopArg = None)
        \<and> \<not> truthy (getProp (effectiveParams this stopArg) ''stream'')
        \<and> (plTags this = None \<or> (\<forall>t. fetch E t = Fulfilled ()))
        \<and> (\<forall>h sub. createCompletion E h \<lparr>params = effectiveParams this stopArg, prompt = sub\<rparr>
                      = Fulfilled (Body (concat (map reply sub)) (reported sub)))
        \<and> (\<forall>p. length (reply p) = n this)
        \<longrightarrow> generate this E prompts stopArg s =
              (Fulfilled
                 \<lparr>generations =
                    map (\<lambda>p. case cacheLookup (store s) (Some p) (llmStringKey this stopArg) of
                                Some g \<Rightarrow> Some g
                              | None \<Rightarrow> Some (map toGeneration (reply p)))
                      prompts,
                  llmOutput =
                    (if missed this prompts stopArg s = [] then None
                     else Some (foldl addUsage emptyUsage
                                  (map reported
                                     (chunkArray (missed this prompts stopArg s) (batchSize this)))))\<rparr>,
               s\<lparr>sent := sent s @ map (\<lambda>sub. \<lparr>params = effectiveParams this stopArg, prompt = sub\<rparr>)
                                     (chunkArray (missed this prompts stopArg s) (batchSize this)),
                 store := (\<lambda>(po, key').
                             case po of
                               Some p \<Rightarrow>
                                 if key' = llmStringKey this stopArg
                                      \<and> p \<in> set (missed this prompts stopArg s)
                                   then Some (map toGeneration (reply p))
                                   else store s (po, key')
                             | None \<Rightarrow> store s (po, key'))\<rparr>))
   \<and> (cache this = Some False
        \<longrightarrow> generate this E prompts stopArg s = generateUncached this E prompts stopArg s
            \<and> store (snd (generate this E prompts stopArg s)) = store s
            \<and> generate this E prompts stopArg (s\<lparr>store := c\<rparr>)
                = (fst (generate this E prompts stopArg s),
                   (snd (generate this E prompts stopArg s))\<lparr>store := c\<rparr>))
   \<and> (cache this = Some False
        \<and> quiet (callbackManager this) \<and> 0 < batchSize this \<and> 0 < n this
        \<and> (stop this = None \<or> stopArg = None)
        \<and> \<not> truthy (getProp (effectiveParams this stopArg) ''stream'')
        \<and> (plTags this = None \<or> (\<forall>t. fetch E t = Fulfilled ()))
        \<and> (\<forall>h sub. createCompletion E h \<lparr>params = effectiveParams this stopArg, prompt = sub\<rparr>
                      = Fulfilled (Body (concat (map reply sub)) (reported sub)))
        \<and> (\<forall>p. length (reply p) = n this)
        \<longrightarrow> generate this E prompts stopArg s =
              (Fulfilled
                 \<lparr>generations = map (\<lambda>p. Some (map toGeneration (reply p))) prompts,
                  llmOutput = Some (foldl addUsage emptyUsage
                                      (map reported (chunkArray prompts (batchSize this))))\<rparr>,
               s\<lparr>sent := sent s @ map (\<lambda>sub. \<lparr>params = effectiveParams this stopArg, prompt = sub\<rparr>)
                                     (chunkArray prompts (batchSize this))\<rparr>))"
proof (intro conjI impI)
  assume "newOpenAI input configuration key = Inr this"
  then show "cache this = f_cache input"
    by (auto simp: newOpenAI_def Let_def split: if_splits)
next
  assume "cache this \<noteq> Some False"
  then show "generate this E prompts stopArg s
              = generate (this\<lparr>cache := Some True\<rparr>) E prompts stopArg s"
    by (rule generate_cache_on)
next
  assume "cache this \<noteq> Some False
        \<and> (\<forall>p \<in> set prompts.
              cacheLookup (store s) (Some p) (llmStringKey this stopArg) \<noteq> None)"
  then show "generate this E prompts stopArg s
              = (Fulfilled
                   \<lparr>generations =
                      map (\<lambda>p. cacheLookup (store s) (Some p) (llmStringKey this stopArg)) prompts,
                    llmOutput = None\<rparr>,
                 s)"
    by (intro generate_all_hits) simp_all
next
  assume a: "cache this \<noteq> Some False \<and> generate this E prompts stopArg s = (Fulfilled r, s1)"
  then have "length (generations r) = length prompts
       \<and> (\<forall>i < length prompts. \<forall>g.
             cacheLookup (store s) (Some (prompts ! i)) (llmStringKey this stopArg) = Some g
               \<longrightarrow> generations r ! i = Some g)
       \<and> (\<forall>i < length prompts.
             generations r ! i \<noteq> None
               \<longrightarrow> cacheLookup (store s1) (Some (prompts ! i)) (llmStringKey this stopArg) \<noteq> None)"
    using generate_cached_Fulfilled [of this E prompts stopArg s r s1] by blast
  then show "length (generations r) = length prompts"
    and "\<forall>i < length prompts. \<forall>g.
             cacheLookup (store s) (Some (prompts ! i)) (llmStringKey this stopArg) = Some g
               \<longrightarrow> generations r ! i = Some g"
    and "\<forall>i < length prompts.
             generations r ! i \<noteq> None
               \<longrightarrow> cacheLookup (store s1) (Some (prompts ! i)) (llmStringKey this stopArg) \<noteq> None"
    by simp_all
next
  assume h: "cache this \<noteq> Some False
        \<and> quiet (callbackManager this) \<and> 0 < batchSize this \<and> 0 < n this
        \<and> (stop this = None \<or> stopArg = None)
        \<and> \<not> truthy (getProp (effectiveParams this stopArg) ''stream'')
        \<and> (plTags this = None \<or> (\<forall>t. fetch E t = Fulfilled ()))
        \<and> (\<forall>h sub. createCompletion E h \<lparr>params = effectiveParams this stopArg, prompt = sub\<rparr>
                      = Fulfilled (Body (concat (map reply sub)) (reported sub)))
        \<and> (\<forall>p. length (reply p) = n this)"
  then have h1: "quiet (callbackManager this)" and h2: "0 < batchSize this" and h3: "0 < n this"
    and h4: "stop this = None \<or> stopArg = None"
    and h5: "\<not> truthy (getProp (effectiveParams this stopArg) ''stream'')"
    and h6: "plTags this = None \<or> (\<forall>t. fetch E t = Fulfilled ())"
    and h7: "\<forall>h sub. createCompletion E h \<lparr>params = effectiveParams this stopArg, prompt = sub\<rparr>
                      = Fulfilled (Body (concat (map reply sub)) (reported sub))"
    and h8: "\<forall>p. length (reply p) = n this"
    and h9: "cache this \<noteq> Some False"
    by blast+
  show "generate this E prompts stopArg s =
              (Fulfilled
                 \<lparr>generations =
                    map (\<lambda>p. case cacheLookup (store s) (Some p) (llmStringKey this stopArg) of
                                Some g \<Rightarrow> Some g
                              | None \<Rightarrow> Some (map toGeneration (reply p)))
                      prompts,
                  llmOutput =
                    (if missed this prompts stopArg s = [] then None
                     else Some (foldl addUsage emptyUsage
                                  (map reported
                                     (chunkArray (missed this prompts stopArg s) (batchSize this)))))\<rparr>,
               s\<lparr>sent := sent s @ map (\<lambda>sub. \<lparr>params = effectiveParams this stopArg, prompt = sub\<rparr>)
                                     (chunkArray (missed this prompts stopArg s) (batchSize this)),
                 store := (\<lambda>(po, key').
                             case po of
                               Some p \<Rightarrow>
                                 if key' = llmStringKey this stopArg
                                      \<and> p \<in> set (missed this prompts stopArg s)
                                   then Some (map toGeneration (reply p))
                                   else store s (po, key')
                             | None \<Rightarrow> store s (po, key'))\<rparr>)"
    using h1 h2 h3 h4 h5 h6 h7 h8 h9 by (rule generate_plain_exact)
next
  assume off: "cache this = Some False"
  then show "generate this E prompts stopArg s = generateUncached this E prompts stopArg s"
    by (rule generate_bypass)
  have eq: "generate this E prompts stopArg = generateUncached this E prompts stopArg"
    using off by (intro ext generate_bypass)
  show "store (snd (generate this E prompts stopArg s)) = store s"
    unfolding eq by (rule storeBlind_store [OF storeBlind_generateUncached])
  show "generate this E prompts stopArg (s\<lparr>store := c\<rparr>)
                = (fst (generate this E prompts stopArg s),
                   (snd (generate this E prompts stopArg s))\<lparr>store := c\<rparr>)"
    unfolding eq by (rule storeBlindD [OF storeBlind_generateUncached])
next
  assume h: "cache this = Some False
        \<and> quiet (callbackManager this) \<and> 0 < batchSize this \<and> 0 < n this
        \<and> (stop this = None \<or> stopArg = None)
        \<and> \<not> truthy (getProp (effectiveParams this stopArg) ''stream'')
        \<and> (plTags this = None \<or> (\<forall>t. fetch E t = Fulfilled ()))
        \<and> (\<forall>h sub. createCompletion E h \<lparr>params = effectiveParams this stopArg, prompt = sub\<rparr>
                      = Fulfilled (Body (concat (map reply sub)) (reported sub)))
        \<and> (\<forall>p. length (reply p) = n this)"
  then have h1: "quiet (callbackManager this)" and h2: "0 < batchSize this" and h3: "0 < n this"
    and h4: "stop this = None \<or> stopArg = None"
    and h5: "\<not> truthy (getProp (effectiveParams this stopArg) ''stream'')"
    and h6: "plTags this = None \<or> (\<forall>t. fetch E t = Fulfilled ())"
    and h7: "\<forall>h sub. createCompletion E h \<lparr>params = effectiveParams this stopArg, prompt = sub\<rparr>
                      = Fulfilled (Body (concat (map reply sub)) (reported sub))"
    and h8: "\<forall>p. length (reply p) = n this"
    and off: "cache this = Some False"
    by blast+
  show "generate this E prompts stopArg s =
              (Fulfilled
                 \<lparr>generations = map (\<lambda>p. Some (map toGeneration (reply p))) prompts,
                  llmOutput = Some (foldl addUsage emptyUsage
                                      (map reported (chunkArray prompts (batchSize this))))\<rparr>,
               s\<lparr>sent := sent s @ map (\<lambda>sub. \<lparr>params = effectiveParams this stopArg, prompt = sub\<rparr>)
                                     (chunkArray prompts (batchSize this))\<rparr>)"
    unfolding generate_bypass [OF off] generateUncached_quiet_hooks [OF h1]
    using h2 h3 h4 h5 h6 h7 h8 by (rule OpenAI_generate_answered)
qed


theorem caching_by_default_witness:
  "cache defaultOpenAI = None
   \<and> generate defaultOpenAI echo [''p''] None initial
       = generate (defaultOpenAI\<lparr>cache := Some True\<rparr>) echo [''p''] None initial
   \<and> fst (generate defaultOpenAI echo [''p''] None initial)
       = Fulfilled \<lparr>generations = [Some [toGeneration (echoChoice ''p'')]],
                    llmOutput = Some emptyUsage\<rparr>
   \<and> sent (snd (generate defaultOpenAI echo [''p''] None initial))
       = [\<lparr>params = effectiveParams defaultOpenAI None, prompt = [''p'']\<rparr>]
   \<and> cacheLookup (store (snd (generate defaultOpenAI echo [''p''] None initial))) (Some ''p'')
         (llmStringKey defaultOpenAI None) = Some [toGeneration (echoChoice ''p'')]
   \<and> generate defaultOpenAI echo [''p''] None (snd (generate defaultOpenAI echo [''p''] None initial))
       = (Fulfilled \<lparr>generations = [Some [toGeneration (echoChoice ''p'')]], llmOutput = None\<rparr>,
          snd (generate defaultOpenAI echo [''p''] None initial))
   \<and> fst (generate defaultOpenAI echo [''p'', ''r''] None
            (snd (generate defaultOpenAI echo [''p''] None initial)))
       = Fulfilled \<lparr>generations = [Some [toGeneration (echoChoice ''p'')],
                                    Some [toGeneration (echoChoice ''r'')]],
                    llmOutput = Some emptyUsage\<rparr>
   \<and> sent (snd (generate defaultOpenAI echo [''p'', ''r''] None
                  (snd (generate defaultOpenAI echo [''p''] None initial))))
       = [\<lparr>params = effectiveParams defaultOpenAI None, prompt = [''p'']\<rparr>,
          \<lparr>params = effectiveParams defaultOpenAI None, prompt = [''r'']\<rparr>]
   \<and> generate (defaultOpenAI\<lparr>cache := Some False\<rparr>) echo [''p''] None
         (snd (generate defaultOpenAI echo [''p''] None initial))
       = (Fulfilled \<lparr>generations = [Some [toGeneration (echoChoice ''p'')]],
                     llmOutput = Some emptyUsage\<rparr>,
          (snd (generate defaultOpenAI echo [''p''] None initial))
            \<lparr>sent := [\<lparr>params = effectiveParams defaultOpenAI None, prompt = [''p'']\<rparr>,
                       \<lparr>params = effectiveParams defaultOpenAI None, prompt = [''p'']\<rparr>]\<rparr>)
   \<and> store (snd (generate (defaultOpenAI\<lparr>cache := Some False\<rparr>) echo [''p''] None initial))
       = store initial"
proof -
  let ?k = "llmStringKey defaultOpenAI None"
  let ?off = "defaultOpenAI\<lparr>cache := Some False\<rparr>"
  let ?ps = "effectiveParams defaultOpenAI None"
  let ?reply = "\<lambda>p. [echoChoice p]"
  let ?reported = "\<lambda>sub :: string list. None :: usage option"
  have a: "cache defaultOpenAI \<noteq> Some False" by (simp add: defaultOpenAI_def)
  have provider: "quiet (callbackManager I) \<and> 0 < batchSize I \<and> 0 < n I
        \<and> (stop I = None \<or> None = (None :: string list option))
        \<and> \<not> truthy (getProp (effectiveParams I None) ''stream'')
        \<and> (plTags I = None \<or> (\<forall>t. fetch echo t = Fulfilled ()))
        \<and> (\<forall>h sub. createCompletion echo h \<lparr>params = effectiveParams I None, prompt = sub\<rparr>
                      = Fulfilled (Body (concat (map ?reply sub)) (?reported sub)))
        \<and> (\<forall>p. length (?reply p) = n I)"
    if "I = defaultOpenAI \<or> I = ?off" for I
    using that
    by (auto simp: defaultOpenAI_def quiet_getCallbackManager stream_of_effectiveParams echo_def)
  have one: "chunkArray [x] (batchSize defaultOpenAI) = [[x]]" for x :: string
    by (simp add: chunkArray_single defaultOpenAI_def)
  have w1: "cache defaultOpenAI = None"
    using caching_by_default [where input = "noFields\<lparr>f_openAIApiKey := Some ''sk''\<rparr>"
        and configuration = None and key = None and this = defaultOpenAI]
      newOpenAI_default
    by (simp add: noFields_def)
  have w2: "generate defaultOpenAI echo [''p''] None initial
       = generate (defaultOpenAI\<lparr>cache := Some True\<rparr>) echo [''p''] None initial"
    using caching_by_default [where this = defaultOpenAI and E = echo and prompts = "[''p'']"
        and stopArg = None and s = initial] a
    by blast
  have miss0: "missed defaultOpenAI [''p''] None initial = [''p'']"
    by (simp add: missed_def initial_def InMemoryCache_def cacheLookup_def)
  obtain s1 where s1: "s1 = snd (generate defaultOpenAI echo [''p''] None initial)" by simp
  have first: "generate defaultOpenAI echo [''p''] None initial =
      (Fulfilled \<lparr>generations = [Some [toGeneration (echoChoice ''p'')]], llmOutput = Some emptyUsage\<rparr>,
       initial\<lparr>sent := [\<lparr>params = ?ps, prompt = [''p'']\<rparr>],
               store := (\<lambda>(po, key').
                             case po of
                               Some p \<Rightarrow>
                                 if key' = ?k \<and> p \<in> set [''p'']
                                   then Some (map toGeneration (?reply p))
                                   else store initial (po, key')
                             | None \<Rightarrow> store initial (po, key'))\<rparr>)"
    using caching_by_default [where this = defaultOpenAI and E = echo and prompts = "[''p'']"
        and stopArg = None and s = initial and reply = ?reply and reported = ?reported,
        THEN conjunct2, THEN conjunct2, THEN conjunct2, THEN conjunct2, THEN conjunct1]
      a provider [of defaultOpenAI]
    unfolding miss0
    by (simp add: one addUsage_None initial_def InMemoryCache_def cacheLookup_def)
  have w3: "fst (generate defaultOpenAI echo [''p''] None initial)
       = Fulfilled \<lparr>generations = [Some [toGeneration (echoChoice ''p'')]],
                    llmOutput = Some emptyUsage\<rparr>"
    by (simp add: first)
  have sent1: "sent s1 = [\<lparr>params = ?ps, prompt = [''p'']\<rparr>]"
    by (simp add: s1 first)
  have hit: "cacheLookup (store s1) (Some ''p'') ?k = Some [toGeneration (echoChoice ''p'')]"
    by (simp add: s1 first cacheLookup_def)
  have "store s1 (Some ''r'', ?k) = store initial (Some ''r'', ?k)"
    by (simp add: s1 first)
  then have other: "cacheLookup (store s1) (Some ''r'') ?k = None"
    by (simp add: cacheLookup_def initial_def InMemoryCache_def)
  have w6: "generate defaultOpenAI echo [''p''] None s1
       = (Fulfilled \<lparr>generations = [Some [toGeneration (echoChoice ''p'')]], llmOutput = None\<rparr>, s1)"
    using caching_by_default [where this = defaultOpenAI and E = echo and prompts = "[''p'']"
        and stopArg = None and s = s1, THEN conjunct2, THEN conjunct2, THEN conjunct1] a hit
    by simp
  have miss1: "missed defaultOpenAI [''p'', ''r''] None s1 = [''r'']"
    by (simp add: missed_def hit other)
  have second: "generate defaultOpenAI echo [''p'', ''r''] None s1 =
      (Fulfilled \<lparr>generations = [Some [toGeneration (echoChoice ''p'')],
                                  Some [toGeneration (echoChoice ''r'')]],
                  llmOutput = Some emptyUsage\<rparr>,
       s1\<lparr>sent := [\<lparr>params = ?ps, prompt = [''p'']\<rparr>, \<lparr>params = ?ps, prompt = [''r'']\<rparr>],
          store := (\<lambda>(po, key').
                             case po of
                               Some p \<Rightarrow>
                                 if key' = ?k \<and> p \<in> set [''r'']
                                   then Some (map toGeneration (?reply p))
                                   else store s1 (po, key')
                             | None \<Rightarrow> store s1 (po, key'))\<rparr>)"
    using caching_by_default [where this = defaultOpenAI and E = echo and prompts = "[''p'', ''r'']"
        and stopArg = None and s = s1 and reply = ?reply and reported = ?reported,
        THEN conjunct2, THEN conjunct2, THEN conjunct2, THEN conjunct2, THEN conjunct1]
      a provider [of defaultOpenAI]
    unfolding miss1
    by (simp add: one addUsage_None hit other sent1)
  have w7: "fst (generate defaultOpenAI echo [''p'', ''r''] None s1)
       = Fulfilled \<lparr>generations = [Some [toGeneration (echoChoice ''p'')],
                                    Some [toGeneration (echoChoice ''r'')]],
                    llmOutput = Some emptyUsage\<rparr>"
    by (simp add: second)
  have w8: "sent (snd (generate defaultOpenAI echo [''p'', ''r''] None s1))
       = [\<lparr>params = ?ps, prompt = [''p'']\<rparr>, \<lparr>params = ?ps, prompt = [''r'']\<rparr>]"
    by (simp add: second)
  have off: "cache ?off = Some False" by simp
  have w9: "generate ?off echo [''p''] None s1
       = (Fulfilled \<lparr>generations = [Some [toGeneration (echoChoice ''p'')]],
                     llmOutput = Some emptyUsage\<rparr>,
          s1\<lparr>sent := [\<lparr>params = ?ps, prompt = [''p'']\<rparr>, \<lparr>params = ?ps, prompt = [''p'']\<rparr>]\<rparr>)"
    using caching_by_default [where this = ?off and E = echo and prompts = "[''p'']"
        and stopArg = None and s = s1 and reply = ?reply and reported = ?reported,
        THEN conjunct2, THEN conjunct2, THEN conjunct2, THEN conjunct2, THEN conjunct2,
        THEN conjunct2]
      off provider [of ?off]
    by (simp add: one chunkArray_single addUsage_None sent1)
  have w10: "store (snd (generate ?off echo [''p''] None initial)) = store initial"
    using caching_by_default [where this = ?off and E = echo and prompts = "[''p'']"
        and stopArg = None and s = initial] off
    by blast
  show ?thesis
    unfolding s1 [symmetric]
    apply (intro conjI)
             apply (rule w1)
            apply (rule w2)
           apply (rule w3)
          apply (rule sent1)
         apply (rule hit)
        apply (rule w6)
       apply (rule w7)
      apply (rule w8)
     apply (rule w9)
    apply (rule w10)
    done
qed

section \<open>Stop lists that print alike\<close>

lemma map_insort_key: "map f (insort_key f x xs) = insort (f x) (map f xs)"
  by (induction xs) simp_all

lemma map_sort_key: "map f (sort_key f xs) = sort (map f xs)"
  by (induction xs) (simp_all add: map_insort_key)

lemma entries_setProp:
  "entryString (k, v) = entryString (k, w)
     \<Longrightarrow> map entryString (setProp ob k v) = map entryString (setProp ob k w)"
  by (induction ob) auto

lemma llmStringKey_comma:
  "llmStringKey this (Some [''a'', ''b'']) = llmStringKey this (Some [''a,b''])"
proof -
  have "entryString (''stop'', stopValue (Some [''a'', ''b'']))
          = entryString (''stop'', stopValue (Some [''a,b'']))"
    by (simp add: entryString_def element_def)
  then have "map entryString (setProp (serialize this) ''stop'' (stopValue (Some [''a'', ''b''])))
          = map entryString (setProp (serialize this) ''stop'' (stopValue (Some [''a,b''])))"
    by (rule entries_setProp)
  then show ?thesis
    by (simp add: llmStringKey_def entriesSortedString_def map_sort_key)
qed

section \<open>The cache key against the stop list in effect\<close>

lemma llmStringKey_constructor_or_argument:
  "llmStringKey (defaultOpenAI\<lparr>stop := Some [''x'']\<rparr>) None
     \<noteq> llmStringKey defaultOpenAI (Some [''x''])"
  by code_simp

text \<open>
  C3, at failing inputs.  Two instances that differ only in the stop list given to the
  constructor, called without a stop argument: \<open>generate\<close> derives the same cache key for
  both, while the requests of \<open>_generate\<close> carry their different stop lists.  And the same
  stop list, given to the constructor by one instance and as the call argument by
  another that is otherwise equal: the requests carry the same stop list, while the
  cache keys differ.
\<close>

theorem cache_key_ignores_constructor_stop:
  "llmStringKey (defaultOpenAI\<lparr>stop := Some [''END'']\<rparr>) None
     = llmStringKey (defaultOpenAI\<lparr>stop := Some [''###'']\<rparr>) None
   \<and> getProp (effectiveParams (defaultOpenAI\<lparr>stop := Some [''END'']\<rparr>) None) ''stop''
       = JArr [JStr ''END'']
   \<and> getProp (effectiveParams (defaultOpenAI\<lparr>stop := Some [''###'']\<rparr>) None) ''stop''
       = JArr [JStr ''###'']
   \<and> getProp (effectiveParams (defaultOpenAI\<lparr>stop := Some [''x'']\<rparr>) None) ''stop''
       = getProp (effectiveParams defaultOpenAI (Some [''x''])) ''stop''
   \<and> llmStringKey (defaultOpenAI\<lparr>stop := Some [''x'']\<rparr>) None
       \<noteq> llmStringKey defaultOpenAI (Some [''x''])"
proof -
  have "llmStringKey (defaultOpenAI\<lparr>stop := Some [''END'']\<rparr>) None
          = llmStringKey (defaultOpenAI\<lparr>stop := Some [''###'']\<rparr>) None"
    by (simp add: llmStringKey_stop_update)
  moreover have "''stop'' \<notin> fst ` set (modelKwargs (defaultOpenAI\<lparr>stop := x\<rparr>))" for x
    by (simp add: defaultOpenAI_def)
  moreover have "''stop'' \<notin> fst ` set (modelKwargs defaultOpenAI)"
    by (simp add: defaultOpenAI_def)
  ultimately show ?thesis
    using llmStringKey_constructor_or_argument
    by (simp add: stop_of_effectiveParams)
qed

end
